theory Spec2Isabelle
  imports Complex_Main "HOL-Library.Word" "HOL-Library.Signed_Division"
begin

section \<open>Numbers and errors\<close>

text \<open>
  The C++ type \<open>FLOAT\<close> (and \<open>float\<close>, \<open>double\<close>) is modelled by the extended
  reals with a not-a-number value: rounding and signed zeros are left out, the
  special values that change the control flow (\<open>0.0/0.0\<close>, \<open>x/0.0\<close>) are kept.
  The C++ \<open>int\<close> is modelled by \<open>int\<close>; operations whose behaviour is undefined
  in C++ (a remainder by zero, an index outside an array) are errors of the model.
  So is the overflow of a signed sum or remainder, where the functions below add
  or divide numbers that come from a message or from the parameters:
  \<open>SignedOverflow\<close> stands for whatever the program does then (on the usual
  machines the sum wraps around to a negative number and the run goes on).
\<close>

datatype FLOAT = Finite real | PlusInf | MinusInf | NaN

datatype error =
    DivisionByZero
  | IndexOutOfRange
  | AssertionFailed string
  | LengthError
  | SignedOverflow

text \<open>The values of a 32-bit \<open>int\<close>.\<close>

definition int32 :: "int \<Rightarrow> bool" where
  "int32 x \<longleftrightarrow> - 2147483648 \<le> x \<and> x \<le> 2147483647"

text \<open>
  \<open>a + b\<close> on \<open>int\<close>: undefined when the sum is not a value of the type.
\<close>

definition int_add :: "int \<Rightarrow> int \<Rightarrow> error + int" where
  "int_add a b = (if int32 (a + b) then Inr (a + b) else Inl SignedOverflow)"

text \<open>
  \<open>n % k\<close> on \<open>int\<close>: the remainder of the division that truncates towards zero
  (\<open>smod\<close>); undefined for \<open>k = 0\<close>, and for \<open>INT_MIN % -1\<close>, whose quotient is
  not a value of the type.
\<close>

definition int_rem :: "int \<Rightarrow> int \<Rightarrow> error + int" where
  "int_rem n k =
     (if k = 0 then Inl DivisionByZero
      else if n = - 2147483648 \<and> k = - 1 then Inl SignedOverflow
      else Inr (n smod k))"

text \<open>
  \<open>ExceptionHandler::getIstance().raise(message)\<close> ends the run. A function that can
  raise ends in one of two ways, each with the state it has reached: it returns, or
  it raises a message.
\<close>

datatype 'a ending = Returns 'a | Raises string 'a

section \<open>Arithmetic of FLOAT\<close>

text \<open>
  The operations follow IEEE 754 on the special values: a not-a-number operand gives
  not-a-number, \<open>inf - inf\<close>, \<open>0 * inf\<close>, \<open>0 / 0\<close> and \<open>inf / inf\<close> are
  not-a-number, a nonzero number divided by zero is infinite, and every comparison
  with not-a-number is false. \<open>fmin\<close> and \<open>fmax\<close> are \<open>std::min\<close> and \<open>std::max\<close>,
  which return their first argument unless the comparison says otherwise.
\<close>

fun fneg :: "FLOAT \<Rightarrow> FLOAT" where
  "fneg (Finite x) = Finite (- x)"
| "fneg PlusInf = MinusInf"
| "fneg MinusInf = PlusInf"
| "fneg NaN = NaN"

fun fadd :: "FLOAT \<Rightarrow> FLOAT \<Rightarrow> FLOAT" where
  "fadd (Finite x) (Finite y) = Finite (x + y)"
| "fadd NaN y = NaN"
| "fadd x NaN = NaN"
| "fadd PlusInf MinusInf = NaN"
| "fadd MinusInf PlusInf = NaN"
| "fadd PlusInf y = PlusInf"
| "fadd x PlusInf = PlusInf"
| "fadd MinusInf y = MinusInf"
| "fadd x MinusInf = MinusInf"

definition fsub :: "FLOAT \<Rightarrow> FLOAT \<Rightarrow> FLOAT" where
  "fsub x y = fadd x (fneg y)"

text \<open>The sign of a value that is not not-a-number: \<open>-1\<close>, \<open>0\<close> or \<open>1\<close>.\<close>

fun fsign :: "FLOAT \<Rightarrow> int" where
  "fsign (Finite x) = (if x < 0 then - 1 else if x = 0 then 0 else 1)"
| "fsign PlusInf = 1"
| "fsign MinusInf = - 1"
| "fsign NaN = 0"

definition signed_inf :: "int \<Rightarrow> FLOAT" where
  "signed_inf s = (if s < 0 then MinusInf else PlusInf)"

fun fmul :: "FLOAT \<Rightarrow> FLOAT \<Rightarrow> FLOAT" where
  "fmul (Finite x) (Finite y) = Finite (x * y)"
| "fmul NaN y = NaN"
| "fmul x NaN = NaN"
| "fmul x y = (if fsign x * fsign y = 0 then NaN else signed_inf (fsign x * fsign y))"

fun fdiv :: "FLOAT \<Rightarrow> FLOAT \<Rightarrow> FLOAT" where
  "fdiv (Finite x) (Finite y) =
     (if y = 0 then (if x = 0 then NaN else signed_inf (fsign (Finite x)))
      else Finite (x / y))"
| "fdiv NaN y = NaN"
| "fdiv x NaN = NaN"
| "fdiv (Finite x) y = Finite 0"
| "fdiv x (Finite y) = signed_inf (fsign x * (if y < 0 then - 1 else 1))"
| "fdiv x y = NaN"

fun flt :: "FLOAT \<Rightarrow> FLOAT \<Rightarrow> bool" where
  "flt (Finite x) (Finite y) = (x < y)"
| "flt NaN y = False"
| "flt x NaN = False"
| "flt x MinusInf = False"
| "flt PlusInf y = False"
| "flt x y = True"

definition fgt :: "FLOAT \<Rightarrow> FLOAT \<Rightarrow> bool" where
  "fgt x y = flt y x"

fun fabs :: "FLOAT \<Rightarrow> FLOAT" where
  "fabs (Finite x) = Finite \<bar>x\<bar>"
| "fabs PlusInf = PlusInf"
| "fabs MinusInf = PlusInf"
| "fabs NaN = NaN"

definition fmin :: "FLOAT \<Rightarrow> FLOAT \<Rightarrow> FLOAT" where
  "fmin x y = (if flt y x then y else x)"

definition fmax :: "FLOAT \<Rightarrow> FLOAT \<Rightarrow> FLOAT" where
  "fmax x y = (if flt x y then y else x)"

section \<open>Parameters.cpp\<close>

text \<open>
  \<open>Parameters\<close> holds three \<open>std::map\<close>s keyed by the parameter name.
\<close>

record Parameters =
  intparams :: "string \<rightharpoonup> int"
  floatparams :: "string \<rightharpoonup> FLOAT"
  stringparams :: "string \<rightharpoonup> string"

text \<open>
  \<open>Parameters::SetParameter\<close>. \<open>std::map::count\<close> is 1 exactly for a key of the
  map. The stream extractions \<open>std::stringstream(value) >> intparams[key]\<close> and
  \<open>... >> floatparams[key]\<close> belong to the C++ library: they are the parameters
  \<open>read_int\<close> and \<open>read_float\<close>, which give the entry's new content from the text and
  the entry's old content. The text written to \<open>cout\<close> is returned as a list of
  lines.
\<close>

definition warning_not_recognized :: "string \<Rightarrow> string" where
  "warning_not_recognized key = ''Warning: parameter '' @ key @ ''was not recognized''"

definition SetParameter ::
  "(string \<Rightarrow> int \<Rightarrow> int) \<Rightarrow> (string \<Rightarrow> FLOAT \<Rightarrow> FLOAT) \<Rightarrow>
   string \<Rightarrow> string \<Rightarrow> Parameters \<Rightarrow> Parameters \<times> string list" where
  "SetParameter read_int read_float key val p =
     (case intparams p key of
        Some old \<Rightarrow> (p\<lparr>intparams := (intparams p)(key \<mapsto> read_int val old)\<rparr>, [])
      | None \<Rightarrow>
     (case floatparams p key of
        Some old \<Rightarrow> (p\<lparr>floatparams := (floatparams p)(key \<mapsto> read_float val old)\<rparr>, [])
      | None \<Rightarrow>
     (case stringparams p key of
        Some old \<Rightarrow> (p\<lparr>stringparams := (stringparams p)(key \<mapsto> val)\<rparr>, [])
      | None \<Rightarrow> (p, [warning_not_recognized key]))))"

section \<open>The data of the tree code\<close>

text \<open>
  The structures of \<open>SphTree.cpp\<close> and \<open>SphSimulation.cpp\<close>, with the fields the
  functions below read or write. A field whose C++ name is a single letter (and
  would capture the variables of every statement) or is shared by two classes has a
  prefix: \<open>part_r\<close>, \<open>part_v\<close>, \<open>part_a\<close>, \<open>part_m\<close>, \<open>part_h\<close>, \<open>part_u\<close> are
  the particle's \<open>r\<close>, \<open>v\<close>, \<open>a\<close>, \<open>m\<close>, \<open>h\<close>, \<open>u\<close>; \<open>cell_N\<close>, \<open>cell_v\<close> are
  the cell's \<open>N\<close> and \<open>v\<close>; \<open>tree_ifirst\<close>, \<open>tree_ilast\<close>, \<open>tree_Ntot\<close>,
  \<open>tree_Ntotmax\<close>, \<open>tree_Ntotmaxold\<close> are the fields \<open>ifirst\<close>, ... of the object
  \<open>tree\<close>; \<open>st_Ntot\<close>, \<open>st_Ntotold\<close>, \<open>st_Ntotmax\<close>, \<open>st_Ntotmaxold\<close> are the
  fields \<open>Ntot\<close>, ... of \<open>SphTree\<close> itself. An array is a list.
\<close>

record SphParticle =
  iorig :: int
  levelneib :: int
  active :: bool
  part_r :: "FLOAT list"
  part_v :: "FLOAT list"
  part_a :: "FLOAT list"
  agrav :: "FLOAT list"
  part_m :: FLOAT
  part_h :: FLOAT
  part_u :: FLOAT
  gpot :: FLOAT
  gpe :: FLOAT
  dudt :: FLOAT
  div_v :: FLOAT

record TreeCell =
  ifirst :: int
  ilast :: int
  cell_N :: int
  Nactive :: int
  level :: int
  cnext :: int
  bbmin :: "FLOAT list"
  bbmax :: "FLOAT list"
  cell_v :: "FLOAT list"
  hmax :: FLOAT

record Sph =
  Nsph :: int
  Ntot :: int
  Nghost :: int
  NPeriodicGhost :: int
  Nmpighost :: int
  Nghostmax :: int
  Nsphmax :: int
  NImportedParticles :: int
  sphdata :: "SphParticle list"

record KDTree =
  Ncell :: int
  Ncellmax :: int
  Ncelltot :: int
  Nimportedcell :: int
  ltot :: int
  tree_ifirst :: int
  tree_ilast :: int
  tree_Ntot :: int
  tree_Ntotmax :: int
  tree_Ntotmaxold :: int
  gmax :: int
  celldata :: "TreeCell list"
  inext :: "int list"

text \<open>
  \<open>cellexportlist[j]\<close> is an array of pointers to cells: it is the list of the cells
  pointed to. \<open>cellexportlist\<close> itself has \<open>Nmpi\<close> entries (the constructor
  allocates it so, and \<open>Nmpi\<close> does not change): \<open>Nmpi\<close> is the length of the list.
  \<open>allocated_buffer\<close> says that the work buffers of the tree walks exist.
\<close>

record SphTree =
  tree :: KDTree
  allocated_buffer :: bool
  st_Ntot :: int
  st_Ntotold :: int
  st_Ntotmax :: int
  st_Ntotmaxold :: int
  Ncellexport :: "int list"
  Npartexport :: "int list"
  cellexportlist :: "TreeCell list list"
  ids_sent_particles :: "int list list"
  N_imported_part_per_proc :: "int list"

section \<open>SphTree::BuildTree\<close>

text \<open>
  The methods \<open>BuildTree\<close> calls are not in \<open>SphTree.cpp\<close>: \<open>Sph::DeleteDeadParticles\<close>
  and the tree's \<open>BuildTree\<close>, \<open>StockTree\<close> and \<open>ExtrapolateCellProperties\<close> are
  parameters, functions on the object they change. The array that
  \<open>new TreeCell<ndim>*[tree->gmax]\<close> returns holds pointers that are not
  initialised: what it holds is a parameter too, \<open>new_cell_pointers\<close>. The timing
  calls and the OpenMP switches change nothing of the state below and are left out.
\<close>

record tree_methods =
  DeleteDeadParticles :: "Sph \<Rightarrow> Sph"
  tree_BuildTree :: "int \<Rightarrow> int \<Rightarrow> SphParticle list \<Rightarrow> FLOAT \<Rightarrow> KDTree \<Rightarrow> KDTree"
  StockTree :: "SphParticle list \<Rightarrow> KDTree \<Rightarrow> KDTree"
  ExtrapolateCellProperties :: "FLOAT \<Rightarrow> KDTree \<Rightarrow> KDTree"
  new_cell_pointers :: "int \<Rightarrow> TreeCell list"

text \<open>
  \<open>SphTree::AllocateMemory\<close> allocates the work buffers of the tree walks, which
  are not part of the state below, when they do not exist yet.
\<close>

definition AllocateMemory :: "SphTree \<Rightarrow> SphTree" where
  "AllocateMemory st = (if \<not> allocated_buffer st then st\<lparr>allocated_buffer := True\<rparr> else st)"

text \<open>
  The branch of a tree rebuild, with the reallocation of \<open>cellexportlist\<close> that the
  code has under \<open>MPI_PARALLEL\<close>, as the export functions below.
\<close>

definition rebuild_tree_branch ::
  "tree_methods \<Rightarrow> int \<Rightarrow> int \<Rightarrow> FLOAT \<Rightarrow> Sph \<Rightarrow> SphTree \<Rightarrow> Sph \<times> SphTree" where
  "rebuild_tree_branch M Npart Npartmax timestep sph st =
     (let sph1 = DeleteDeadParticles M sph;
          st1 = st\<lparr>st_Ntotold := st_Ntot st, st_Ntot := Ntot sph1,
                   st_Ntotmaxold := st_Ntotmax st,
                   st_Ntotmax := max (max (st_Ntotmax st) (Ntot sph1)) (Nsphmax sph1)\<rparr>;
          t = tree st1;
          t1 = t\<lparr>tree_ifirst := 0, tree_ilast := Nsph sph1 - 1, tree_Ntot := Nsph sph1,
                 tree_Ntotmaxold := tree_Ntotmax t,
                 tree_Ntotmax := max (max (tree_Ntotmax t) (Nsph sph1)) (Nsphmax sph1)\<rparr>;
          t2 = tree_BuildTree M Npart Npartmax (sphdata sph1) timestep t1;
          st2 = AllocateMemory (st1\<lparr>tree := t2\<rparr>);
          st3 = (if st_Ntotmaxold st2 < st_Ntotmax st2
                 then st2\<lparr>cellexportlist :=
                          map (\<lambda>old. new_cell_pointers M (gmax (tree st2))) (cellexportlist st2)\<rparr>
                 else st2)
      in (sph1, st3))"

text \<open>
  \<open>n%ntreebuildstep\<close> is evaluated before \<open>rebuild_tree\<close> is read, and
  \<open>n%ntreestockstep\<close> only when the first condition is false.
\<close>

definition BuildTree ::
  "tree_methods \<Rightarrow> bool \<Rightarrow> int \<Rightarrow> int \<Rightarrow> int \<Rightarrow> int \<Rightarrow> int \<Rightarrow> FLOAT \<Rightarrow>
   Sph \<Rightarrow> SphTree \<Rightarrow> error + Sph \<times> SphTree" where
  "BuildTree M rebuild_tree n ntreebuildstep ntreestockstep Npart Npartmax timestep sph st =
     (case int_rem n ntreebuildstep of
        Inl e \<Rightarrow> Inl e
      | Inr build_rem \<Rightarrow>
          if build_rem = 0 \<or> rebuild_tree then
            Inr (rebuild_tree_branch M Npart Npartmax timestep sph st)
          else
            (case int_rem n ntreestockstep of
               Inl e \<Rightarrow> Inl e
             | Inr stock_rem \<Rightarrow>
                 if stock_rem = 0 then
                   Inr (sph, st\<lparr>tree := StockTree M (sphdata sph) (tree st)\<rparr>)
                 else
                   Inr (sph, st\<lparr>tree := ExtrapolateCellProperties M timestep (tree st)\<rparr>)))"

section \<open>SphTree::SearchBoundaryGhostParticles\<close>

record DomainBox =
  x_boundary_lhs :: string
  x_boundary_rhs :: string
  y_boundary_lhs :: string
  y_boundary_rhs :: string
  z_boundary_lhs :: string
  z_boundary_rhs :: string
  boxmin :: "FLOAT list"
  boxmax :: "FLOAT list"

text \<open>
  \<open>Sph::CheckXBoundaryGhostParticle\<close>, \<open>CheckYBoundaryGhostParticle\<close> and
  \<open>CheckZBoundaryGhostParticle\<close> are not in the sources given: they are parameters,
  functions of the particle index, the ghost lifetime and the box on the \<open>Sph\<close>
  object.
\<close>

record ghost_checks =
  CheckXBoundaryGhostParticle :: "int \<Rightarrow> FLOAT \<Rightarrow> DomainBox \<Rightarrow> Sph \<Rightarrow> Sph"
  CheckYBoundaryGhostParticle :: "int \<Rightarrow> FLOAT \<Rightarrow> DomainBox \<Rightarrow> Sph \<Rightarrow> Sph"
  CheckZBoundaryGhostParticle :: "int \<Rightarrow> FLOAT \<Rightarrow> DomainBox \<Rightarrow> Sph \<Rightarrow> Sph"

text \<open>The test that opens a cell, for the axis \<open>k\<close>.\<close>

definition cell_near_boundary ::
  "FLOAT \<Rightarrow> FLOAT \<Rightarrow> DomainBox \<Rightarrow> nat \<Rightarrow> TreeCell \<Rightarrow> error + bool" where
  "cell_near_boundary grange tghost simbox k cell =
     (if length (bbmin cell) \<le> k \<or> length (bbmax cell) \<le> k \<or> length (cell_v cell) \<le> k
       \<or> length (boxmin simbox) \<le> k \<or> length (boxmax simbox) \<le> k
      then Inl IndexOutOfRange
      else Inr (flt (fadd (bbmin cell ! k) (fmin (Finite 0) (fmul (cell_v cell ! k) tghost)))
                    (fadd (boxmin simbox ! k) (fmul grange (hmax cell)))
              \<or> fgt (fadd (bbmax cell ! k) (fmax (Finite 0) (fmul (cell_v cell ! k) tghost)))
                    (fsub (boxmax simbox ! k) (fmul grange (hmax cell)))))"

text \<open>
  The three passes of the function are the same text, with the array index 0, 1 or 2
  in the test above and with the check of the axis. The loops below are that text,
  for a test \<open>near\<close> and a check \<open>chk\<close> on the particle index.

  The loop over the particles of a leaf cell, \<open>while (i != -1)\<close>. \<open>None\<close> is a loop
  that does not end.
\<close>

partial_function (option) leaf_loop ::
  "(int \<Rightarrow> Sph \<Rightarrow> Sph) \<Rightarrow> int list \<Rightarrow> int \<Rightarrow> int \<Rightarrow> Sph \<Rightarrow> (error + Sph) option" where
  "leaf_loop chk inext' ilast' i sph =
     (if i = - 1 then Some (Inr sph)
      else if i = ilast' then Some (Inr (chk i sph))
      else if i < 0 \<or> int (length inext') \<le> i then Some (Inl IndexOutOfRange)
      else leaf_loop chk inext' ilast' (inext' ! nat i) (chk i sph))"

text \<open>The walk over the cells, \<open>while (c < tree->Ncell)\<close>.\<close>

partial_function (option) cell_loop ::
  "(TreeCell \<Rightarrow> error + bool) \<Rightarrow> (int \<Rightarrow> Sph \<Rightarrow> Sph) \<Rightarrow> KDTree \<Rightarrow> int \<Rightarrow> Sph \<Rightarrow>
   (error + Sph) option" where
  "cell_loop near chk tree' c sph =
     (if c < Ncell tree' then
        (if c < 0 \<or> int (length (celldata tree')) \<le> c then Some (Inl IndexOutOfRange)
         else (case near (celldata tree' ! nat c) of
                 Inl e \<Rightarrow> Some (Inl e)
               | Inr opened \<Rightarrow>
                   if opened then
                     (if level (celldata tree' ! nat c) \<noteq> ltot tree' then
                        cell_loop near chk tree' (c + 1) sph
                      else if cell_N (celldata tree' ! nat c) = 0 then
                        cell_loop near chk tree' (cnext (celldata tree' ! nat c)) sph
                      else if level (celldata tree' ! nat c) = ltot tree' then
                        (case leaf_loop chk (inext tree') (ilast (celldata tree' ! nat c))
                                (ifirst (celldata tree' ! nat c)) sph of
                           None \<Rightarrow> None
                         | Some r \<Rightarrow>
                             (case r of
                                Inl e \<Rightarrow> Some (Inl e)
                              | Inr sph' \<Rightarrow>
                                  cell_loop near chk tree' (cnext (celldata tree' ! nat c)) sph'))
                      else cell_loop near chk tree' c sph)
                   else cell_loop near chk tree' (cnext (celldata tree' ! nat c)) sph))
      else Some (Inr sph))"

text \<open>
  The direct scan of the ghosts, \<open>for (i=sph->Nsph; i<sph->Ntot; i++)\<close>, from the
  index \<open>i\<close> on; the bound is read again on every round.
\<close>

partial_function (option) direct_loop ::
  "(int \<Rightarrow> Sph \<Rightarrow> Sph) \<Rightarrow> int \<Rightarrow> Sph \<Rightarrow> Sph option" where
  "direct_loop chk i sph =
     (if i < Ntot sph then direct_loop chk (i + 1) (chk i sph) else Some sph)"

text \<open>
  The pass in x: the walk of the tree with the x check, then
  \<open>sph->Ntot = sph->Nsph + sph->Nghost\<close>.
\<close>

definition x_pass ::
  "ghost_checks \<Rightarrow> FLOAT \<Rightarrow> FLOAT \<Rightarrow> DomainBox \<Rightarrow> KDTree \<Rightarrow> Sph \<Rightarrow> (error + Sph) option" where
  "x_pass G grange tghost simbox tree' sph =
     (case cell_loop (cell_near_boundary grange tghost simbox 0)
             (\<lambda>i. CheckXBoundaryGhostParticle G i tghost simbox) tree' 0 sph of
        None \<Rightarrow> None
      | Some (Inl e) \<Rightarrow> Some (Inl e)
      | Some (Inr sph1) \<Rightarrow> Some (Inr (sph1\<lparr>Ntot := Nsph sph1 + Nghost sph1\<rparr>)))"

text \<open>
  The pass in y: the walk of the tree with the y check, the direct scan with the y
  check, then \<open>sph->Ntot = sph->Nsph + sph->Nghost\<close>.
\<close>

definition y_pass ::
  "ghost_checks \<Rightarrow> FLOAT \<Rightarrow> FLOAT \<Rightarrow> DomainBox \<Rightarrow> KDTree \<Rightarrow> Sph \<Rightarrow> (error + Sph) option" where
  "y_pass G grange tghost simbox tree' sph =
     (case cell_loop (cell_near_boundary grange tghost simbox 1)
             (\<lambda>i. CheckYBoundaryGhostParticle G i tghost simbox) tree' 0 sph of
        None \<Rightarrow> None
      | Some (Inl e) \<Rightarrow> Some (Inl e)
      | Some (Inr sph1) \<Rightarrow>
          (case direct_loop (\<lambda>i. CheckYBoundaryGhostParticle G i tghost simbox)
                  (Nsph sph1) sph1 of
             None \<Rightarrow> None
           | Some sph2 \<Rightarrow> Some (Inr (sph2\<lparr>Ntot := Nsph sph2 + Nghost sph2\<rparr>))))"

text \<open>The pass in z: as the pass in y, with the z check.\<close>

definition z_pass ::
  "ghost_checks \<Rightarrow> FLOAT \<Rightarrow> FLOAT \<Rightarrow> DomainBox \<Rightarrow> KDTree \<Rightarrow> Sph \<Rightarrow> (error + Sph) option" where
  "z_pass G grange tghost simbox tree' sph =
     (case cell_loop (cell_near_boundary grange tghost simbox 2)
             (\<lambda>i. CheckZBoundaryGhostParticle G i tghost simbox) tree' 0 sph of
        None \<Rightarrow> None
      | Some (Inl e) \<Rightarrow> Some (Inl e)
      | Some (Inr sph1) \<Rightarrow>
          (case direct_loop (\<lambda>i. CheckZBoundaryGhostParticle G i tghost simbox)
                  (Nsph sph1) sph1 of
             None \<Rightarrow> None
           | Some sph2 \<Rightarrow> Some (Inr (sph2\<lparr>Ntot := Nsph sph2 + Nghost sph2\<rparr>))))"

definition ghost_memory_message :: string where
  "ghost_memory_message = ''Not enough memory for ghost particles''"

text \<open>
  The three passes in the order of the text. \<open>ndim\<close> is the template parameter,
  \<open>ghost_range\<close> and \<open>kernrange\<close> are members of the neighbour search.
\<close>

definition ghost_passes ::
  "ghost_checks \<Rightarrow> int \<Rightarrow> FLOAT \<Rightarrow> FLOAT \<Rightarrow> DomainBox \<Rightarrow> KDTree \<Rightarrow> Sph \<Rightarrow>
   (error + Sph) option" where
  "ghost_passes G ndim grange tghost simbox tree' sph =
     (case (if \<not> (x_boundary_lhs simbox = ''open'' \<and> x_boundary_rhs simbox = ''open'')
            then x_pass G grange tghost simbox tree' sph
            else Some (Inr sph)) of
        None \<Rightarrow> None
      | Some (Inl e) \<Rightarrow> Some (Inl e)
      | Some (Inr sph1) \<Rightarrow>
     (case (if 2 \<le> ndim
               \<and> \<not> (y_boundary_lhs simbox = ''open'' \<and> y_boundary_rhs simbox = ''open'')
            then y_pass G grange tghost simbox tree' sph1
            else Some (Inr sph1)) of
        None \<Rightarrow> None
      | Some (Inl e) \<Rightarrow> Some (Inl e)
      | Some (Inr sph2) \<Rightarrow>
          (if ndim = 3
              \<and> \<not> (z_boundary_lhs simbox = ''open'' \<and> z_boundary_rhs simbox = ''open'')
           then z_pass G grange tghost simbox tree' sph2
           else Some (Inr sph2))))"

text \<open>The counters as the function sets them before the first pass.\<close>

definition ghost_start :: "Sph \<Rightarrow> Sph" where
  "ghost_start sph =
     sph\<lparr>Nghost := 0, NPeriodicGhost := 0, Nmpighost := 0,
         Nghostmax := Nsphmax sph - Nsph sph, Ntot := Nsph sph\<rparr>"

definition SearchBoundaryGhostParticles ::
  "ghost_checks \<Rightarrow> int \<Rightarrow> FLOAT \<Rightarrow> FLOAT \<Rightarrow> FLOAT \<Rightarrow> DomainBox \<Rightarrow> KDTree \<Rightarrow> Sph \<Rightarrow>
   (error + Sph ending) option" where
  "SearchBoundaryGhostParticles G ndim ghost_range kernrange tghost simbox tree' sph =
     (let grange = fmul ghost_range kernrange;
          sph0 = ghost_start sph
      in if x_boundary_lhs simbox = ''open'' \<and> x_boundary_rhs simbox = ''open''
          \<and> y_boundary_lhs simbox = ''open'' \<and> y_boundary_rhs simbox = ''open''
          \<and> z_boundary_lhs simbox = ''open'' \<and> z_boundary_rhs simbox = ''open''
         then Some (Inr (Returns sph0))
         else (case ghost_passes G ndim grange tghost simbox tree' sph0 of
                 None \<Rightarrow> None
               | Some (Inl e) \<Rightarrow> Some (Inl e)
               | Some (Inr sph1) \<Rightarrow>
                   if Nsphmax sph1 < Ntot sph1
                   then Some (Inr (Raises ghost_memory_message sph1))
                   else Some (Inr (Returns (sph1\<lparr>NPeriodicGhost := Nghost sph1\<rparr>)))))"

section \<open>What the ghost search is told about its inputs\<close>

text \<open>
  The checks leave \<open>Nsph\<close> and \<open>Ntot\<close> as they are: what the code of the three
  checks, which is not in the sources given, is assumed to do (a check creates a
  ghost behind the particles there are and counts it in \<open>Nghost\<close>).
\<close>

definition ghost_frame :: "ghost_checks \<Rightarrow> FLOAT \<Rightarrow> DomainBox \<Rightarrow> bool" where
  "ghost_frame G t b \<longleftrightarrow>
     (\<forall>i s. Nsph (CheckXBoundaryGhostParticle G i t b s) = Nsph s
          \<and> Ntot (CheckXBoundaryGhostParticle G i t b s) = Ntot s
          \<and> Nsph (CheckYBoundaryGhostParticle G i t b s) = Nsph s
          \<and> Ntot (CheckYBoundaryGhostParticle G i t b s) = Ntot s
          \<and> Nsph (CheckZBoundaryGhostParticle G i t b s) = Nsph s
          \<and> Ntot (CheckZBoundaryGhostParticle G i t b s) = Ntot s)"

text \<open>
  A tree on which the walks end and stay inside the arrays. The chain of a leaf
  cell that holds particles leads from \<open>ifirst\<close> along \<open>inext\<close> to \<open>ilast\<close> or to
  \<open>-1\<close>, in at most \<open>n\<close> steps.
\<close>

fun chain_ends :: "int list \<Rightarrow> int \<Rightarrow> nat \<Rightarrow> int \<Rightarrow> bool" where
  "chain_ends inext' ilast' 0 i \<longleftrightarrow> i = - 1 \<or> i = ilast'"
| "chain_ends inext' ilast' (Suc n) i \<longleftrightarrow>
     i = - 1 \<or> i = ilast'
     \<or> (0 \<le> i \<and> i < int (length inext') \<and> chain_ends inext' ilast' n (inext' ! nat i))"

text \<open>
  The cells are the first \<open>Ncell\<close> entries of \<open>celldata\<close>; the vectors of a cell and
  of the box have \<open>ndim\<close> components; \<open>cnext\<close> of a cell points behind the cell
  (the cells of the tree are stored with every cell before its children and its
  successors); the chain of a leaf with particles ends.
\<close>

definition walkable_cell :: "int \<Rightarrow> KDTree \<Rightarrow> nat \<Rightarrow> bool" where
  "walkable_cell ndim tree' c \<longleftrightarrow>
     int c < cnext (celldata tree' ! c)
   \<and> nat ndim \<le> length (bbmin (celldata tree' ! c))
   \<and> nat ndim \<le> length (bbmax (celldata tree' ! c))
   \<and> nat ndim \<le> length (cell_v (celldata tree' ! c))
   \<and> (level (celldata tree' ! c) = ltot tree' \<and> cell_N (celldata tree' ! c) \<noteq> 0
      \<longrightarrow> chain_ends (inext tree') (ilast (celldata tree' ! c)) (length (inext tree'))
            (ifirst (celldata tree' ! c)))"

definition walkable :: "int \<Rightarrow> DomainBox \<Rightarrow> KDTree \<Rightarrow> bool" where
  "walkable ndim simbox tree' \<longleftrightarrow>
     1 \<le> ndim
   \<and> nat ndim \<le> length (boxmin simbox) \<and> nat ndim \<le> length (boxmax simbox)
   \<and> Ncell tree' \<le> int (length (celldata tree'))
   \<and> list_all (walkable_cell ndim tree') [0..<nat (Ncell tree')]"

section \<open>SphTree::FindLoadBalancingDivision\<close>

text \<open>
  The type of an MPI node (\<open>MpiNode<ndim>\<close>) is not declared in the sources given:
  it is the type variable \<open>'node\<close>. The loop over \<open>leftnodes\<close> reads
  \<open>leftnodes[i]\<close> into a local variable and does nothing else; the model threads
  the two accumulators through it as the C++ scope does.
\<close>

fun leftnodes_loop :: "'node list \<Rightarrow> int list \<Rightarrow> FLOAT \<times> FLOAT \<Rightarrow> FLOAT \<times> FLOAT" where
  "leftnodes_loop mpinode [] (workleft, workright) = (workleft, workright)"
| "leftnodes_loop mpinode (inode # rest) (workleft, workright) =
     leftnodes_loop mpinode rest (workleft, workright)"

text \<open>
  The accumulators at the point where \<open>workfrac\<close> is computed: set to \<open>0.0\<close> at the
  head of the \<open>do\<close> body, then passed through the loop over \<open>leftnodes\<close>.
\<close>

definition accumulated_work :: "'node list \<Rightarrow> int list \<Rightarrow> int list \<Rightarrow> FLOAT \<times> FLOAT" where
  "accumulated_work mpinode leftnodes rightnodes =
     leftnodes_loop mpinode leftnodes (Finite 0, Finite 0)"

definition worktol :: FLOAT where
  "worktol = Finite (1 / 1000)"

text \<open>
  The \<open>do ... while\<close> loop. \<open>None\<close> is a loop that does not end.
\<close>

partial_function (option) division_loop ::
  "'node list \<Rightarrow> int list \<Rightarrow> int list \<Rightarrow> FLOAT \<Rightarrow> FLOAT \<Rightarrow> FLOAT \<Rightarrow> FLOAT option" where
  "division_loop mpinode leftnodes rightnodes r_divide r_min r_max =
     (let workleft = fst (accumulated_work mpinode leftnodes rightnodes);
          workright = snd (accumulated_work mpinode leftnodes rightnodes);
          workfrac = fdiv workleft (fadd workleft workright)
      in if flt workfrac (fsub (Finite (1 / 2)) worktol) then
           (if flt (fabs (fsub workfrac (Finite (1 / 2)))) worktol
            then division_loop mpinode leftnodes rightnodes
                   (fmul (Finite (1 / 2)) (fadd r_divide r_max)) r_divide r_max
            else Some (fmul (Finite (1 / 2)) (fadd r_divide r_max)))
         else if fgt workfrac (fadd (Finite (1 / 2)) worktol) then
           (if flt (fabs (fsub workfrac (Finite (1 / 2)))) worktol
            then division_loop mpinode leftnodes rightnodes
                   (fmul (Finite (1 / 2)) (fadd r_min r_divide)) r_min r_divide
            else Some (fmul (Finite (1 / 2)) (fadd r_min r_divide)))
         else Some r_divide)"

text \<open>
  \<open>bbmin\<close> and \<open>bbmax\<close> are arrays of \<open>ndim\<close> numbers; an index outside them is
  undefined in C++ and an error here.
\<close>

definition FindLoadBalancingDivision ::
  "int \<Rightarrow> FLOAT \<Rightarrow> FLOAT list \<Rightarrow> FLOAT list \<Rightarrow> int list \<Rightarrow> int list \<Rightarrow> 'node list \<Rightarrow>
   (error + FLOAT) option" where
  "FindLoadBalancingDivision k_divide r_old bbmin' bbmax' leftnodes rightnodes mpinode =
     (if k_divide < 0 \<or> int (length bbmax') \<le> k_divide \<or> int (length bbmin') \<le> k_divide
      then Some (Inl IndexOutOfRange)
      else map_option Inr
             (division_loop mpinode leftnodes rightnodes r_old
                (bbmin' ! nat k_divide) (bbmax' ! nat k_divide)))"

section \<open>The force update of SphSimulation::Setup and SphSimulation::MainLoop\<close>

text \<open>
  \<open>Setup\<close> and \<open>MainLoop\<close> hold the same block under \<open>if (sph->Nsph > 0)\<close>: zero
  the accelerations, compute the hydro forces if \<open>hydro_forces\<close> is 1, compute the
  gravitational forces if \<open>self_gravity\<close> is 1, then the loop under the comment
  \<open>Add accelerations\<close>. What the block holds before these statements
  (\<open>UpdateAllSphProperties\<close>, \<open>CopyDataToGhosts\<close>) is not part of the model.
  \<open>UpdateAllSphForces\<close> and \<open>UpdateAllGravityForces\<close> belong to the neighbour
  search object, whose code is not in the sources given: they are parameters.
  \<open>intparams[key]\<close> of a \<open>std::map\<close> reads 0 for a key that is not there.
\<close>

record force_methods =
  UpdateAllSphForces :: "Parameters \<Rightarrow> Sph \<Rightarrow> Sph"
  UpdateAllGravityForces :: "Parameters \<Rightarrow> Sph \<Rightarrow> Sph"

definition int_param :: "Parameters \<Rightarrow> string \<Rightarrow> int" where
  "int_param p key = (case intparams p key of Some x \<Rightarrow> x | None \<Rightarrow> 0)"

text \<open>
  \<open>for (int i=0; i<sph->Nsph; i++)\<close> over the indices given, with the loop body
  \<open>g\<close> applied to \<open>sphdata[i]\<close>.
\<close>

fun particle_loop ::
  "(SphParticle \<Rightarrow> error + SphParticle) \<Rightarrow> nat list \<Rightarrow> SphParticle list \<Rightarrow>
   error + SphParticle list" where
  "particle_loop g [] ps = Inr ps"
| "particle_loop g (i # rest) ps =
     (if length ps \<le> i then Inl IndexOutOfRange
      else (case g (ps ! i) of
              Inl e \<Rightarrow> Inl e
            | Inr p \<Rightarrow> particle_loop g rest (ps[i := p])))"

text \<open>\<open>for (int k=0; k<ndim; k++) xs[k] = f(k)\<close>.\<close>

definition assign_components :: "int \<Rightarrow> (nat \<Rightarrow> FLOAT) \<Rightarrow> FLOAT list \<Rightarrow> FLOAT list" where
  "assign_components ndim f xs = fold (\<lambda>k ys. ys[k := f k]) [0..<nat ndim] xs"

definition zero_particle :: "int \<Rightarrow> SphParticle \<Rightarrow> error + SphParticle" where
  "zero_particle ndim p =
     (if int (length (part_a p)) < ndim \<or> int (length (agrav p)) < ndim
      then Inl IndexOutOfRange
      else Inr (p\<lparr>part_a := assign_components ndim (\<lambda>k. Finite 0) (part_a p),
                  agrav := assign_components ndim (\<lambda>k. Finite 0) (agrav p),
                  gpot := Finite 0, dudt := Finite 0\<rparr>))"

text \<open>The body of the loop \<open>Add accelerations\<close>: \<open>a[k] = agrav[k]\<close>.\<close>

definition add_accelerations_particle :: "int \<Rightarrow> SphParticle \<Rightarrow> error + SphParticle" where
  "add_accelerations_particle ndim p =
     (if int (length (part_a p)) < ndim \<or> int (length (agrav p)) < ndim
      then Inl IndexOutOfRange
      else Inr (p\<lparr>part_a := assign_components ndim (\<lambda>k. agrav p ! k) (part_a p)\<rparr>))"

definition force_update_pass ::
  "force_methods \<Rightarrow> int \<Rightarrow> Parameters \<Rightarrow> Sph \<Rightarrow> error + Sph" where
  "force_update_pass M ndim simparams sph =
     (if 0 < Nsph sph then
        (case particle_loop (zero_particle ndim) [0..<nat (Nsph sph)] (sphdata sph) of
           Inl e \<Rightarrow> Inl e
         | Inr ps0 \<Rightarrow>
             (let sph0 = sph\<lparr>sphdata := ps0\<rparr>;
                  sph1 = (if int_param simparams ''hydro_forces'' = 1
                          then UpdateAllSphForces M simparams sph0 else sph0);
                  sph2 = (if int_param simparams ''self_gravity'' = 1
                          then UpdateAllGravityForces M simparams sph1 else sph1)
              in (case particle_loop (add_accelerations_particle ndim) [0..<nat (Nsph sph2)]
                        (sphdata sph2) of
                    Inl e \<Rightarrow> Inl e
                  | Inr ps3 \<Rightarrow> Inr (sph2\<lparr>sphdata := ps3\<rparr>))))
      else Inr sph)"

section \<open>Byte buffers\<close>

text \<open>
  A \<open>vector<char>\<close> is a list of bytes. The declarations of \<open>ParticleType\<close> and
  \<open>TreeCell\<close> are not in the sources given, so the bytes of an object are not
  known: a byte is either a plain value, or the \<open>k\<close>-th byte of the representation
  of an \<open>int\<close>, a cell or a particle. \<open>sizeof(int)\<close> is 4; \<open>sizeof(TreeCell)\<close> and
  \<open>sizeof(ParticleType)\<close> are parameters, with the value a sequence of bytes has
  when it is read as an object it was not written from.
\<close>

datatype mbyte =
    RawByte "8 word"
  | IntByte int nat
  | CellByte TreeCell nat
  | PartByte SphParticle nat

record layout =
  sizeof_cell :: nat
  sizeof_part :: nat
  raw_int :: "mbyte list \<Rightarrow> int"
  raw_cell :: "mbyte list \<Rightarrow> TreeCell"
  raw_part :: "mbyte list \<Rightarrow> SphParticle"

definition sizeof_int :: nat where
  "sizeof_int = 4"

definition int_bytes :: "int \<Rightarrow> mbyte list" where
  "int_bytes n = map (IntByte n) [0..<sizeof_int]"

definition cell_bytes :: "layout \<Rightarrow> TreeCell \<Rightarrow> mbyte list" where
  "cell_bytes lay c = map (CellByte c) [0..<sizeof_cell lay]"

definition part_bytes :: "layout \<Rightarrow> SphParticle \<Rightarrow> mbyte list" where
  "part_bytes lay p = map (PartByte p) [0..<sizeof_part lay]"

definition bytes_int :: "layout \<Rightarrow> mbyte list \<Rightarrow> int" where
  "bytes_int lay bs =
     (case bs of
        IntByte n k # rest \<Rightarrow> if bs = int_bytes n then n else raw_int lay bs
      | _ \<Rightarrow> raw_int lay bs)"

definition bytes_cell :: "layout \<Rightarrow> mbyte list \<Rightarrow> TreeCell" where
  "bytes_cell lay bs =
     (case bs of
        CellByte c k # rest \<Rightarrow> if bs = cell_bytes lay c then c else raw_cell lay bs
      | _ \<Rightarrow> raw_cell lay bs)"

definition bytes_part :: "layout \<Rightarrow> mbyte list \<Rightarrow> SphParticle" where
  "bytes_part lay bs =
     (case bs of
        PartByte p k # rest \<Rightarrow> if bs = part_bytes lay p then p else raw_part lay bs
      | _ \<Rightarrow> raw_part lay bs)"

text \<open>
  Reading \<open>n\<close> bytes at an offset and writing bytes at an offset. An access that
  leaves the buffer is undefined in C++ and an error here.
\<close>

definition load :: "mbyte list \<Rightarrow> int \<Rightarrow> nat \<Rightarrow> error + mbyte list" where
  "load buf off n =
     (if off < 0 \<or> int (length buf) < off + int n then Inl IndexOutOfRange
      else Inr (take n (drop (nat off) buf)))"

definition store :: "mbyte list \<Rightarrow> int \<Rightarrow> mbyte list \<Rightarrow> error + mbyte list" where
  "store buf off bs =
     (if off < 0 \<or> int (length buf) < off + int (length bs) then Inl IndexOutOfRange
      else Inr (take (nat off) buf @ bs @ drop (nat off + length bs) buf))"

text \<open>
  Modelled from the spec: the helper \<open>copy\<close>, which \<open>SphTree.cpp\<close> calls and takes
  from a header that is not in the sources given. The spec's section 4.6 has the
  sender "pack ... cell records and then particle records into a flat byte buffer"
  and the receivers "unpack" them: \<open>copy(&buffer[offset], &object)\<close> writes the
  bytes of the object at the offset, \<open>copy(&object, &buffer[offset])\<close> reads the
  object from the \<open>sizeof\<close> bytes at the offset.
\<close>

definition copy_int_to :: "mbyte list \<Rightarrow> int \<Rightarrow> int \<Rightarrow> error + mbyte list" where
  "copy_int_to buf off n = store buf off (int_bytes n)"

definition copy_cell_to :: "layout \<Rightarrow> mbyte list \<Rightarrow> int \<Rightarrow> TreeCell \<Rightarrow> error + mbyte list" where
  "copy_cell_to lay buf off c = store buf off (cell_bytes lay c)"

definition copy_part_to :: "layout \<Rightarrow> mbyte list \<Rightarrow> int \<Rightarrow> SphParticle \<Rightarrow> error + mbyte list" where
  "copy_part_to lay buf off p = store buf off (part_bytes lay p)"

definition copy_int_from :: "layout \<Rightarrow> mbyte list \<Rightarrow> int \<Rightarrow> error + int" where
  "copy_int_from lay buf off = map_sum id (bytes_int lay) (load buf off sizeof_int)"

definition copy_cell_from :: "layout \<Rightarrow> mbyte list \<Rightarrow> int \<Rightarrow> error + TreeCell" where
  "copy_cell_from lay buf off = map_sum id (bytes_cell lay) (load buf off (sizeof_cell lay))"

definition copy_part_from :: "layout \<Rightarrow> mbyte list \<Rightarrow> int \<Rightarrow> error + SphParticle" where
  "copy_part_from lay buf off = map_sum id (bytes_part lay) (load buf off (sizeof_part lay))"

section \<open>SphTree::UnpackReturnedExportInfo\<close>












section \<open>SphTree::GetExportInfo\<close>

text \<open>
  \<open>vector::resize\<close>: a size that is negative as an \<open>int\<close> is a huge \<open>size_t\<close> and the
  call throws; new bytes are zero.
\<close>

definition resize :: "mbyte list \<Rightarrow> int \<Rightarrow> error + mbyte list" where
  "resize buf n =
     (if n < 0 then Inl LengthError
      else Inr (take (nat n) buf @ replicate (nat n - length buf) (RawByte 0)))"

text \<open>
  The tree's \<open>ComputeActiveParticleList\<close> is not in the sources given: it is the
  parameter \<open>active_list\<close>, which gives the indices written to \<open>activelist\<close>, the
  value returned being their number.

  The loop over \<open>iparticle\<close>: the state is the buffer, \<open>offset\<close> and
  \<open>ids_active_particles\<close>.
\<close>

fun export_particles ::
  "layout \<Rightarrow> SphParticle list \<Rightarrow> int list \<Rightarrow> mbyte list \<times> int \<times> int list \<Rightarrow>
   error + mbyte list \<times> int \<times> int list" where
  "export_particles lay ps [] (buf, offset, ids) = Inr (buf, offset, ids)"
| "export_particles lay ps (j # activelist) (buf, offset, ids) =
     (if j < 0 \<or> int (length ps) \<le> j then Inl IndexOutOfRange
      else (case copy_part_to lay buf offset (ps ! nat j) of
              Inl e \<Rightarrow> Inl e
            | Inr buf' \<Rightarrow>
                export_particles lay ps activelist
                  (buf', offset + int (sizeof_part lay), ids @ [j])))"

text \<open>
  The loop over the cells to export: the state is the buffer, \<open>offset\<close>,
  \<open>ids_active_particles\<close> and \<open>exported_particles\<close>. The two assignments through
  \<open>exported_cell\<close> change the copy of the cell that lies in the buffer at \<open>offset\<close>,
  which becomes the bytes of the cell with the new \<open>ifirst\<close> and \<open>ilast\<close>.
\<close>

fun export_cells ::
  "layout \<Rightarrow> (TreeCell \<Rightarrow> SphParticle list \<Rightarrow> int list) \<Rightarrow> SphParticle list \<Rightarrow> TreeCell list \<Rightarrow>
   mbyte list \<times> int \<times> int list \<times> int \<Rightarrow> error + mbyte list \<times> int \<times> int list \<times> int" where
  "export_cells lay active_list ps [] (buf, offset, ids, exported_particles) =
     Inr (buf, offset, ids, exported_particles)"
| "export_cells lay active_list ps (c # celllist) (buf, offset, ids, exported_particles) =
     (case copy_cell_to lay buf offset c of
        Inl e \<Rightarrow> Inl e
      | Inr buf1 \<Rightarrow>
          (let activelist = active_list c ps;
               Nactive_cell = int (length activelist)
           in (case copy_cell_to lay buf1 offset
                      (c\<lparr>ifirst := exported_particles,
                         ilast := exported_particles + Nactive_cell - 1\<rparr>) of
                 Inl e \<Rightarrow> Inl e
               | Inr buf2 \<Rightarrow>
                   (case export_particles lay ps activelist
                           (buf2, offset + int (sizeof_cell lay), ids) of
                      Inl e \<Rightarrow> Inl e
                    | Inr (buf3, offset3, ids3) \<Rightarrow>
                        export_cells lay active_list ps celllist
                          (buf3, offset3, ids3, exported_particles + Nactive_cell)))))"

text \<open>
  The result is the value returned, the send buffer and the \<open>SphTree\<close> object, in
  which \<open>ids_sent_particles[Nproc]\<close> has changed. The arguments \<open>mpinode\<close>, \<open>rank\<close>
  and \<open>Nmpi\<close> and the locals \<open>first_proc\<close> and \<open>hydro_only\<close> are not used by the
  code.
\<close>

definition GetExportInfo ::
  "layout \<Rightarrow> (TreeCell \<Rightarrow> SphParticle list \<Rightarrow> int list) \<Rightarrow> int \<Rightarrow> Sph \<Rightarrow> mbyte list \<Rightarrow>
   SphTree \<Rightarrow> error + int \<times> mbyte list \<times> SphTree" where
  "GetExportInfo lay active_list Nproc sph send_buffer st =
     (if Nimportedcell (tree st) \<noteq> 0 then Inl (AssertionFailed ''tree->Nimportedcell==0'')
      else if Nproc < 0 \<or> int (length (cellexportlist st)) \<le> Nproc
            \<or> int (length (Ncellexport st)) \<le> Nproc \<or> int (length (Npartexport st)) \<le> Nproc
            \<or> int (length (ids_sent_particles st)) \<le> Nproc
      then Inl IndexOutOfRange
      else
        (let celllist = cellexportlist st ! nat Nproc;
             cactive = Ncellexport st ! nat Nproc;
             Nactive' = Npartexport st ! nat Nproc;
             size_header = 2 * int sizeof_int;
             size_particles = Nactive' * int (sizeof_part lay);
             size_cells = cactive * int (sizeof_cell lay);
             old_size = int (length send_buffer)
         in (case resize send_buffer (size_particles + size_cells + size_header + old_size) of
               Inl e \<Rightarrow> Inl e
             | Inr buf0 \<Rightarrow>
           (case copy_int_to buf0 old_size Nactive' of
               Inl e \<Rightarrow> Inl e
             | Inr buf1 \<Rightarrow>
           (case copy_int_to buf1 (old_size + int sizeof_int) cactive of
               Inl e \<Rightarrow> Inl e
             | Inr buf2 \<Rightarrow>
               if int (length celllist) < cactive then Inl IndexOutOfRange
               else
           (case export_cells lay active_list (sphdata sph) (take (nat cactive) celllist)
                   (buf2, size_header + old_size, [], 0) of
               Inl e \<Rightarrow> Inl e
             | Inr (buf3, offset, ids, exported_particles) \<Rightarrow>
                 if exported_particles \<noteq> Nactive'
                 then Inl (AssertionFailed ''exported_particles == Nactive'')
                 else if offset \<noteq> int (length buf3)
                 then Inl (AssertionFailed ''offset == send_buffer.size()'')
                 else Inr (size_particles + size_cells + size_header, buf3,
                           st\<lparr>ids_sent_particles :=
                                (ids_sent_particles st)[nat Nproc := ids]\<rparr>)))))))"

text \<open>
  The message as the code lays it out: after the two counts, each cell is followed
  by its own active particles. \<open>exported\<close> is the number of particles of the cells
  before.
\<close>

fun cells_with_particles ::
  "layout \<Rightarrow> (TreeCell \<Rightarrow> SphParticle list \<Rightarrow> int list) \<Rightarrow> SphParticle list \<Rightarrow> int \<Rightarrow>
   TreeCell list \<Rightarrow> mbyte list" where
  "cells_with_particles lay active_list ps exported [] = []"
| "cells_with_particles lay active_list ps exported (c # celllist) =
     cell_bytes lay (c\<lparr>ifirst := exported,
                       ilast := exported + int (length (active_list c ps)) - 1\<rparr>)
     @ concat (map (\<lambda>j. part_bytes lay (ps ! nat j)) (active_list c ps))
     @ cells_with_particles lay active_list ps (exported + int (length (active_list c ps)))
         celllist"

text \<open>
  The message as the spec words it: the two counts, then all cell records, then all
  particle records.
\<close>

fun exported_cell_records ::
  "layout \<Rightarrow> (TreeCell \<Rightarrow> SphParticle list \<Rightarrow> int list) \<Rightarrow> SphParticle list \<Rightarrow> int \<Rightarrow>
   TreeCell list \<Rightarrow> mbyte list" where
  "exported_cell_records lay active_list ps exported [] = []"
| "exported_cell_records lay active_list ps exported (c # celllist) =
     cell_bytes lay (c\<lparr>ifirst := exported,
                       ilast := exported + int (length (active_list c ps)) - 1\<rparr>)
     @ exported_cell_records lay active_list ps (exported + int (length (active_list c ps)))
         celllist"

definition exported_particle_records ::
  "layout \<Rightarrow> (TreeCell \<Rightarrow> SphParticle list \<Rightarrow> int list) \<Rightarrow> SphParticle list \<Rightarrow>
   TreeCell list \<Rightarrow> mbyte list" where
  "exported_particle_records lay active_list ps celllist =
     concat (map (\<lambda>c. concat (map (\<lambda>j. part_bytes lay (ps ! nat j)) (active_list c ps)))
                 celllist)"

definition spec_message ::
  "layout \<Rightarrow> (TreeCell \<Rightarrow> SphParticle list \<Rightarrow> int list) \<Rightarrow> SphParticle list \<Rightarrow> int \<Rightarrow> int \<Rightarrow>
   TreeCell list \<Rightarrow> mbyte list" where
  "spec_message lay active_list ps particleCount cellCount celllist =
     int_bytes particleCount @ int_bytes cellCount
     @ exported_cell_records lay active_list ps 0 celllist
     @ exported_particle_records lay active_list ps celllist"

section \<open>SphTree::UnpackExported\<close>

text \<open>
  The state the function works on: \<open>offset\<close>, the \<open>Sph\<close> object and the \<open>SphTree\<close>
  object.

  The loop over \<open>iparticle\<close>, with \<open>n\<close> rounds left: it writes \<open>sphdata\<close> and the
  tree's \<open>inext\<close> at \<open>particle_index\<close>.
\<close>

fun unpack_particles ::
  "layout \<Rightarrow> mbyte list \<Rightarrow> nat \<Rightarrow> int \<times> int \<times> SphParticle list \<times> int list \<Rightarrow>
   error + int \<times> int \<times> SphParticle list \<times> int list" where
  "unpack_particles lay received_array 0 (offset, particle_index, ps, inext') =
     Inr (offset, particle_index, ps, inext')"
| "unpack_particles lay received_array (Suc n) (offset, particle_index, ps, inext') =
     (case copy_part_from lay received_array offset of
        Inl e \<Rightarrow> Inl e
      | Inr p \<Rightarrow>
          if particle_index < 0 \<or> int (length ps) \<le> particle_index
           \<or> int (length inext') \<le> particle_index
          then Inl IndexOutOfRange
          else unpack_particles lay received_array n
                 (offset + int (sizeof_part lay), particle_index + 1,
                  ps[nat particle_index := p],
                  inext'[nat particle_index := particle_index + 1]))"

text \<open>
  The loop over \<open>icell\<close>, with \<open>n\<close> rounds left. \<open>Ntot'\<close> and \<open>Ncelltot'\<close> are
  \<open>sph->Ntot\<close> and \<open>tree->Ncelltot\<close>, which do not change inside the loop.
\<close>

fun unpack_cells ::
  "layout \<Rightarrow> mbyte list \<Rightarrow> int \<Rightarrow> int \<Rightarrow> nat \<Rightarrow> int \<Rightarrow>
   int \<times> int \<times> SphParticle list \<times> int list \<times> TreeCell list \<Rightarrow>
   error + int \<times> int \<times> SphParticle list \<times> int list \<times> TreeCell list" where
  "unpack_cells lay received_array Ntot' Ncelltot' 0 icell st = Inr st"
| "unpack_cells lay received_array Ntot' Ncelltot' (Suc n) icell
     (offset, particle_index, ps, inext', cells) =
     (if icell + Ncelltot' < 0 \<or> int (length cells) \<le> icell + Ncelltot'
      then Inl IndexOutOfRange
      else (case copy_cell_from lay received_array offset of
              Inl e \<Rightarrow> Inl e
            | Inr c \<Rightarrow>
                (let dest_cell = c\<lparr>ifirst := ifirst c + Ntot', ilast := ilast c + Ntot'\<rparr>
                 in (case unpack_particles lay received_array (nat (Nactive dest_cell))
                           (offset + int (sizeof_cell lay), particle_index, ps, inext') of
                       Inl e \<Rightarrow> Inl e
                     | Inr (offset1, particle_index1, ps1, inext1) \<Rightarrow>
                         unpack_cells lay received_array Ntot' Ncelltot' n (icell + 1)
                           (offset1, particle_index1, ps1, inext1,
                            cells[nat (icell + Ncelltot') := dest_cell])))))"

definition import_particles_message :: string where
  "import_particles_message = ''Error while receiving imported particles: not enough memory!''"

definition import_cells_message :: string where
  "import_cells_message = ''Error while receiving imported cells: not enough memory!''"

text \<open>
  The body of the loop over \<open>Nproc\<close>, for the entry \<open>N_received_bytes\<close> of
  \<open>Nbytes_exported_from_proc\<close>. \<open>N_imported_part_per_proc\<close> has been resized before
  the loop, so the index \<open>Nproc\<close> is inside it. The two capacity tests add a count
  that the peer has sent to a counter, as 32-bit \<open>int\<close>: \<open>particles_total\<close> is
  \<open>sph->Ntot + N_received_particles\<close> and \<open>cells_total\<close> is
  \<open>tree->Ncelltot + N_received_cells\<close>, and a sum that is not a value of the type is
  undefined (\<open>int_add\<close>).
\<close>

definition unpack_proc ::
  "layout \<Rightarrow> mbyte list \<Rightarrow> nat \<Rightarrow> int \<Rightarrow> int \<times> Sph \<times> SphTree \<Rightarrow>
   error + (int \<times> Sph \<times> SphTree) ending" where
  "unpack_proc lay received_array Nproc N_received_bytes s =
     (case s of (offset, sph, st) \<Rightarrow>
      if N_received_bytes = 0 then
        Inr (Returns (offset, sph,
               st\<lparr>N_imported_part_per_proc := (N_imported_part_per_proc st)[Nproc := 0]\<rparr>))
      else
        (case copy_int_from lay received_array offset of
           Inl e \<Rightarrow> Inl e
         | Inr N_received_particles \<Rightarrow>
        (case copy_int_from lay received_array (offset + int sizeof_int) of
           Inl e \<Rightarrow> Inl e
         | Inr N_received_cells \<Rightarrow>
          (let st1 = st\<lparr>N_imported_part_per_proc :=
                          (N_imported_part_per_proc st)[Nproc := N_received_particles]\<rparr>
           in (case int_add (Ntot sph) N_received_particles of
                 Inl e \<Rightarrow> Inl e
               | Inr particles_total \<Rightarrow>
              if Nsphmax sph < particles_total
              then Inr (Raises import_particles_message (offset, sph, st1))
              else
              (case int_add (Ncelltot (tree st1)) N_received_cells of
                 Inl e \<Rightarrow> Inl e
               | Inr cells_total \<Rightarrow>
              if Ncellmax (tree st1) < cells_total
              then Inr (Raises import_cells_message (offset, sph, st1))
              else
                (case unpack_cells lay received_array (Ntot sph) (Ncelltot (tree st1))
                        (nat N_received_cells) 0
                        (offset + 2 * int sizeof_int, Ntot sph, sphdata sph,
                         inext (tree st1), celldata (tree st1)) of
                   Inl e \<Rightarrow> Inl e
                 | Inr (offset1, particle_index, ps, inext1, cells) \<Rightarrow>
                     (let sph1 = sph\<lparr>sphdata := ps,
                                     Ntot := Ntot sph + N_received_particles,
                                     NImportedParticles :=
                                       NImportedParticles sph + N_received_particles\<rparr>;
                          t1 = (tree st1)\<lparr>celldata := cells, inext := inext1,
                                 Nimportedcell := Nimportedcell (tree st1) + N_received_cells,
                                 Ncelltot := Ncelltot (tree st1) + N_received_cells,
                                 tree_Ntot := Ntot sph1\<rparr>
                      in Inr (Returns (offset1, sph1, st1\<lparr>tree := t1\<rparr>))))))))))"

text \<open>The loop over \<open>Nproc\<close>; it ends at the first raise.\<close>

fun unpack_procs ::
  "layout \<Rightarrow> mbyte list \<Rightarrow> nat \<Rightarrow> int list \<Rightarrow> int \<times> Sph \<times> SphTree \<Rightarrow>
   error + (int \<times> Sph \<times> SphTree) ending" where
  "unpack_procs lay received_array Nproc [] s = Inr (Returns s)"
| "unpack_procs lay received_array Nproc (N_received_bytes # rest) s =
     (case unpack_proc lay received_array Nproc N_received_bytes s of
        Inl e \<Rightarrow> Inl e
      | Inr (Raises msg s1) \<Rightarrow> Inr (Raises msg s1)
      | Inr (Returns s1) \<Rightarrow> unpack_procs lay received_array (Suc Nproc) rest s1)"

text \<open>\<open>vector<int>::resize\<close>: new entries are zero.\<close>

definition resize_ints :: "int list \<Rightarrow> nat \<Rightarrow> int list" where
  "resize_ints xs n = take n xs @ replicate (n - length xs) 0"

text \<open>The state before the loop over \<open>Nproc\<close>.\<close>

definition unpack_start :: "int list \<Rightarrow> Sph \<Rightarrow> SphTree \<Rightarrow> int \<times> Sph \<times> SphTree" where
  "unpack_start Nbytes_exported_from_proc sph st =
     (0, sph,
      st\<lparr>tree := (tree st)\<lparr>Nimportedcell := 0, Ncelltot := Ncell (tree st)\<rparr>,
         N_imported_part_per_proc :=
           resize_ints (N_imported_part_per_proc st) (length Nbytes_exported_from_proc)\<rparr>)"

definition UnpackExported ::
  "layout \<Rightarrow> mbyte list \<Rightarrow> int list \<Rightarrow> Sph \<Rightarrow> SphTree \<Rightarrow> error + (Sph \<times> SphTree) ending" where
  "UnpackExported lay received_array Nbytes_exported_from_proc sph st =
     (if NImportedParticles sph \<noteq> 0
      then Inl (AssertionFailed ''sph->NImportedParticles==0'')
      else (case unpack_procs lay received_array 0 Nbytes_exported_from_proc
                   (unpack_start Nbytes_exported_from_proc sph st) of
              Inl e \<Rightarrow> Inl e
            | Inr (Raises msg (offset, sph1, st1)) \<Rightarrow> Inr (Raises msg (sph1, st1))
            | Inr (Returns (offset, sph1, st1)) \<Rightarrow>
                if offset \<noteq> sum_list Nbytes_exported_from_proc
                then Inl (AssertionFailed
                       ''offset == std::accumulate(Nbytes_exported_from_proc.begin(), Nbytes_exported_from_proc.end(),0)'')
                else Inr (Returns (sph1, st1))))"

section \<open>SphTree::GetBackExportInfo\<close>

text \<open>
  The loop over \<open>i\<close> that copies the particles of one peer into the send buffer,
  with \<open>n\<close> rounds left.
\<close>

fun pack_particles ::
  "layout \<Rightarrow> SphParticle list \<Rightarrow> int \<Rightarrow> nat \<Rightarrow> int \<Rightarrow> int \<Rightarrow> mbyte list \<Rightarrow>
   error + int \<times> mbyte list" where
  "pack_particles lay ps removed_particles 0 i j send_buffer = Inr (j, send_buffer)"
| "pack_particles lay ps removed_particles (Suc n) i j send_buffer =
     (if i < 0 \<or> int (length ps) \<le> i then Inl IndexOutOfRange
      else (case copy_part_to lay send_buffer
                   ((removed_particles + j) * int (sizeof_part lay)) (ps ! nat i) of
              Inl e \<Rightarrow> Inl e
            | Inr buf \<Rightarrow> pack_particles lay ps removed_particles n (i + 1) (j + 1) buf))"

text \<open>
  The state of the loop over \<open>Nproc\<close>: \<open>removed_particles\<close>, the send buffer, the
  two arrays of byte counts and the \<open>Sph\<close> object. \<open>counts\<close> is what is left of
  \<open>N_imported_part_per_proc\<close> from index \<open>Nproc\<close> on.
\<close>

fun pack_procs ::
  "layout \<Rightarrow> int list list \<Rightarrow> nat \<Rightarrow> int list \<Rightarrow>
   int \<times> mbyte list \<times> int list \<times> int list \<times> Sph \<Rightarrow>
   error + int \<times> mbyte list \<times> int list \<times> int list \<times> Sph" where
  "pack_procs lay ids_sent Nproc [] s = Inr s"
| "pack_procs lay ids_sent Nproc (N_received_particles # counts)
     (removed_particles, send_buffer, Nbytes_exported_from_proc, Nbytes_to_each_proc, sph) =
     (case pack_particles lay (sphdata sph) removed_particles (nat N_received_particles)
             (Nsph sph + Nghost sph + removed_particles) 0 send_buffer of
        Inl e \<Rightarrow> Inl e
      | Inr (j, buf) \<Rightarrow>
          if j \<noteq> N_received_particles then Inl (AssertionFailed ''j==N_received_particles'')
          else if length Nbytes_exported_from_proc \<le> Nproc \<or> length Nbytes_to_each_proc \<le> Nproc
                \<or> length ids_sent \<le> Nproc
          then Inl IndexOutOfRange
          else pack_procs lay ids_sent (Suc Nproc) counts
                 (removed_particles + j, buf,
                  Nbytes_exported_from_proc
                    [Nproc := N_received_particles * int (sizeof_part lay)],
                  Nbytes_to_each_proc
                    [Nproc := int (length (ids_sent ! Nproc)) * int (sizeof_part lay)],
                  sph\<lparr>Ntot := Ntot sph - N_received_particles,
                      NImportedParticles := NImportedParticles sph - N_received_particles\<rparr>))"

text \<open>
  The function up to its three closing assertions: the result is
  \<open>removed_particles\<close>, the send buffer, the two arrays of byte counts, the \<open>Sph\<close>
  object and the \<open>SphTree\<close> object. The argument \<open>rank\<close> is not used by the code.
\<close>

definition GetBackExportInfo_body ::
  "layout \<Rightarrow> mbyte list \<Rightarrow> int list \<Rightarrow> int list \<Rightarrow> Sph \<Rightarrow> SphTree \<Rightarrow>
   error + int \<times> mbyte list \<times> int list \<times> int list \<times> Sph \<times> SphTree" where
  "GetBackExportInfo_body lay send_buffer Nbytes_exported_from_proc Nbytes_to_each_proc sph st =
     (let InitialNImportedParticles = NImportedParticles sph
      in (case resize send_buffer (NImportedParticles sph * int (sizeof_part lay)) of
            Inl e \<Rightarrow> Inl e
          | Inr buf0 \<Rightarrow>
              (case pack_procs lay (ids_sent_particles st) 0 (N_imported_part_per_proc st)
                      (0, buf0, Nbytes_exported_from_proc, Nbytes_to_each_proc, sph) of
                 Inl e \<Rightarrow> Inl e
               | Inr (removed_particles, buf, nbe, nbt, sph1) \<Rightarrow>
                   Inr (removed_particles, buf, nbe, nbt, sph1,
                        st\<lparr>tree := (tree st)\<lparr>Ncelltot := Ncell (tree st), Nimportedcell := 0,
                              tree_Ntot := tree_Ntot (tree st) - InitialNImportedParticles\<rparr>\<rparr>))))"

definition GetBackExportInfo ::
  "layout \<Rightarrow> mbyte list \<Rightarrow> int list \<Rightarrow> int list \<Rightarrow> Sph \<Rightarrow> SphTree \<Rightarrow>
   error + mbyte list \<times> int list \<times> int list \<times> Sph \<times> SphTree" where
  "GetBackExportInfo lay send_buffer Nbytes_exported_from_proc Nbytes_to_each_proc sph st =
     (case GetBackExportInfo_body lay send_buffer Nbytes_exported_from_proc Nbytes_to_each_proc
             sph st of
        Inl e \<Rightarrow> Inl e
      | Inr (removed_particles, buf, nbe, nbt, sph1, st1) \<Rightarrow>
          if NImportedParticles sph1 \<noteq> 0
          then Inl (AssertionFailed ''sph->NImportedParticles == 0'')
          else if Ntot sph1 \<noteq> Nsph sph1 + Nghost sph1
          then Inl (AssertionFailed ''sph->Ntot == sph->Nsph + sph->Nghost'')
          else if int (length buf) \<noteq> removed_particles * int (sizeof_part lay)
          then Inl (AssertionFailed
                 ''send_buffer.size() == removed_particles*sizeof(ParticleType<ndim>)'')
          else Inr (buf, nbe, nbt, sph1, st1))"

section \<open>What a return message and an export message carry\<close>

text \<open>
  The fields of a particle that the reconciliation adds up: the "accumulation-relevant
  result fields" of the spec's section 4.6.
\<close>

definition result_fields ::
  "SphParticle \<Rightarrow> FLOAT list \<times> FLOAT list \<times> FLOAT \<times> FLOAT \<times> FLOAT \<times> FLOAT \<times> int" where
  "result_fields p = (part_a p, agrav p, gpot p, gpe p, dudt p, div_v p, levelneib p)"

text \<open>
  The particle records of a message, in the order of the message: \<open>n\<close> particle
  records from an offset on, and the particle records of \<open>n\<close> cells from an offset
  on, where each cell record is followed by as many particle records as its
  \<open>Nactive\<close> says. The lists end where a read leaves the buffer.
\<close>

fun particles_at :: "layout \<Rightarrow> mbyte list \<Rightarrow> nat \<Rightarrow> int \<Rightarrow> SphParticle list" where
  "particles_at lay buf 0 offset = []"
| "particles_at lay buf (Suc n) offset =
     (case copy_part_from lay buf offset of
        Inl e \<Rightarrow> []
      | Inr p \<Rightarrow> p # particles_at lay buf n (offset + int (sizeof_part lay)))"

fun cell_particles_at :: "layout \<Rightarrow> mbyte list \<Rightarrow> nat \<Rightarrow> int \<Rightarrow> SphParticle list" where
  "cell_particles_at lay buf 0 offset = []"
| "cell_particles_at lay buf (Suc n) offset =
     (case copy_cell_from lay buf offset of
        Inl e \<Rightarrow> []
      | Inr c \<Rightarrow>
          particles_at lay buf (nat (Nactive c)) (offset + int (sizeof_cell lay))
          @ cell_particles_at lay buf n
              (offset + int (sizeof_cell lay) + int (nat (Nactive c)) * int (sizeof_part lay)))"

text \<open>
  The offset behind \<open>n\<close> cells of a message, each cell record followed by its
  \<open>Nactive\<close> particle records.
\<close>

fun cells_end :: "layout \<Rightarrow> mbyte list \<Rightarrow> nat \<Rightarrow> int \<Rightarrow> int" where
  "cells_end lay buf 0 offset = offset"
| "cells_end lay buf (Suc n) offset =
     (case copy_cell_from lay buf offset of
        Inl e \<Rightarrow> offset
      | Inr c \<Rightarrow>
          cells_end lay buf n
            (offset + int (sizeof_cell lay) + int (nat (Nactive c)) * int (sizeof_part lay)))"

text \<open>
  The export messages that a buffer holds, one for every entry of the byte counts
  (none for a byte count of zero), from an offset on: for each message the number
  of particles that its header announces and the particle records that its cells
  bring, in the order of the message.
\<close>

fun import_messages ::
  "layout \<Rightarrow> mbyte list \<Rightarrow> int list \<Rightarrow> int \<Rightarrow> (int \<times> SphParticle list) list" where
  "import_messages lay buf [] offset = []"
| "import_messages lay buf (N_received_bytes # rest) offset =
     (if N_received_bytes = 0 then (0, []) # import_messages lay buf rest offset
      else (case copy_int_from lay buf offset of
              Inl e \<Rightarrow> []
            | Inr N_received_particles \<Rightarrow>
                (case copy_int_from lay buf (offset + int sizeof_int) of
                   Inl e \<Rightarrow> []
                 | Inr N_received_cells \<Rightarrow>
                     (N_received_particles,
                      cell_particles_at lay buf (nat N_received_cells)
                        (offset + 2 * int sizeof_int))
                     # import_messages lay buf rest
                         (cells_end lay buf (nat N_received_cells)
                            (offset + 2 * int sizeof_int)))))"

text \<open>
  The header of every message announces as many particles as its cells bring (as
  \<open>GetExportInfo\<close> writes a message when \<open>Nactive\<close> of a cell is the number of its
  active particles).
\<close>

definition headers_count_particles :: "(int \<times> SphParticle list) list \<Rightarrow> bool" where
  "headers_count_particles messages \<longleftrightarrow>
     list_all (\<lambda>message. fst message = int (length (snd message))) messages"

section \<open>Example inputs\<close>

text \<open>Concrete inputs, on which the theorems below are run.\<close>

definition example_params :: Parameters where
  "example_params =
     \<lparr>intparams = [''Npart'' \<mapsto> 100, ''ndim'' \<mapsto> 3],
      floatparams = [''tend'' \<mapsto> Finite 10],
      stringparams = [''ic'' \<mapsto> ''random_cube'']\<rparr>"

definition example_particle :: SphParticle where
  "example_particle =
     \<lparr>iorig = 0, levelneib = 0, active = True,
      part_r = [Finite 0, Finite 0, Finite 0], part_v = [Finite 0, Finite 0, Finite 0],
      part_a = [Finite 0, Finite 0, Finite 0], agrav = [Finite 0, Finite 0, Finite 0],
      part_m = Finite 1, part_h = Finite 1, part_u = Finite 0,
      gpot = Finite 0, gpe = Finite 0, dudt = Finite 0, div_v = Finite 0\<rparr>"

definition example_cell :: TreeCell where
  "example_cell =
     \<lparr>ifirst = 0, ilast = 0, cell_N = 1, Nactive = 1, level = 0, cnext = 1,
      bbmin = [Finite 0, Finite 0, Finite 0], bbmax = [Finite 1, Finite 1, Finite 1],
      cell_v = [Finite 0, Finite 0, Finite 0], hmax = Finite 1\<rparr>"

definition example_sph :: Sph where
  "example_sph =
     \<lparr>Nsph = 1, Ntot = 1, Nghost = 0, NPeriodicGhost = 0, Nmpighost = 0, Nghostmax = 3,
      Nsphmax = 4, NImportedParticles = 0,
      sphdata = [example_particle, example_particle, example_particle, example_particle]\<rparr>"

definition example_tree :: KDTree where
  "example_tree =
     \<lparr>Ncell = 1, Ncellmax = 3, Ncelltot = 1, Nimportedcell = 0, ltot = 0,
      tree_ifirst = 0, tree_ilast = 0, tree_Ntot = 1, tree_Ntotmax = 4, tree_Ntotmaxold = 4,
      gmax = 1, celldata = [example_cell, example_cell, example_cell], inext = [-1, -1, -1, -1]\<rparr>"

definition example_sphtree :: SphTree where
  "example_sphtree =
     \<lparr>tree = example_tree, allocated_buffer = False, st_Ntot = 1, st_Ntotold = 1, st_Ntotmax = 4, st_Ntotmaxold = 4,
      Ncellexport = [0, 0], Npartexport = [0, 0], cellexportlist = [[], []],
      ids_sent_particles = [[], []], N_imported_part_per_proc = []\<rparr>"

text \<open>
  Methods that leave a mark each: the deletion of the dead particles drops the
  ghosts, the tree build writes the number of particles it was given into \<open>Ncell\<close>,
  the stocking sets \<open>ltot\<close> to 7 and the extrapolation sets it to 9.
\<close>

definition example_methods :: tree_methods where
  "example_methods =
     \<lparr>DeleteDeadParticles = (\<lambda>s. s\<lparr>Ntot := Nsph s, Nghostmax := 0\<rparr>),
      tree_BuildTree = (\<lambda>Npart Npartmax ps dt t. t\<lparr>Ncell := Npart + int (length ps)\<rparr>),
      StockTree = (\<lambda>ps t. t\<lparr>ltot := 7\<rparr>),
      ExtrapolateCellProperties = (\<lambda>dt t. t\<lparr>ltot := 9\<rparr>),
      new_cell_pointers = (\<lambda>g. replicate (nat g) example_cell)\<rparr>"

text \<open>
  A run of the force update with one particle in one dimension: the hydro pass
  leaves the acceleration 1 in \<open>a\<close>, the gravity pass leaves 2 in \<open>agrav\<close>.
\<close>

definition forces_params :: Parameters where
  "forces_params =
     \<lparr>intparams = [''hydro_forces'' \<mapsto> 1, ''self_gravity'' \<mapsto> 1],
      floatparams = Map.empty, stringparams = Map.empty\<rparr>"

definition forces_particle :: SphParticle where
  "forces_particle =
     \<lparr>iorig = 0, levelneib = 0, active = True,
      part_r = [Finite 0], part_v = [Finite 0], part_a = [Finite 5], agrav = [Finite 7],
      part_m = Finite 1, part_h = Finite 1, part_u = Finite 0,
      gpot = Finite 0, gpe = Finite 0, dudt = Finite 0, div_v = Finite 0\<rparr>"

definition forces_sph :: Sph where
  "forces_sph =
     \<lparr>Nsph = 1, Ntot = 1, Nghost = 0, NPeriodicGhost = 0, Nmpighost = 0, Nghostmax = 0,
      Nsphmax = 1, NImportedParticles = 0, sphdata = [forces_particle]\<rparr>"

definition forces_methods :: force_methods where
  "forces_methods =
     \<lparr>UpdateAllSphForces =
        (\<lambda>params s. s\<lparr>sphdata := map (\<lambda>p. p\<lparr>part_a := map (\<lambda>x. fadd x (Finite 1)) (part_a p)\<rparr>)
                                     (sphdata s)\<rparr>),
      UpdateAllGravityForces =
        (\<lambda>params s. s\<lparr>sphdata := map (\<lambda>p. p\<lparr>agrav := map (\<lambda>x. fadd x (Finite 2)) (agrav p)\<rparr>)
                                     (sphdata s)\<rparr>)\<rparr>"

text \<open>
  A reconciliation on rank 0 with one peer, rank 1, to which the particle at index 0
  was sent; the peer returns one record.
\<close>

definition example_layout :: layout where
  "example_layout =
     \<lparr>sizeof_cell = 2, sizeof_part = 3, raw_int = (\<lambda>bs. 0),
      raw_cell = (\<lambda>bs. example_cell), raw_part = (\<lambda>bs. example_particle)\<rparr>"

definition returned_particle :: SphParticle where
  "returned_particle =
     example_particle\<lparr>part_a := [Finite 1, Finite 2, Finite 3],
                       agrav := [Finite 1, Finite 1, Finite 1],
                       gpot := Finite 2, gpe := Finite 4, dudt := Finite 5,
                       div_v := Finite 6, levelneib := 4, part_m := Finite 9\<rparr>"


text \<open>
  A ghost search in three dimensions, periodic in x, y and z: two particles in the
  first of two leaf cells, the second leaf empty. Each check creates one ghost and
  appends two digits to \<open>Nmpighost\<close>: 1, 2 or 3 for the axis of the check, then
  the index of the particle it was called with.
\<close>

definition ghost_box :: DomainBox where
  "ghost_box =
     \<lparr>x_boundary_lhs = ''periodic'', x_boundary_rhs = ''periodic'',
      y_boundary_lhs = ''periodic'', y_boundary_rhs = ''periodic'',
      z_boundary_lhs = ''periodic'', z_boundary_rhs = ''periodic'',
      boxmin = [Finite 0, Finite 0, Finite 0], boxmax = [Finite 1, Finite 1, Finite 1]\<rparr>"

definition ghost_cell :: TreeCell where
  "ghost_cell =
     \<lparr>ifirst = 0, ilast = 1, cell_N = 2, Nactive = 2, level = 0, cnext = 3,
      bbmin = [Finite 0, Finite 0, Finite 0], bbmax = [Finite 1, Finite 1, Finite 1],
      cell_v = [Finite 0, Finite 0, Finite 0], hmax = Finite (1 / 10)\<rparr>"

definition ghost_tree :: KDTree where
  "ghost_tree =
     \<lparr>Ncell = 3, Ncellmax = 3, Ncelltot = 3, Nimportedcell = 0, ltot = 1,
      tree_ifirst = 0, tree_ilast = 1, tree_Ntot = 2, tree_Ntotmax = 8, tree_Ntotmaxold = 8,
      gmax = 2,
      celldata = [ghost_cell,
                  ghost_cell\<lparr>level := 1, cnext := 2\<rparr>,
                  ghost_cell\<lparr>level := 1, ifirst := - 1, ilast := - 1, cell_N := 0,
                             Nactive := 0\<rparr>],
      inext = [1, - 1]\<rparr>"

definition ghost_sph :: Sph where
  "ghost_sph = example_sph\<lparr>Nsph := 2, Ntot := 2, Nsphmax := 16\<rparr>"

definition ghost_example_checks :: ghost_checks where
  "ghost_example_checks =
     \<lparr>CheckXBoundaryGhostParticle =
        (\<lambda>i t b s. s\<lparr>Nghost := Nghost s + 1, Nmpighost := 100 * Nmpighost s + 10 + i\<rparr>),
      CheckYBoundaryGhostParticle =
        (\<lambda>i t b s. s\<lparr>Nghost := Nghost s + 1, Nmpighost := 100 * Nmpighost s + 20 + i\<rparr>),
      CheckZBoundaryGhostParticle =
        (\<lambda>i t b s. s\<lparr>Nghost := Nghost s + 1, Nmpighost := 100 * Nmpighost s + 30 + i\<rparr>)\<rparr>"

text \<open>
  An export to rank 1 of two cells with one active particle each.
\<close>

definition first_particle_active :: "TreeCell \<Rightarrow> SphParticle list \<Rightarrow> int list" where
  "first_particle_active c ps = [ifirst c]"

definition export_sph :: Sph where
  "export_sph =
     example_sph\<lparr>Nsph := 2, Ntot := 2,
                  sphdata := [example_particle, example_particle\<lparr>iorig := 1\<rparr>,
                              example_particle, example_particle]\<rparr>"

definition export_sphtree :: SphTree where
  "export_sphtree =
     example_sphtree\<lparr>Ncellexport := [0, 2], Npartexport := [0, 2],
                      cellexportlist := [[], [example_cell, example_cell\<lparr>ifirst := 1, ilast := 1\<rparr>]]\<rparr>"

text \<open>
  The message of the export above as it arrives, and a message that announces more
  particles than the receiver has room for.
\<close>

definition import_message :: "mbyte list" where
  "import_message =
     int_bytes 2 @ int_bytes 2
     @ cell_bytes example_layout example_cell
     @ part_bytes example_layout example_particle
     @ cell_bytes example_layout (example_cell\<lparr>ifirst := 1, ilast := 1\<rparr>)
     @ part_bytes example_layout (example_particle\<lparr>iorig := 1\<rparr>)"

definition oversized_message :: "mbyte list" where
  "oversized_message = int_bytes 5 @ int_bytes 1"

text \<open>
  A receiver that holds one imported particle, from rank 1, behind its one local
  particle; and the same receiver with another mass in the imported particle.
\<close>

definition holding_sph :: Sph where
  "holding_sph =
     example_sph\<lparr>Ntot := 2, NImportedParticles := 1,
                  sphdata := [example_particle, returned_particle,
                              example_particle, example_particle]\<rparr>"

definition holding_sph_other_mass :: Sph where
  "holding_sph_other_mass =
     example_sph\<lparr>Ntot := 2, NImportedParticles := 1,
                  sphdata := [example_particle, returned_particle\<lparr>part_m := Finite 1\<rparr>,
                              example_particle, example_particle]\<rparr>"

definition holding_sphtree :: SphTree where
  "holding_sphtree = example_sphtree\<lparr>N_imported_part_per_proc := [0, 1]\<rparr>"

section \<open>Facts about FLOAT\<close>

lemma flt_NaN_right: "flt x NaN = False"
  by (cases x) simp_all

lemma flt_NaN_left: "flt NaN y = False"
  by simp

lemma fadd_NaN_right: "fadd x NaN = NaN"
  by (cases x) simp_all

section \<open>Unfolding the import on the example inputs\<close>

lemmas import_defs =
  UnpackExported_def unpack_start_def unpack_proc_def resize_ints_def int_add_def int32_def
  GetBackExportInfo_body_def GetBackExportInfo_def resize_def
  copy_int_from_def copy_cell_from_def copy_part_from_def copy_part_to_def load_def store_def
  bytes_int_def bytes_cell_def bytes_part_def int_bytes_def cell_bytes_def part_bytes_def
  sizeof_int_def example_layout_def example_sph_def example_sphtree_def
  example_tree_def example_cell_def example_particle_def

section \<open>Facts about buffers and the packing loops\<close>

lemma store_at_end:
  "store (pre @ rest) (int (length pre)) bs =
     (if length bs \<le> length rest then Inr (pre @ bs @ drop (length bs) rest)
      else Inl IndexOutOfRange)"
  by (auto simp: store_def)

lemma length_int_bytes: "length (int_bytes n) = sizeof_int"
  by (simp add: int_bytes_def)

lemma length_cell_bytes: "length (cell_bytes lay c) = sizeof_cell lay"
  by (simp add: cell_bytes_def)

lemma length_part_bytes: "length (part_bytes lay p) = sizeof_part lay"
  by (simp add: part_bytes_def)

lemma store_length:
  assumes "store buf off bs = Inr buf'"
  shows "length buf' = length buf"
  using assms by (auto simp: store_def split: if_splits)

lemma pack_particles_Inr:
  assumes "pack_particles lay ps removed n i j buf = Inr (j', buf')"
  shows "j' = j + int n \<and> length buf' = length buf"
  using assms
proof (induction n arbitrary: i j buf)
  case 0
  then show ?case by simp
next
  case (Suc n)
  from Suc.prems obtain buf1 where
    s: "copy_part_to lay buf ((removed + j) * int (sizeof_part lay)) (ps ! nat i) = Inr buf1"
    and r: "pack_particles lay ps removed n (i + 1) (j + 1) buf1 = Inr (j', buf')"
    by (auto split: sum.splits if_splits)
  from s have "length buf1 = length buf"
    unfolding copy_part_to_def by (rule store_length)
  with Suc.IH [OF r] show ?case by simp
qed

lemma pack_procs_Inr:
  assumes "pack_procs lay ids_sent Nproc counts (removed, buf, nbe, nbt, sph)
           = Inr (removed', buf', nbe', nbt', sph')"
  shows "removed' = removed + sum_list counts \<and> length buf' = length buf
       \<and> Nsph sph' = Nsph sph \<and> Nghost sph' = Nghost sph
       \<and> Ntot sph' = Ntot sph - sum_list counts
       \<and> NImportedParticles sph' = NImportedParticles sph - sum_list counts
       \<and> (\<forall>c \<in> set counts. 0 \<le> c)"
  using assms
proof (induction counts arbitrary: Nproc removed buf nbe nbt sph)
  case Nil
  then show ?case by simp
next
  case (Cons c counts)
  from Cons.prems obtain j buf1 where
    p: "pack_particles lay (sphdata sph) removed (nat c) (Nsph sph + Nghost sph + removed) 0 buf
        = Inr (j, buf1)"
    by (auto split: sum.splits)
  from pack_particles_Inr [OF p] have j: "j = int (nat c)" and l1: "length buf1 = length buf"
    by simp_all
  from Cons.prems p have jc: "j = c"
    by (auto split: if_splits)
  with j have c0: "0 \<le> c" by linarith
  from Cons.prems p jc obtain nbe1 nbt1 where
    r: "pack_procs lay ids_sent (Suc Nproc) counts
          (removed + c, buf1, nbe1, nbt1,
           sph\<lparr>Ntot := Ntot sph - c, NImportedParticles := NImportedParticles sph - c\<rparr>)
        = Inr (removed', buf', nbe', nbt', sph')"
    by (auto split: if_splits)
  from Cons.IH [OF r] l1 c0 show ?case by simp
qed

section \<open>One round of the import\<close>

lemma int_add_Inr: "int_add a b = Inr c \<longleftrightarrow> int32 (a + b) \<and> c = a + b"
  by (auto simp: int_add_def)

lemma unpack_proc_zero:
  "unpack_proc lay buf Nproc 0 (off, sph, st) =
     Inr (Returns (off, sph,
            st\<lparr>N_imported_part_per_proc := (N_imported_part_per_proc st)[Nproc := 0]\<rparr>))"
  by (simp add: unpack_proc_def)

lemma unpack_proc_ReturnsE:
  assumes "unpack_proc lay buf Nproc nb (off, sph, st) = Inr (Returns (off', sph', st'))"
    and "nb \<noteq> 0"
  obtains np ncl pidx ps nx cells where
    "copy_int_from lay buf off = Inr np"
    "copy_int_from lay buf (off + int sizeof_int) = Inr ncl"
    "int32 (Ntot sph + np)" "\<not> Nsphmax sph < Ntot sph + np"
    "int32 (Ncelltot (tree st) + ncl)" "\<not> Ncellmax (tree st) < Ncelltot (tree st) + ncl"
    "unpack_cells lay buf (Ntot sph) (Ncelltot (tree st)) (nat ncl) 0
       (off + 2 * int sizeof_int, Ntot sph, sphdata sph, inext (tree st), celldata (tree st))
     = Inr (off', pidx, ps, nx, cells)"
    "sph' = sph\<lparr>sphdata := ps, Ntot := Ntot sph + np,
                  NImportedParticles := NImportedParticles sph + np\<rparr>"
    "st' = st\<lparr>N_imported_part_per_proc := (N_imported_part_per_proc st)[Nproc := np],
               tree := (tree st)\<lparr>celldata := cells, inext := nx,
                         Nimportedcell := Nimportedcell (tree st) + ncl,
                         Ncelltot := Ncelltot (tree st) + ncl,
                         tree_Ntot := Ntot sph + np\<rparr>\<rparr>"
proof -
  from assms obtain np ncl where
    np: "copy_int_from lay buf off = Inr np"
    and ncl: "copy_int_from lay buf (off + int sizeof_int) = Inr ncl"
    by (auto simp: unpack_proc_def split: sum.splits)
  from assms np ncl have a: "int32 (Ntot sph + np)"
    by (auto simp: unpack_proc_def Let_def int_add_def split: if_splits)
  with assms np ncl have b: "\<not> Nsphmax sph < Ntot sph + np"
    by (auto simp: unpack_proc_def Let_def int_add_def split: if_splits)
  from assms np ncl a b have c: "int32 (Ncelltot (tree st) + ncl)"
    by (auto simp: unpack_proc_def Let_def int_add_def split: if_splits)
  with assms np ncl a b have d: "\<not> Ncellmax (tree st) < Ncelltot (tree st) + ncl"
    by (auto simp: unpack_proc_def Let_def int_add_def split: if_splits)
  from assms np ncl a b c d obtain pidx ps nx cells where
    "unpack_cells lay buf (Ntot sph) (Ncelltot (tree st)) (nat ncl) 0
       (off + 2 * int sizeof_int, Ntot sph, sphdata sph, inext (tree st), celldata (tree st))
     = Inr (off', pidx, ps, nx, cells)"
    "sph' = sph\<lparr>sphdata := ps, Ntot := Ntot sph + np,
                  NImportedParticles := NImportedParticles sph + np\<rparr>"
    "st' = st\<lparr>N_imported_part_per_proc := (N_imported_part_per_proc st)[Nproc := np],
               tree := (tree st)\<lparr>celldata := cells, inext := nx,
                         Nimportedcell := Nimportedcell (tree st) + ncl,
                         Ncelltot := Ncelltot (tree st) + ncl,
                         tree_Ntot := Ntot sph + np\<rparr>\<rparr>"
    by (auto simp: unpack_proc_def Let_def int_add_def split: if_splits sum.splits prod.splits)
  with np ncl a b c d show thesis by (rule that)
qed

lemma unpack_particles_length:
  assumes "unpack_particles lay buf n (off, pidx, ps, nx) = Inr (off', pidx', ps', nx')"
  shows "length ps' = length ps \<and> length nx' = length nx"
  using assms
proof (induction n arbitrary: off pidx ps nx)
  case 0
  then show ?case by simp
next
  case (Suc n)
  from Suc.prems obtain p where
    r: "unpack_particles lay buf n
          (off + int (sizeof_part lay), pidx + 1, ps[nat pidx := p], nx[nat pidx := pidx + 1])
        = Inr (off', pidx', ps', nx')"
    by (auto split: sum.splits if_splits)
  from Suc.IH [OF r] show ?case by simp
qed

lemma unpack_cells_length:
  assumes "unpack_cells lay buf nt nc n icell (off, pidx, ps, nx, cells)
           = Inr (off', pidx', ps', nx', cells')"
  shows "length ps' = length ps \<and> length nx' = length nx \<and> length cells' = length cells"
  using assms
proof (induction n arbitrary: icell off pidx ps nx cells)
  case 0
  then show ?case by simp
next
  case (Suc n)
  from Suc.prems obtain c off1 pidx1 ps1 nx1 where
    p: "unpack_particles lay buf
          (nat (Nactive (c\<lparr>ifirst := ifirst c + nt, ilast := ilast c + nt\<rparr>)))
          (off + int (sizeof_cell lay), pidx, ps, nx) = Inr (off1, pidx1, ps1, nx1)"
    and r: "unpack_cells lay buf nt nc n (icell + 1)
          (off1, pidx1, ps1, nx1,
           cells[nat (icell + nc) := c\<lparr>ifirst := ifirst c + nt, ilast := ilast c + nt\<rparr>])
        = Inr (off', pidx', ps', nx', cells')"
    by (auto simp: Let_def split: sum.splits if_splits prod.splits)
  from unpack_particles_length [OF p] Suc.IH [OF r] show ?case by simp
qed

text \<open>What one round of the loop over the peers does to the counters.\<close>

lemma unpack_proc_Returns:
  assumes "unpack_proc lay buf Nproc nb (off, sph, st) = Inr (Returns (off', sph', st'))"
  shows "Nsph sph' = Nsph sph \<and> Nghost sph' = Nghost sph \<and> Nsphmax sph' = Nsphmax sph
       \<and> length (sphdata sph') = length (sphdata sph)
       \<and> (\<exists>v. N_imported_part_per_proc st' = (N_imported_part_per_proc st)[Nproc := v]
              \<and> Ntot sph' = Ntot sph + v
              \<and> NImportedParticles sph' = NImportedParticles sph + v
              \<and> (v \<noteq> 0 \<longrightarrow> Ntot sph' \<le> Nsphmax sph))
       \<and> Ncell (tree st') = Ncell (tree st) \<and> Ncellmax (tree st') = Ncellmax (tree st)
       \<and> ids_sent_particles st' = ids_sent_particles st"
proof (cases "nb = 0")
  case True
  with assms have "off' = off" "sph' = sph"
    "st' = st\<lparr>N_imported_part_per_proc := (N_imported_part_per_proc st)[Nproc := 0]\<rparr>"
    by (simp_all add: unpack_proc_def)
  then show ?thesis by auto
next
  case False
  from assms False show ?thesis
  proof (rule unpack_proc_ReturnsE)
    fix np ncl pidx ps nx cells
    assume cap: "\<not> Nsphmax sph < Ntot sph + np"
      and u: "unpack_cells lay buf (Ntot sph) (Ncelltot (tree st)) (nat ncl) 0
          (off + 2 * int sizeof_int, Ntot sph, sphdata sph, inext (tree st), celldata (tree st))
        = Inr (off', pidx, ps, nx, cells)"
      and res: "sph' = sph\<lparr>sphdata := ps, Ntot := Ntot sph + np,
                          NImportedParticles := NImportedParticles sph + np\<rparr>"
        "st' = st\<lparr>N_imported_part_per_proc := (N_imported_part_per_proc st)[Nproc := np],
               tree := (tree st)\<lparr>celldata := cells, inext := nx,
                         Nimportedcell := Nimportedcell (tree st) + ncl,
                         Ncelltot := Ncelltot (tree st) + ncl,
                         tree_Ntot := Ntot sph + np\<rparr>\<rparr>"
    from unpack_cells_length [OF u] have "length ps = length (sphdata sph)" by simp
    with res cap show ?thesis by auto
  qed
qed

lemma unpack_procs_Returns:
  assumes "unpack_procs lay buf Nproc nbytes (off, sph, st) = Inr (Returns (off', sph', st'))"
    and "length (N_imported_part_per_proc st) = Nproc + length nbytes"
  shows "Nsph sph' = Nsph sph \<and> Nghost sph' = Nghost sph \<and> Nsphmax sph' = Nsphmax sph
       \<and> length (sphdata sph') = length (sphdata sph)
       \<and> length (N_imported_part_per_proc st') = length (N_imported_part_per_proc st)
       \<and> take Nproc (N_imported_part_per_proc st') = take Nproc (N_imported_part_per_proc st)
       \<and> Ntot sph' = Ntot sph + sum_list (drop Nproc (N_imported_part_per_proc st'))
       \<and> NImportedParticles sph'
           = NImportedParticles sph + sum_list (drop Nproc (N_imported_part_per_proc st'))
       \<and> Ncell (tree st') = Ncell (tree st)
       \<and> ids_sent_particles st' = ids_sent_particles st"
  using assms
proof (induction nbytes arbitrary: Nproc off sph st)
  case Nil
  then show ?case by simp
next
  case (Cons nb nbytes)
  from Cons.prems(1) obtain off1 sph1 st1 where
    p: "unpack_proc lay buf Nproc nb (off, sph, st) = Inr (Returns (off1, sph1, st1))"
    and r: "unpack_procs lay buf (Suc Nproc) nbytes (off1, sph1, st1) = Inr (Returns (off', sph', st'))"
    by (auto split: sum.splits ending.splits)
  from unpack_proc_Returns [OF p] obtain v where
    a: "Nsph sph1 = Nsph sph" "Nghost sph1 = Nghost sph" "Nsphmax sph1 = Nsphmax sph"
       "length (sphdata sph1) = length (sphdata sph)"
       "N_imported_part_per_proc st1 = (N_imported_part_per_proc st)[Nproc := v]"
       "Ntot sph1 = Ntot sph + v" "NImportedParticles sph1 = NImportedParticles sph + v"
       "Ncell (tree st1) = Ncell (tree st)" "ids_sent_particles st1 = ids_sent_particles st"
    by blast
  have len1: "length (N_imported_part_per_proc st1) = Suc Nproc + length nbytes"
    using a(5) Cons.prems(2) by simp
  note IH = Cons.IH [OF r len1]
  let ?xs = "N_imported_part_per_proc st'"
  have lx: "length ?xs = length (N_imported_part_per_proc st)" using IH a(5) by simp
  have N: "Nproc < length ?xs" using lx Cons.prems(2) by simp
  have tk: "take (Suc Nproc) ?xs = take (Suc Nproc) ((N_imported_part_per_proc st)[Nproc := v])"
    using IH a(5) by simp
  have xv: "?xs ! Nproc = v"
  proof -
    have "?xs ! Nproc = take (Suc Nproc) ?xs ! Nproc" by simp
    also have "\<dots> = take (Suc Nproc) ((N_imported_part_per_proc st)[Nproc := v]) ! Nproc"
      using tk by simp
    also have "\<dots> = v" using N lx by simp
    finally show ?thesis .
  qed
  have tk0: "take Nproc ?xs = take Nproc (N_imported_part_per_proc st)"
  proof -
    have "take Nproc ?xs = take Nproc (take (Suc Nproc) ?xs)" by (simp add: min_def)
    also have "\<dots> = take Nproc (take (Suc Nproc) ((N_imported_part_per_proc st)[Nproc := v]))"
      using tk by simp
    also have "\<dots> = take Nproc (N_imported_part_per_proc st)" by (simp add: min_def)
    finally show ?thesis .
  qed
  have dr: "drop Nproc ?xs = v # drop (Suc Nproc) ?xs"
    using Cons_nth_drop_Suc [OF N] xv by simp
  show ?case
    using IH a lx tk0 unfolding dr by simp
qed

section \<open>Claim C1\<close>

text \<open>A check that leaves \<open>Nsph\<close> and \<open>Ntot\<close> as they are, called on a list of indices.\<close>

lemma fold_frame:
  assumes "\<And>i s. Nsph (chk i s) = Nsph s \<and> Ntot (chk i s) = Ntot s"
  shows "Nsph (fold chk w s) = Nsph s \<and> Ntot (fold chk w s) = Ntot s"
  using assms by (induction w arbitrary: s) simp_all

lemmas leaf_loop_induct = leaf_loop.raw_induct [rotated, consumes 1, case_names step]
lemmas cell_loop_induct = cell_loop.raw_induct [rotated, consumes 1, case_names step]
lemmas direct_loop_induct = direct_loop.raw_induct [rotated, consumes 1, case_names step]

text \<open>A walk calls the check on a list of particles, one after the other.\<close>

lemma leaf_loop_calls_aux:
  "leaf_loop chk inext' ilast' i sph = Some y \<Longrightarrow>
     (\<forall>sph'. y = Inr sph' \<longrightarrow> (\<exists>w. sph' = fold chk w sph))"
proof (induction rule: leaf_loop_induct)
  case (step leaf_loop chk inext' ilast' i sph y)
  note 1 = step
  show ?case
  proof (intro impI allI)
    fix sph'
    assume y: "y = Inr sph'"
    consider (a) "i = - 1" | (b) "i \<noteq> - 1" "i = ilast'"
      | (c) "i \<noteq> - 1" "i \<noteq> ilast'" "i < 0 \<or> int (length inext') \<le> i"
      | (d) "i \<noteq> - 1" "i \<noteq> ilast'" "\<not> (i < 0 \<or> int (length inext') \<le> i)"
      by blast
    then show "\<exists>w. sph' = fold chk w sph"
    proof cases
      case a
      with 1(2) y have "sph' = fold chk [] sph" by simp
      then show ?thesis by blast
    next
      case b
      with 1(2) y have "sph' = fold chk [i] sph" by auto
      then show ?thesis by blast
    next
      case c
      with 1(2) y show ?thesis by auto
    next
      case d
      with 1(2) have "leaf_loop chk inext' ilast' (inext' ! nat i) (chk i sph) = Some y"
        by auto
      from 1(1) [OF this] y obtain w where "sph' = fold chk w (chk i sph)" by blast
      then have "sph' = fold chk (i # w) sph" by simp
      then show ?thesis by blast
    qed
  qed
qed

lemma leaf_loop_calls:
  assumes "leaf_loop chk inext' ilast' i sph = Some (Inr sph')"
  shows "\<exists>w. sph' = fold chk w sph"
  using leaf_loop_calls_aux [OF assms] by blast

lemma cell_loop_calls_aux:
  "cell_loop near chk tree' c sph = Some y \<Longrightarrow>
     (\<forall>sph'. y = Inr sph' \<longrightarrow> (\<exists>w. sph' = fold chk w sph))"
proof (induction rule: cell_loop_induct)
  case (step cell_loop near chk tree' c sph y)
  note 1 = step
  show ?case
  proof (intro impI allI)
    fix sph'
    assume y: "y = Inr sph'"
    let ?cell = "celldata tree' ! nat c"
    note IH = 1(1)
    note eq = 1(2)
    show "\<exists>w. sph' = fold chk w sph"
    proof (cases "c < Ncell tree'")
      case False
      with eq y have "sph' = fold chk [] sph" by simp
      then show ?thesis by blast
    next
      case inside: True
      show ?thesis
      proof (cases "c < 0 \<or> int (length (celldata tree')) \<le> c")
        case True
        with eq inside y show ?thesis by auto
      next
        case inrange: False
        show ?thesis
        proof (cases "near ?cell")
          case (Inl e)
          with eq inside inrange y show ?thesis by auto
        next
          case (Inr opened)
          show ?thesis
          proof (cases opened)
            case False
            with eq inside inrange Inr
            have "cell_loop near chk tree' (cnext ?cell) sph = Some y" by auto
            from IH [OF this] y show ?thesis by blast
          next
            case opened: True
            show ?thesis
            proof (cases "level ?cell \<noteq> ltot tree'")
              case True
              with eq inside inrange Inr opened
              have "cell_loop near chk tree' (c + 1) sph = Some y" by auto
              from IH [OF this] y show ?thesis by blast
            next
              case leaf: False
              show ?thesis
              proof (cases "cell_N ?cell = 0")
                case True
                with eq inside inrange Inr opened leaf
                have "cell_loop near chk tree' (cnext ?cell) sph = Some y" by auto
                from IH [OF this] y show ?thesis by blast
              next
                case nonempty: False
                from eq inside inrange Inr opened leaf nonempty
                have eq': "(case leaf_loop chk (inext tree') (ilast ?cell) (ifirst ?cell) sph of
                           None \<Rightarrow> None
                         | Some r \<Rightarrow>
                             (case r of
                                Inl e \<Rightarrow> Some (Inl e)
                              | Inr sph1 \<Rightarrow> cell_loop near chk tree' (cnext ?cell) sph1)) = Some y"
                  by auto
                then obtain sph1 where
                  l: "leaf_loop chk (inext tree') (ilast ?cell) (ifirst ?cell) sph = Some (Inr sph1)"
                  and r: "cell_loop near chk tree' (cnext ?cell) sph1 = Some y"
                  using y by (auto split: option.splits sum.splits)
                from leaf_loop_calls [OF l] obtain w1 where w1: "sph1 = fold chk w1 sph" by blast
                from IH [OF r] y obtain w2 where w2: "sph' = fold chk w2 sph1" by blast
                from w1 w2 have "sph' = fold chk (w1 @ w2) sph" by simp
                then show ?thesis by blast
              qed
            qed
          qed
        qed
      qed
    qed
  qed
qed

lemma cell_loop_calls:
  assumes "cell_loop near chk tree' c sph = Some (Inr sph')"
  shows "\<exists>w. sph' = fold chk w sph"
  using cell_loop_calls_aux [OF assms] by blast

text \<open>The direct scan calls the check on every index from \<open>i\<close> to \<open>Ntot - 1\<close>.\<close>

lemma direct_loop_calls_aux:
  "direct_loop chk i sph = Some sph' \<Longrightarrow>
     (\<forall>j s. Nsph (chk j s) = Nsph s \<and> Ntot (chk j s) = Ntot s) \<longrightarrow>
       sph' = fold chk [i..Ntot sph - 1] sph"
proof (induction rule: direct_loop_induct)
  case (step direct_loop chk i sph sph')
  show ?case
  proof (intro impI)
    assume fr: "\<forall>j s. Nsph (chk j s) = Nsph s \<and> Ntot (chk j s) = Ntot s"
    show "sph' = fold chk [i..Ntot sph - 1] sph"
    proof (cases "i < Ntot sph")
      case False
      with step(2) show ?thesis by simp
    next
      case True
      with step(2) have "direct_loop chk (i + 1) (chk i sph) = Some sph'" by simp
      from step(1) [OF this] fr
      have IH: "sph' = fold chk [i + 1..Ntot (chk i sph) - 1] (chk i sph)" by blast
      have nt: "Ntot (chk i sph) = Ntot sph" using fr by blast
      have up: "[i..Ntot sph - 1] = i # [i + 1..Ntot sph - 1]"
        using True by (simp add: upto_rec1)
      show ?thesis unfolding up using IH nt by simp
    qed
  qed
qed

lemma direct_loop_calls:
  assumes "direct_loop chk i sph = Some sph'"
    and "\<And>j s. Nsph (chk j s) = Nsph s \<and> Ntot (chk j s) = Ntot s"
  shows "sph' = fold chk [i..Ntot sph - 1] sph"
  using direct_loop_calls_aux [OF assms(1)] assms(2) by blast

text \<open>The state after each of the three passes.\<close>

lemma x_pass_result:
  assumes "x_pass G grange t b tree' sph = Some (Inr sph')"
  shows "\<exists>w. sph' = (let s = fold (\<lambda>i. CheckXBoundaryGhostParticle G i t b) w sph
                     in s\<lparr>Ntot := Nsph s + Nghost s\<rparr>)"
proof -
  from assms obtain sph1 where
    c: "cell_loop (cell_near_boundary grange t b 0) (\<lambda>i. CheckXBoundaryGhostParticle G i t b)
          tree' 0 sph = Some (Inr sph1)"
    and r: "sph' = sph1\<lparr>Ntot := Nsph sph1 + Nghost sph1\<rparr>"
    by (auto simp: x_pass_def split: option.splits sum.splits)
  from cell_loop_calls [OF c] obtain w where
    "sph1 = fold (\<lambda>i. CheckXBoundaryGhostParticle G i t b) w sph" by blast
  with r have "sph' = (let s = fold (\<lambda>i. CheckXBoundaryGhostParticle G i t b) w sph
                     in s\<lparr>Ntot := Nsph s + Nghost s\<rparr>)"
    by (simp add: Let_def)
  then show ?thesis by blast
qed

lemma scan_pass_result:
  assumes c: "cell_loop near chk tree' 0 sph = Some (Inr sph1)"
    and d: "direct_loop chk (Nsph sph1) sph1 = Some sph2"
    and fr: "\<And>j s. Nsph (chk j s) = Nsph s \<and> Ntot (chk j s) = Ntot s"
  shows "\<exists>w. sph2 = fold chk (w @ [Nsph sph..Ntot sph - 1]) sph"
proof -
  from cell_loop_calls [OF c] obtain w where w: "sph1 = fold chk w sph" by blast
  have f1: "Nsph sph1 = Nsph sph" "Ntot sph1 = Ntot sph"
    using fold_frame [of chk w sph, OF fr] w by simp_all
  from direct_loop_calls [OF d fr] have "sph2 = fold chk [Nsph sph1..Ntot sph1 - 1] sph1" .
  then have "sph2 = fold chk [Nsph sph..Ntot sph - 1] sph1"
    unfolding f1 .
  then have "sph2 = fold chk (w @ [Nsph sph..Ntot sph - 1]) sph"
    unfolding w by simp
  then show ?thesis by blast
qed

lemma y_pass_result:
  assumes "y_pass G grange t b tree' sph = Some (Inr sph')" and "ghost_frame G t b"
  shows "\<exists>w. sph' = (let s = fold (\<lambda>i. CheckYBoundaryGhostParticle G i t b)
                               (w @ [Nsph sph..Ntot sph - 1]) sph
                     in s\<lparr>Ntot := Nsph s + Nghost s\<rparr>)"
proof -
  let ?chk = "\<lambda>i. CheckYBoundaryGhostParticle G i t b"
  from assms(1) obtain sph1 sph2 where
    c: "cell_loop (cell_near_boundary grange t b 1) ?chk tree' 0 sph = Some (Inr sph1)"
    and d: "direct_loop ?chk (Nsph sph1) sph1 = Some sph2"
    and r: "sph' = sph2\<lparr>Ntot := Nsph sph2 + Nghost sph2\<rparr>"
    by (auto simp: y_pass_def split: option.splits sum.splits)
  have fr: "\<And>j s. Nsph (?chk j s) = Nsph s \<and> Ntot (?chk j s) = Ntot s"
    using assms(2) by (simp add: ghost_frame_def)
  from scan_pass_result [of _ ?chk, OF c d fr] obtain w where
    "sph2 = fold ?chk (w @ [Nsph sph..Ntot sph - 1]) sph" by blast
  with r have "sph' = (let s = fold ?chk (w @ [Nsph sph..Ntot sph - 1]) sph
                     in s\<lparr>Ntot := Nsph s + Nghost s\<rparr>)"
    by (simp add: Let_def)
  then show ?thesis by blast
qed

lemma z_pass_result:
  assumes "z_pass G grange t b tree' sph = Some (Inr sph')" and "ghost_frame G t b"
  shows "\<exists>w. sph' = (let s = fold (\<lambda>i. CheckZBoundaryGhostParticle G i t b)
                               (w @ [Nsph sph..Ntot sph - 1]) sph
                     in s\<lparr>Ntot := Nsph s + Nghost s\<rparr>)"
proof -
  let ?chk = "\<lambda>i. CheckZBoundaryGhostParticle G i t b"
  from assms(1) obtain sph1 sph2 where
    c: "cell_loop (cell_near_boundary grange t b 2) ?chk tree' 0 sph = Some (Inr sph1)"
    and d: "direct_loop ?chk (Nsph sph1) sph1 = Some sph2"
    and r: "sph' = sph2\<lparr>Ntot := Nsph sph2 + Nghost sph2\<rparr>"
    by (auto simp: z_pass_def split: option.splits sum.splits)
  have fr: "\<And>j s. Nsph (?chk j s) = Nsph s \<and> Ntot (?chk j s) = Ntot s"
    using assms(2) by (simp add: ghost_frame_def)
  from scan_pass_result [of _ ?chk, OF c d fr] obtain w where
    "sph2 = fold ?chk (w @ [Nsph sph..Ntot sph - 1]) sph" by blast
  with r have "sph' = (let s = fold ?chk (w @ [Nsph sph..Ntot sph - 1]) sph
                     in s\<lparr>Ntot := Nsph s + Nghost s\<rparr>)"
    by (simp add: Let_def)
  then show ?thesis by blast
qed

text \<open>The loops end on a tree that can be walked.\<close>

lemma leaf_loop_ends:
  assumes "chain_ends inext' ilast' n i"
  shows "\<exists>sph'. leaf_loop chk inext' ilast' i sph = Some (Inr sph')"
  using assms
proof (induction n arbitrary: i sph)
  case 0
  then show ?case by (subst leaf_loop.simps) auto
next
  case (Suc n)
  show ?case
  proof (cases "i = - 1 \<or> i = ilast'")
    case True
    then show ?thesis by (subst leaf_loop.simps) auto
  next
    case False
    with Suc.prems have in_range: "0 \<le> i" "i < int (length inext')"
      and rest: "chain_ends inext' ilast' n (inext' ! nat i)"
      by auto
    from Suc.IH [OF rest] obtain sph' where
      "leaf_loop chk inext' ilast' (inext' ! nat i) (chk i sph) = Some (Inr sph')"
      by blast
    with False in_range show ?thesis by (subst leaf_loop.simps) auto
  qed
qed

lemma direct_loop_ends:
  assumes "\<And>j s. Ntot (chk j s) = Ntot s"
  shows "\<exists>sph'. direct_loop chk i sph = Some sph'"
proof (induction "nat (Ntot sph - i)" arbitrary: i sph rule: less_induct)
  case less
  show ?case
  proof (cases "i < Ntot sph")
    case False
    then show ?thesis by (subst direct_loop.simps) simp
  next
    case True
    have "nat (Ntot (chk i sph) - (i + 1)) < nat (Ntot sph - i)"
      using True assms by simp
    from less [OF this] obtain sph' where
      "direct_loop chk (i + 1) (chk i sph) = Some sph'" by blast
    with True show ?thesis by (subst direct_loop.simps) simp
  qed
qed

lemma cell_loop_ends:
  assumes cells: "Ncell tree' \<le> int (length (celldata tree'))"
    and ok: "\<And>c. c < nat (Ncell tree') \<Longrightarrow>
               int c < cnext (celldata tree' ! c)
             \<and> (\<exists>opened. near (celldata tree' ! c) = Inr opened)
             \<and> (level (celldata tree' ! c) = ltot tree' \<and> cell_N (celldata tree' ! c) \<noteq> 0
                \<longrightarrow> (\<exists>n. chain_ends (inext tree') (ilast (celldata tree' ! c)) n
                           (ifirst (celldata tree' ! c))))"
  shows "0 \<le> c \<Longrightarrow> \<exists>sph'. cell_loop near chk tree' c sph = Some (Inr sph')"
proof (induction "nat (Ncell tree' - c)" arbitrary: c sph rule: less_induct)
  case less
  note c0 = less.prems
  show ?case
  proof (cases "c < Ncell tree'")
    case False
    then show ?thesis by (subst cell_loop.simps) simp
  next
    case inside: True
    let ?cell = "celldata tree' ! nat c"
    have nc: "nat c < nat (Ncell tree')" using inside c0 by simp
    have inrange: "\<not> (c < 0 \<or> int (length (celldata tree')) \<le> c)"
      using inside c0 cells by simp
    from ok [OF nc] c0 have nx: "c < cnext ?cell" by simp
    from ok [OF nc] obtain opened where near: "near ?cell = Inr opened" by blast
    have later: "\<And>c' s. c < c' \<Longrightarrow> \<exists>sph'. cell_loop near chk tree' c' s = Some (Inr sph')"
    proof -
      fix c' s
      assume "c < c'"
      then have "nat (Ncell tree' - c') < nat (Ncell tree' - c)" "0 \<le> c'"
        using inside c0 by simp_all
      then show "\<exists>sph'. cell_loop near chk tree' c' s = Some (Inr sph')"
        by (rule less.hyps)
    qed
    show ?thesis
    proof (cases opened)
      case False
      from later [OF nx] obtain sph' where
        "cell_loop near chk tree' (cnext ?cell) sph = Some (Inr sph')" by blast
      with inside inrange near False show ?thesis
        by (subst cell_loop.simps) simp
    next
      case opened: True
      show ?thesis
      proof (cases "level ?cell \<noteq> ltot tree'")
        case True
        from later [of "c + 1"] obtain sph' where
          "cell_loop near chk tree' (c + 1) sph = Some (Inr sph')" by auto
        with inside inrange near opened True show ?thesis
          by (subst cell_loop.simps) simp
      next
        case leaf: False
        show ?thesis
        proof (cases "cell_N ?cell = 0")
          case True
          from later [OF nx] obtain sph' where
            "cell_loop near chk tree' (cnext ?cell) sph = Some (Inr sph')" by blast
          with inside inrange near opened leaf True show ?thesis
            by (subst cell_loop.simps) simp
        next
          case nonempty: False
          from ok [OF nc] leaf nonempty c0 obtain n where
            "chain_ends (inext tree') (ilast ?cell) n (ifirst ?cell)" by auto
          from leaf_loop_ends [OF this] obtain sph1 where
            l: "leaf_loop chk (inext tree') (ilast ?cell) (ifirst ?cell) sph = Some (Inr sph1)"
            by blast
          from later [OF nx] obtain sph' where
            "cell_loop near chk tree' (cnext ?cell) sph1 = Some (Inr sph')" by blast
          with inside inrange near opened leaf nonempty l show ?thesis
            by (subst cell_loop.simps) simp
        qed
      qed
    qed
  qed
qed

lemma walk_ends:
  assumes "walkable ndim simbox tree'" "k < nat ndim"
  shows "\<exists>sph'. cell_loop (cell_near_boundary grange t simbox k) chk tree' 0 sph
               = Some (Inr sph')"
proof (rule cell_loop_ends)
  show "Ncell tree' \<le> int (length (celldata tree'))"
    using assms(1) by (simp add: walkable_def)
  show "(0::int) \<le> 0" by simp
  fix c
  assume c: "c < nat (Ncell tree')"
  let ?cell = "celldata tree' ! c"
  from assms(1) c have w: "walkable_cell ndim tree' c"
    by (simp add: walkable_def list_all_iff)
  have box: "nat ndim \<le> length (boxmin simbox)" "nat ndim \<le> length (boxmax simbox)"
    using assms(1) by (simp_all add: walkable_def)
  have "\<exists>opened. cell_near_boundary grange t simbox k ?cell = Inr opened"
    using w box assms(2) by (simp add: cell_near_boundary_def walkable_cell_def)
  moreover have "int c < cnext ?cell" using w by (simp add: walkable_cell_def)
  moreover have "level ?cell = ltot tree' \<and> cell_N ?cell \<noteq> 0
      \<longrightarrow> (\<exists>n. chain_ends (inext tree') (ilast ?cell) n (ifirst ?cell))"
    using w unfolding walkable_cell_def by blast
  ultimately show "int c < cnext ?cell
         \<and> (\<exists>opened. cell_near_boundary grange t simbox k ?cell = Inr opened)
         \<and> (level ?cell = ltot tree' \<and> cell_N ?cell \<noteq> 0
            \<longrightarrow> (\<exists>n. chain_ends (inext tree') (ilast ?cell) n (ifirst ?cell)))"
    by blast
qed

lemma x_pass_ends:
  assumes "walkable ndim simbox tree'"
  shows "\<exists>sph'. x_pass G grange t simbox tree' sph = Some (Inr sph')"
proof -
  have "0 < nat ndim" using assms by (simp add: walkable_def)
  from walk_ends [OF assms this] obtain sph1 where
    "cell_loop (cell_near_boundary grange t simbox 0)
       (\<lambda>i. CheckXBoundaryGhostParticle G i t simbox) tree' 0 sph = Some (Inr sph1)"
    by blast
  then show ?thesis by (simp add: x_pass_def)
qed

lemma y_pass_ends:
  assumes "walkable ndim simbox tree'" "2 \<le> ndim" "ghost_frame G t simbox"
  shows "\<exists>sph'. y_pass G grange t simbox tree' sph = Some (Inr sph')"
proof -
  let ?chk = "\<lambda>i. CheckYBoundaryGhostParticle G i t simbox"
  have "1 < nat ndim" using assms(2) by simp
  from walk_ends [OF assms(1) this] obtain sph1 where
    c: "cell_loop (cell_near_boundary grange t simbox 1) ?chk tree' 0 sph = Some (Inr sph1)"
    by blast
  have "\<And>j s. Ntot (?chk j s) = Ntot s" using assms(3) by (simp add: ghost_frame_def)
  from direct_loop_ends [of ?chk, OF this] obtain sph2 where
    "direct_loop ?chk (Nsph sph1) sph1 = Some sph2" by blast
  with c show ?thesis by (simp add: y_pass_def)
qed

lemma z_pass_ends:
  assumes "walkable ndim simbox tree'" "ndim = 3" "ghost_frame G t simbox"
  shows "\<exists>sph'. z_pass G grange t simbox tree' sph = Some (Inr sph')"
proof -
  let ?chk = "\<lambda>i. CheckZBoundaryGhostParticle G i t simbox"
  have "2 < nat ndim" using assms(2) by simp
  from walk_ends [OF assms(1) this] obtain sph1 where
    c: "cell_loop (cell_near_boundary grange t simbox 2) ?chk tree' 0 sph = Some (Inr sph1)"
    by blast
  have "\<And>j s. Ntot (?chk j s) = Ntot s" using assms(3) by (simp add: ghost_frame_def)
  from direct_loop_ends [of ?chk, OF this] obtain sph2 where
    "direct_loop ?chk (Nsph sph1) sph1 = Some sph2" by blast
  with c show ?thesis by (simp add: z_pass_def)
qed

lemma ghost_passes_end:
  assumes "walkable ndim simbox tree'" "ghost_frame G t simbox"
  shows "\<exists>sph'. ghost_passes G ndim grange t simbox tree' sph = Some (Inr sph')"
proof -
  have "\<exists>sx. (if C then x_pass G grange t simbox tree' sph else Some (Inr sph))
             = Some (Inr sx)" for C
    using x_pass_ends [OF assms(1), of G grange t sph] by (cases C) simp_all
  then obtain sx where x:
    "(if \<not> (x_boundary_lhs simbox = ''open'' \<and> x_boundary_rhs simbox = ''open'')
      then x_pass G grange t simbox tree' sph else Some (Inr sph)) = Some (Inr sx)"
    by blast
  have "\<exists>sy. (if 2 \<le> ndim \<and> C then y_pass G grange t simbox tree' sx else Some (Inr sx))
             = Some (Inr sy)" for C
  proof (cases "2 \<le> ndim \<and> C")
    case True
    then have "2 \<le> ndim" by simp
    from y_pass_ends [OF assms(1) this assms(2), of grange sx] show ?thesis
      unfolding if_P [OF True] .
  next
    case False
    show ?thesis unfolding if_not_P [OF False] by blast
  qed
  then obtain sy where y:
    "(if 2 \<le> ndim \<and> \<not> (y_boundary_lhs simbox = ''open'' \<and> y_boundary_rhs simbox = ''open'')
      then y_pass G grange t simbox tree' sx else Some (Inr sx)) = Some (Inr sy)"
    by blast
  have "\<exists>sz. (if ndim = 3 \<and> C then z_pass G grange t simbox tree' sy else Some (Inr sy))
             = Some (Inr sz)" for C
  proof (cases "ndim = 3 \<and> C")
    case True
    then have "ndim = 3" by simp
    from z_pass_ends [OF assms(1) this assms(2), of grange sy] show ?thesis
      unfolding if_P [OF True] .
  next
    case False
    show ?thesis unfolding if_not_P [OF False] by blast
  qed
  then obtain sz where z:
    "(if ndim = 3 \<and> \<not> (z_boundary_lhs simbox = ''open'' \<and> z_boundary_rhs simbox = ''open'')
      then z_pass G grange t simbox tree' sy else Some (Inr sy)) = Some (Inr sz)"
    by blast
  have "ghost_passes G ndim grange t simbox tree' sph = Some (Inr sz)"
    by (simp only: ghost_passes_def x y z option.case sum.case)
  then show ?thesis by blast
qed

lemma frame_X:
  assumes "ghost_frame G t b"
  shows "Nsph (CheckXBoundaryGhostParticle G j t b s) = Nsph s
       \<and> Ntot (CheckXBoundaryGhostParticle G j t b s) = Ntot s"
  using assms by (simp add: ghost_frame_def)

lemma frame_Y:
  assumes "ghost_frame G t b"
  shows "Nsph (CheckYBoundaryGhostParticle G j t b s) = Nsph s
       \<and> Ntot (CheckYBoundaryGhostParticle G j t b s) = Ntot s"
  using assms by (simp add: ghost_frame_def)

lemma frame_Z:
  assumes "ghost_frame G t b"
  shows "Nsph (CheckZBoundaryGhostParticle G j t b s) = Nsph s
       \<and> Ntot (CheckZBoundaryGhostParticle G j t b s) = Ntot s"
  using assms by (simp add: ghost_frame_def)

text \<open>
  Claim C1. Let the checks leave \<open>Nsph\<close> and \<open>Ntot\<close> as they are, and let a
  boundary not be open. When the call ends, by returning or by raising, the state
  it ends with is the state that these calls leave, in this order:

  \<^item> the counters are set (\<open>s0\<close>);
  \<^item> if an x boundary is not open, \<open>CheckXBoundaryGhostParticle\<close> is called on the
    particles \<open>wx\<close> of a tree walk, then \<open>Ntot\<close> is set to \<open>Nsph + Nghost\<close> (\<open>sx\<close>);
  \<^item> if \<open>ndim\<close> is at least 2 and a y boundary is not open,
    \<open>CheckYBoundaryGhostParticle\<close> is called on the particles \<open>wy\<close> of a tree walk
    and then on every index from \<open>Nsph\<close> to \<open>Ntot - 1\<close>, the ghosts of the x pass,
    then \<open>Ntot\<close> is set (\<open>sy\<close>);
  \<^item> if \<open>ndim\<close> is 3 and a z boundary is not open, \<open>CheckZBoundaryGhostParticle\<close>
    is called on the particles \<open>wz\<close> of a tree walk and then on every index from
    \<open>Nsph\<close> to \<open>Ntot - 1\<close>, the ghosts of the x and y passes, then \<open>Ntot\<close> is
    set (\<open>sz\<close>).

  And on a tree that can be walked the call ends.
\<close>

theorem SearchBoundaryGhostParticles_axis_order:
  assumes frame: "ghost_frame G tghost simbox"
    and nonopen: "\<not> (x_boundary_lhs simbox = ''open'' \<and> x_boundary_rhs simbox = ''open''
                   \<and> y_boundary_lhs simbox = ''open'' \<and> y_boundary_rhs simbox = ''open''
                   \<and> z_boundary_lhs simbox = ''open'' \<and> z_boundary_rhs simbox = ''open'')"
  shows
    "(\<forall>e. SearchBoundaryGhostParticles G ndim ghost_range kernrange tghost simbox tree' sph
            = Some (Inr e) \<longrightarrow>
       (\<exists>wx wy wz s0 sx sy sz.
           s0 = sph\<lparr>Nghost := 0, NPeriodicGhost := 0, Nmpighost := 0,
                     Nghostmax := Nsphmax sph - Nsph sph, Ntot := Nsph sph\<rparr>
         \<and> sx = (if \<not> (x_boundary_lhs simbox = ''open'' \<and> x_boundary_rhs simbox = ''open'')
                 then (let s = fold (\<lambda>i. CheckXBoundaryGhostParticle G i tghost simbox) wx s0
                       in s\<lparr>Ntot := Nsph sph + Nghost s\<rparr>)
                 else s0)
         \<and> sy = (if 2 \<le> ndim
                    \<and> \<not> (y_boundary_lhs simbox = ''open'' \<and> y_boundary_rhs simbox = ''open'')
                 then (let s = fold (\<lambda>i. CheckYBoundaryGhostParticle G i tghost simbox)
                                 (wy @ [Nsph sph..Ntot sx - 1]) sx
                       in s\<lparr>Ntot := Nsph sph + Nghost s\<rparr>)
                 else sx)
         \<and> sz = (if ndim = 3
                    \<and> \<not> (z_boundary_lhs simbox = ''open'' \<and> z_boundary_rhs simbox = ''open'')
                 then (let s = fold (\<lambda>i. CheckZBoundaryGhostParticle G i tghost simbox)
                                 (wz @ [Nsph sph..Ntot sy - 1]) sy
                       in s\<lparr>Ntot := Nsph sph + Nghost s\<rparr>)
                 else sy)
         \<and> Ntot sx = Nsph sph + Nghost sx
         \<and> Ntot sy = Nsph sph + Nghost sy
         \<and> e = (if Nsphmax sz < Ntot sz then Raises ghost_memory_message sz
                else Returns (sz\<lparr>NPeriodicGhost := Nghost sz\<rparr>))))
   \<and> (walkable ndim simbox tree' \<longrightarrow>
       (\<exists>e. SearchBoundaryGhostParticles G ndim ghost_range kernrange tghost simbox tree' sph
             = Some (Inr e)))"
proof (rule conjI; intro allI impI)
  fix e
  assume run: "SearchBoundaryGhostParticles G ndim ghost_range kernrange tghost simbox tree' sph
               = Some (Inr e)"
  define s0 where "s0 = sph\<lparr>Nghost := 0, NPeriodicGhost := 0, Nmpighost := 0,
                     Nghostmax := Nsphmax sph - Nsph sph, Ntot := Nsph sph\<rparr>"
  let ?gr = "fmul ghost_range kernrange"
  let ?X = "\<lambda>i. CheckXBoundaryGhostParticle G i tghost simbox"
  let ?Y = "\<lambda>i. CheckYBoundaryGhostParticle G i tghost simbox"
  let ?Z = "\<lambda>i. CheckZBoundaryGhostParticle G i tghost simbox"
  let ?xc = "\<not> (x_boundary_lhs simbox = ''open'' \<and> x_boundary_rhs simbox = ''open'')"
  let ?yc = "2 \<le> ndim \<and> \<not> (y_boundary_lhs simbox = ''open'' \<and> y_boundary_rhs simbox = ''open'')"
  let ?zc = "ndim = 3 \<and> \<not> (z_boundary_lhs simbox = ''open'' \<and> z_boundary_rhs simbox = ''open'')"
  have gs: "ghost_start sph = s0" by (simp add: ghost_start_def s0_def)
  from run nonopen obtain sz where
    gp: "ghost_passes G ndim ?gr tghost simbox tree' s0 = Some (Inr sz)"
    and e: "e = (if Nsphmax sz < Ntot sz then Raises ghost_memory_message sz
                else Returns (sz\<lparr>NPeriodicGhost := Nghost sz\<rparr>))"
    unfolding SearchBoundaryGhostParticles_def Let_def gs
    by (auto split: option.splits sum.splits if_splits)
  from gp obtain sx sy where
    x: "(if ?xc then x_pass G ?gr tghost simbox tree' s0 else Some (Inr s0)) = Some (Inr sx)"
    and y: "(if ?yc then y_pass G ?gr tghost simbox tree' sx else Some (Inr sx)) = Some (Inr sy)"
    and z: "(if ?zc then z_pass G ?gr tghost simbox tree' sy else Some (Inr sy)) = Some (Inr sz)"
    unfolding ghost_passes_def by (auto split: option.splits sum.splits)
  have c0: "Nsph s0 = Nsph sph" "Ntot s0 = Nsph sph + Nghost s0"
    by (simp_all add: s0_def)
  obtain wx where wx: "sx = (if ?xc
                 then (let s = fold ?X wx s0 in s\<lparr>Ntot := Nsph sph + Nghost s\<rparr>)
                 else s0)"
  proof (cases ?xc)
    case False
    with x have "sx = s0" by simp
    with False that [of "[]"] show ?thesis by simp
  next
    case True
    with x have "x_pass G ?gr tghost simbox tree' s0 = Some (Inr sx)" by simp
    from x_pass_result [OF this] obtain w where
      w: "sx = (let s = fold ?X w s0 in s\<lparr>Ntot := Nsph s + Nghost s\<rparr>)" by blast
    have "Nsph (fold ?X w s0) = Nsph sph"
      using fold_frame [of ?X w s0, OF frame_X [OF frame]] c0 by simp
    with w have "sx = (let s = fold ?X w s0 in s\<lparr>Ntot := Nsph sph + Nghost s\<rparr>)"
      by (simp add: Let_def)
    with True that [of w] show ?thesis by simp
  qed
  have cx: "Nsph sx = Nsph sph" "Ntot sx = Nsph sph + Nghost sx"
    using wx c0 fold_frame [of ?X wx s0, OF frame_X [OF frame]]
    by (auto simp: Let_def split: if_splits)
  obtain wy where wy: "sy = (if ?yc
                 then (let s = fold ?Y (wy @ [Nsph sph..Ntot sx - 1]) sx
                       in s\<lparr>Ntot := Nsph sph + Nghost s\<rparr>)
                 else sx)"
  proof (cases ?yc)
    case False
    with y have "sy = sx" by auto
    with False that [of "[]"] show ?thesis by auto
  next
    case True
    with y have "y_pass G ?gr tghost simbox tree' sx = Some (Inr sy)" by simp
    from y_pass_result [OF this frame] obtain w where
      w: "sy = (let s = fold ?Y (w @ [Nsph sx..Ntot sx - 1]) sx
                in s\<lparr>Ntot := Nsph s + Nghost s\<rparr>)" by blast
    have "Nsph (fold ?Y (w @ [Nsph sx..Ntot sx - 1]) sx) = Nsph sph"
      using fold_frame [of ?Y "w @ [Nsph sx..Ntot sx - 1]" sx, OF frame_Y [OF frame]] cx
      by simp
    with w cx have "sy = (let s = fold ?Y (w @ [Nsph sph..Ntot sx - 1]) sx
                in s\<lparr>Ntot := Nsph sph + Nghost s\<rparr>)"
      by (simp add: Let_def)
    with True that [of w] show ?thesis by simp
  qed
  have cy: "Nsph sy = Nsph sph" "Ntot sy = Nsph sph + Nghost sy"
    using wy cx fold_frame [of ?Y "wy @ [Nsph sph..Ntot sx - 1]" sx, OF frame_Y [OF frame]]
    by (auto simp: Let_def split: if_splits)
  obtain wz where wz: "sz = (if ?zc
                 then (let s = fold ?Z (wz @ [Nsph sph..Ntot sy - 1]) sy
                       in s\<lparr>Ntot := Nsph sph + Nghost s\<rparr>)
                 else sy)"
  proof (cases ?zc)
    case False
    with z have "sz = sy" by auto
    with False that [of "[]"] show ?thesis by auto
  next
    case True
    with z have "z_pass G ?gr tghost simbox tree' sy = Some (Inr sz)" by simp
    from z_pass_result [OF this frame] obtain w where
      w: "sz = (let s = fold ?Z (w @ [Nsph sy..Ntot sy - 1]) sy
                in s\<lparr>Ntot := Nsph s + Nghost s\<rparr>)" by blast
    have "Nsph (fold ?Z (w @ [Nsph sy..Ntot sy - 1]) sy) = Nsph sph"
      using fold_frame [of ?Z "w @ [Nsph sy..Ntot sy - 1]" sy, OF frame_Z [OF frame]] cy
      by simp
    with w cy have "sz = (let s = fold ?Z (w @ [Nsph sph..Ntot sy - 1]) sy
                in s\<lparr>Ntot := Nsph sph + Nghost s\<rparr>)"
      by (simp add: Let_def)
    with True that [of w] show ?thesis by simp
  qed
  from s0_def wx wy wz cx(2) cy(2) e
  show "\<exists>wx wy wz s0 sx sy sz.
           s0 = sph\<lparr>Nghost := 0, NPeriodicGhost := 0, Nmpighost := 0,
                     Nghostmax := Nsphmax sph - Nsph sph, Ntot := Nsph sph\<rparr>
         \<and> sx = (if \<not> (x_boundary_lhs simbox = ''open'' \<and> x_boundary_rhs simbox = ''open'')
                 then (let s = fold (\<lambda>i. CheckXBoundaryGhostParticle G i tghost simbox) wx s0
                       in s\<lparr>Ntot := Nsph sph + Nghost s\<rparr>)
                 else s0)
         \<and> sy = (if 2 \<le> ndim
                    \<and> \<not> (y_boundary_lhs simbox = ''open'' \<and> y_boundary_rhs simbox = ''open'')
                 then (let s = fold (\<lambda>i. CheckYBoundaryGhostParticle G i tghost simbox)
                                 (wy @ [Nsph sph..Ntot sx - 1]) sx
                       in s\<lparr>Ntot := Nsph sph + Nghost s\<rparr>)
                 else sx)
         \<and> sz = (if ndim = 3
                    \<and> \<not> (z_boundary_lhs simbox = ''open'' \<and> z_boundary_rhs simbox = ''open'')
                 then (let s = fold (\<lambda>i. CheckZBoundaryGhostParticle G i tghost simbox)
                                 (wz @ [Nsph sph..Ntot sy - 1]) sy
                       in s\<lparr>Ntot := Nsph sph + Nghost s\<rparr>)
                 else sy)
         \<and> Ntot sx = Nsph sph + Nghost sx
         \<and> Ntot sy = Nsph sph + Nghost sy
         \<and> e = (if Nsphmax sz < Ntot sz then Raises ghost_memory_message sz
                else Returns (sz\<lparr>NPeriodicGhost := Nghost sz\<rparr>))"
    by blast
next
  assume w: "walkable ndim simbox tree'"
  from ghost_passes_end [OF w frame] obtain sz where
    "ghost_passes G ndim (fmul ghost_range kernrange) tghost simbox tree' (ghost_start sph)
     = Some (Inr sz)" by blast
  then show "\<exists>e. SearchBoundaryGhostParticles G ndim ghost_range kernrange tghost simbox tree' sph
             = Some (Inr e)"
    using nonopen by (simp add: SearchBoundaryGhostParticles_def Let_def)
qed

text \<open>
  The theorem on the example: three dimensions, all boundaries periodic, two
  particles. The digits of \<open>Nmpighost\<close> at the end are the calls in their order:
  the x check on the particles 0 and 1; the y check on 0 and 1 and then on the
  ghosts 2 and 3; the z check on 0 and 1 and then on the ghosts 2 to 7.
\<close>

theorem SearchBoundaryGhostParticles_axis_order_witness:
  "ghost_frame ghost_example_checks (Finite 1) ghost_box
 \<and> \<not> (x_boundary_lhs ghost_box = ''open'' \<and> x_boundary_rhs ghost_box = ''open''
      \<and> y_boundary_lhs ghost_box = ''open'' \<and> y_boundary_rhs ghost_box = ''open''
      \<and> z_boundary_lhs ghost_box = ''open'' \<and> z_boundary_rhs ghost_box = ''open'')
 \<and> walkable 3 ghost_box ghost_tree
 \<and> SearchBoundaryGhostParticles ghost_example_checks 3 (Finite 2) (Finite 2) (Finite 1)
      ghost_box ghost_tree ghost_sph
    = Some (Inr (Returns (ghost_sph\<lparr>Nghost := 14, NPeriodicGhost := 14,
                                    Nmpighost := 1011202122233031323334353637,
                                    Nghostmax := 14, Ntot := 16\<rparr>)))
 \<and> (\<exists>wx wy wz s0 sx sy sz.
       s0 = ghost_sph\<lparr>Nghost := 0, NPeriodicGhost := 0, Nmpighost := 0,
                       Nghostmax := Nsphmax ghost_sph - Nsph ghost_sph, Ntot := Nsph ghost_sph\<rparr>
     \<and> sx = (let s = fold (\<lambda>i. CheckXBoundaryGhostParticle ghost_example_checks i (Finite 1)
                                 ghost_box) wx s0
             in s\<lparr>Ntot := Nsph ghost_sph + Nghost s\<rparr>)
     \<and> sy = (let s = fold (\<lambda>i. CheckYBoundaryGhostParticle ghost_example_checks i (Finite 1)
                                 ghost_box) (wy @ [Nsph ghost_sph..Ntot sx - 1]) sx
             in s\<lparr>Ntot := Nsph ghost_sph + Nghost s\<rparr>)
     \<and> sz = (let s = fold (\<lambda>i. CheckZBoundaryGhostParticle ghost_example_checks i (Finite 1)
                                 ghost_box) (wz @ [Nsph ghost_sph..Ntot sy - 1]) sy
             in s\<lparr>Ntot := Nsph ghost_sph + Nghost s\<rparr>)
     \<and> Ntot sx = Nsph ghost_sph + Nghost sx
     \<and> Ntot sy = Nsph ghost_sph + Nghost sy
     \<and> Returns (ghost_sph\<lparr>Nghost := 14, NPeriodicGhost := 14,
                           Nmpighost := 1011202122233031323334353637,
                           Nghostmax := 14, Ntot := 16\<rparr>)
         = (if Nsphmax sz < Ntot sz then Raises ghost_memory_message sz
            else Returns (sz\<lparr>NPeriodicGhost := Nghost sz\<rparr>)))"
proof -
  have f: "ghost_frame ghost_example_checks (Finite 1) ghost_box"
    by (simp add: ghost_frame_def ghost_example_checks_def)
  have n: "\<not> (x_boundary_lhs ghost_box = ''open'' \<and> x_boundary_rhs ghost_box = ''open''
      \<and> y_boundary_lhs ghost_box = ''open'' \<and> y_boundary_rhs ghost_box = ''open''
      \<and> z_boundary_lhs ghost_box = ''open'' \<and> z_boundary_rhs ghost_box = ''open'')"
    by (simp add: ghost_box_def)
  have w: "walkable 3 ghost_box ghost_tree"
    by (simp add: walkable_def walkable_cell_def ghost_box_def ghost_tree_def ghost_cell_def
        upt_rec eval_nat_numeral)
  have r: "SearchBoundaryGhostParticles ghost_example_checks 3 (Finite 2) (Finite 2) (Finite 1)
      ghost_box ghost_tree ghost_sph
    = Some (Inr (Returns (ghost_sph\<lparr>Nghost := 14, NPeriodicGhost := 14,
                                    Nmpighost := 1011202122233031323334353637,
                                    Nghostmax := 14, Ntot := 16\<rparr>)))"
    by (simp add: SearchBoundaryGhostParticles_def ghost_passes_def x_pass_def y_pass_def
        z_pass_def cell_loop.simps leaf_loop.simps direct_loop.simps
        ghost_start_def ghost_box_def ghost_tree_def ghost_cell_def
        ghost_sph_def example_sph_def ghost_example_checks_def
        cell_near_boundary_def fmin_def fmax_def fgt_def fsub_def)
  note T = SearchBoundaryGhostParticles_axis_order [OF f n, of 3 "Finite 2" "Finite 2" ghost_tree ghost_sph]
  from T r have E:
    "\<exists>wx wy wz s0 sx sy sz.
       s0 = ghost_sph\<lparr>Nghost := 0, NPeriodicGhost := 0, Nmpighost := 0,
                       Nghostmax := Nsphmax ghost_sph - Nsph ghost_sph, Ntot := Nsph ghost_sph\<rparr>
     \<and> sx = (if \<not> (x_boundary_lhs ghost_box = ''open'' \<and> x_boundary_rhs ghost_box = ''open'')
             then (let s = fold (\<lambda>i. CheckXBoundaryGhostParticle ghost_example_checks i (Finite 1)
                                 ghost_box) wx s0
                   in s\<lparr>Ntot := Nsph ghost_sph + Nghost s\<rparr>)
             else s0)
     \<and> sy = (if (2::int) \<le> 3
                \<and> \<not> (y_boundary_lhs ghost_box = ''open'' \<and> y_boundary_rhs ghost_box = ''open'')
             then (let s = fold (\<lambda>i. CheckYBoundaryGhostParticle ghost_example_checks i (Finite 1)
                                 ghost_box) (wy @ [Nsph ghost_sph..Ntot sx - 1]) sx
                   in s\<lparr>Ntot := Nsph ghost_sph + Nghost s\<rparr>)
             else sx)
     \<and> sz = (if (3::int) = 3
                \<and> \<not> (z_boundary_lhs ghost_box = ''open'' \<and> z_boundary_rhs ghost_box = ''open'')
             then (let s = fold (\<lambda>i. CheckZBoundaryGhostParticle ghost_example_checks i (Finite 1)
                                 ghost_box) (wz @ [Nsph ghost_sph..Ntot sy - 1]) sy
                   in s\<lparr>Ntot := Nsph ghost_sph + Nghost s\<rparr>)
             else sy)
     \<and> Ntot sx = Nsph ghost_sph + Nghost sx
     \<and> Ntot sy = Nsph ghost_sph + Nghost sy
     \<and> Returns (ghost_sph\<lparr>Nghost := 14, NPeriodicGhost := 14,
                           Nmpighost := 1011202122233031323334353637,
                           Nghostmax := 14, Ntot := 16\<rparr>)
         = (if Nsphmax sz < Ntot sz then Raises ghost_memory_message sz
            else Returns (sz\<lparr>NPeriodicGhost := Nghost sz\<rparr>))"
    by blast
  have c: "\<not> (x_boundary_lhs ghost_box = ''open'' \<and> x_boundary_rhs ghost_box = ''open'')"
    "(2::int) \<le> 3 \<and> \<not> (y_boundary_lhs ghost_box = ''open'' \<and> y_boundary_rhs ghost_box = ''open'')"
    "(3::int) = 3 \<and> \<not> (z_boundary_lhs ghost_box = ''open'' \<and> z_boundary_rhs ghost_box = ''open'')"
    by (simp_all add: ghost_box_def)
  note E' = E [unfolded if_P [OF c(1)] if_P [OF c(2)] if_P [OF c(3)]]
  from f n w r E' show ?thesis by (intro conjI) assumption+
qed

section \<open>Claim C2\<close>














section \<open>Claim C3\<close>

lemma export_particles_Inr:
  assumes "export_particles lay ps js (pre @ rest, int (length pre), ids) = Inr (buf', off', ids')"
  shows "length (concat (map (\<lambda>j. part_bytes lay (ps ! nat j)) js)) \<le> length rest
       \<and> buf' = pre @ concat (map (\<lambda>j. part_bytes lay (ps ! nat j)) js)
                 @ drop (length (concat (map (\<lambda>j. part_bytes lay (ps ! nat j)) js))) rest
       \<and> off' = int (length pre + length (concat (map (\<lambda>j. part_bytes lay (ps ! nat j)) js)))
       \<and> ids' = ids @ js"
  using assms
proof (induction js arbitrary: pre rest ids)
  case Nil
  then show ?case by simp
next
  case (Cons j js)
  let ?pb = "part_bytes lay (ps ! nat j)"
  from Cons.prems have j: "\<not> (j < 0 \<or> int (length ps) \<le> j)"
    by (auto split: if_splits)
  from Cons.prems j obtain buf1 where
    s: "copy_part_to lay (pre @ rest) (int (length pre)) (ps ! nat j) = Inr buf1"
    and r: "export_particles lay ps js (buf1, int (length pre) + int (sizeof_part lay), ids @ [j])
            = Inr (buf', off', ids')"
    by (auto split: sum.splits if_splits)
  from s have len: "sizeof_part lay \<le> length rest"
    and b1: "buf1 = (pre @ ?pb) @ drop (sizeof_part lay) rest"
    by (auto simp: copy_part_to_def store_at_end length_part_bytes split: if_splits)
  have off: "int (length pre) + int (sizeof_part lay) = int (length (pre @ ?pb))"
    by (simp add: length_part_bytes)
  note IH = Cons.IH [OF r [unfolded b1 off]]
  let ?new = "concat (map (\<lambda>j. part_bytes lay (ps ! nat j)) js)"
  have l1: "length ?new \<le> length rest - sizeof_part lay" using IH by simp
  show ?case
    using IH len l1 by (simp add: length_part_bytes add.commute)
qed

lemma export_cells_Inr:
  assumes "export_cells lay A ps cs (pre @ rest, int (length pre), ids, ex) = Inr (buf', off', ids', ex')"
  shows "length (cells_with_particles lay A ps ex cs) \<le> length rest
       \<and> buf' = pre @ cells_with_particles lay A ps ex cs
                 @ drop (length (cells_with_particles lay A ps ex cs)) rest
       \<and> off' = int (length pre + length (cells_with_particles lay A ps ex cs))
       \<and> ids' = ids @ concat (map (\<lambda>c. A c ps) cs)
       \<and> ex' = ex + int (length (concat (map (\<lambda>c. A c ps) cs)))"
  using assms
proof (induction cs arbitrary: pre rest ids ex)
  case Nil
  then show ?case by simp
next
  case (Cons c cs)
  let ?n = "int (length (A c ps))"
  let ?c' = "c\<lparr>ifirst := ex, ilast := ex + ?n - 1\<rparr>"
  let ?cb = "cell_bytes lay ?c'"
  let ?pbs = "concat (map (\<lambda>j. part_bytes lay (ps ! nat j)) (A c ps))"
  from Cons.prems obtain buf1 where
    s1: "copy_cell_to lay (pre @ rest) (int (length pre)) c = Inr buf1"
    by (auto split: sum.splits)
  from s1 have len: "sizeof_cell lay \<le> length rest"
    and b1: "buf1 = pre @ cell_bytes lay c @ drop (sizeof_cell lay) rest"
    by (auto simp: copy_cell_to_def store_at_end length_cell_bytes split: if_splits)
  from Cons.prems s1 obtain buf2 where
    s2: "copy_cell_to lay buf1 (int (length pre)) ?c' = Inr buf2"
    by (auto simp: Let_def split: sum.splits)
  have b2: "buf2 = (pre @ ?cb) @ drop (sizeof_cell lay) rest"
    using s2 len unfolding b1
    by (auto simp: copy_cell_to_def store_at_end length_cell_bytes split: if_splits)
  from Cons.prems s1 s2 obtain buf3 off3 ids3 where
    p: "export_particles lay ps (A c ps) (buf2, int (length pre) + int (sizeof_cell lay), ids)
        = Inr (buf3, off3, ids3)"
    and r: "export_cells lay A ps cs (buf3, off3, ids3, ex + ?n) = Inr (buf', off', ids', ex')"
    by (auto simp: Let_def split: sum.splits prod.splits)
  have off: "int (length pre) + int (sizeof_cell lay) = int (length (pre @ ?cb))"
    by (simp add: length_cell_bytes)
  note P = export_particles_Inr [OF p [unfolded b2 off]]
  let ?rest1 = "drop (sizeof_cell lay) rest"
  have lp: "length ?pbs \<le> length ?rest1" using P by simp
  have b3: "buf3 = (pre @ ?cb @ ?pbs) @ drop (length ?pbs) ?rest1" using P by simp
  have o3: "off3 = int (length (pre @ ?cb @ ?pbs))" using P by simp
  have i3: "ids3 = ids @ A c ps" using P by simp
  note IH = Cons.IH [OF r [unfolded b3 o3]]
  let ?tail = "cells_with_particles lay A ps (ex + ?n) cs"
  have lt: "length ?tail \<le> length (drop (length ?pbs) ?rest1)" using IH by simp
  have whole: "cells_with_particles lay A ps ex (c # cs) = ?cb @ ?pbs @ ?tail"
    by simp
  have lw: "length (cells_with_particles lay A ps ex (c # cs))
            = sizeof_cell lay + length ?pbs + length ?tail"
    unfolding whole by (simp add: length_cell_bytes)
  show ?case
  proof (intro conjI)
    show "length (cells_with_particles lay A ps ex (c # cs)) \<le> length rest"
      unfolding lw using len lp lt by simp
    show "buf' = pre @ cells_with_particles lay A ps ex (c # cs)
                 @ drop (length (cells_with_particles lay A ps ex (c # cs))) rest"
      unfolding lw whole using IH by (simp add: add.commute add.left_commute length_cell_bytes)
    show "off' = int (length pre + length (cells_with_particles lay A ps ex (c # cs)))"
      unfolding lw using IH by (simp add: length_cell_bytes)
    show "ids' = ids @ concat (map (\<lambda>c. A c ps) (c # cs))"
      using IH i3 by simp
    show "ex' = ex + int (length (concat (map (\<lambda>c. A c ps) (c # cs))))"
      using IH by simp
  qed
qed

lemma resize_grow:
  assumes "resize buf n = Inr buf0" "int (length buf) \<le> n"
  shows "buf0 = buf @ replicate (nat n - length buf) (RawByte 0)"
  using assms by (auto simp: resize_def split: if_splits)

lemma resize_length:
  assumes "resize buf n = Inr buf0"
  shows "int (length buf0) = n"
  using assms by (auto simp: resize_def split: if_splits)

lemma copy_int_to_at_end:
  assumes "copy_int_to (pre @ rest) (int (length pre)) n = Inr buf"
  shows "sizeof_int \<le> length rest \<and> buf = (pre @ int_bytes n) @ drop sizeof_int rest"
  using assms by (auto simp: copy_int_to_def store_at_end length_int_bytes split: if_splits)

text \<open>
  Claim C3, as amended. The message a call of \<open>GetExportInfo\<close> that returns has
  appended to the send buffer is the particle count, the cell count, and then, for
  each of the exported cells in order, the record of the cell followed at once by the
  records of its own active particles; the particle count is the number of those
  particle records, and the value returned is the length of the message.
\<close>

theorem GetExportInfo_message_layout:
  assumes "GetExportInfo lay active_list Nproc sph send_buffer st = Inr (n, buf', st')"
  shows "buf' = send_buffer
              @ int_bytes (Npartexport st ! nat Nproc)
              @ int_bytes (Ncellexport st ! nat Nproc)
              @ cells_with_particles lay active_list (sphdata sph) 0
                  (take (nat (Ncellexport st ! nat Nproc)) (cellexportlist st ! nat Nproc))
       \<and> n = int (length buf') - int (length send_buffer)
       \<and> Npartexport st ! nat Nproc
           = int (length (concat (map (\<lambda>c. active_list c (sphdata sph))
                   (take (nat (Ncellexport st ! nat Nproc)) (cellexportlist st ! nat Nproc)))))
       \<and> st' = st\<lparr>ids_sent_particles := (ids_sent_particles st)
                   [nat Nproc := concat (map (\<lambda>c. active_list c (sphdata sph))
                      (take (nat (Ncellexport st ! nat Nproc)) (cellexportlist st ! nat Nproc)))]\<rparr>"
proof -
  let ?celllist = "cellexportlist st ! nat Nproc"
  let ?cactive = "Ncellexport st ! nat Nproc"
  let ?Nactive = "Npartexport st ! nat Nproc"
  let ?old = "int (length send_buffer)"
  let ?total = "?Nactive * int (sizeof_part lay) + ?cactive * int (sizeof_cell lay)
                + 2 * int sizeof_int + ?old"
  let ?cells = "take (nat ?cactive) ?celllist"
  let ?ps = "sphdata sph"
  from assms obtain buf0 buf1 buf2 buf3 offset ids exported where
    r: "resize send_buffer ?total = Inr buf0"
    and h1: "copy_int_to buf0 ?old ?Nactive = Inr buf1"
    and h2: "copy_int_to buf1 (?old + int sizeof_int) ?cactive = Inr buf2"
    and c: "export_cells lay active_list ?ps ?cells (buf2, 2 * int sizeof_int + ?old, [], 0)
            = Inr (buf3, offset, ids, exported)"
    and a1: "exported = ?Nactive"
    and a2: "offset = int (length buf3)"
    and res: "n = ?Nactive * int (sizeof_part lay) + ?cactive * int (sizeof_cell lay)
                  + 2 * int sizeof_int"
      "buf' = buf3" "st' = st\<lparr>ids_sent_particles := (ids_sent_particles st)[nat Nproc := ids]\<rparr>"
    by (auto simp: GetExportInfo_def Let_def split: if_splits sum.splits prod.splits)
  have l0: "int (length buf0) = ?total" using r by (rule resize_length)
  from h1 have "?old + int sizeof_int \<le> int (length buf0)"
    by (auto simp: copy_int_to_def store_def length_int_bytes split: if_splits)
  then have grow: "?old \<le> ?total" using l0 by simp
  define pad where "pad = replicate (nat ?total - length send_buffer) (RawByte 0)"
  have b0: "buf0 = send_buffer @ pad"
    using resize_grow [OF r grow] unfolding pad_def .
  from copy_int_to_at_end [OF h1 [unfolded b0]]
  have lp1: "sizeof_int \<le> length pad"
    and b1: "buf1 = (send_buffer @ int_bytes ?Nactive) @ drop sizeof_int pad"
    by simp_all
  have h2': "copy_int_to ((send_buffer @ int_bytes ?Nactive) @ drop sizeof_int pad)
               (int (length (send_buffer @ int_bytes ?Nactive))) ?cactive = Inr buf2"
    using h2 b1 by (simp add: length_int_bytes)
  from copy_int_to_at_end [OF h2']
  have lp2: "sizeof_int \<le> length (drop sizeof_int pad)"
    and b2: "buf2 = ((send_buffer @ int_bytes ?Nactive) @ int_bytes ?cactive)
                    @ drop sizeof_int (drop sizeof_int pad)"
    by simp_all
  define rest where "rest = drop sizeof_int (drop sizeof_int pad)"
  have c': "export_cells lay active_list ?ps ?cells
              (((send_buffer @ int_bytes ?Nactive) @ int_bytes ?cactive) @ rest,
               int (length ((send_buffer @ int_bytes ?Nactive) @ int_bytes ?cactive)), [], 0)
            = Inr (buf3, offset, ids, exported)"
    using c b2 unfolding rest_def by (simp add: length_int_bytes add.commute)
  note E = export_cells_Inr [OF c']
  let ?body = "cells_with_particles lay active_list ?ps 0 ?cells"
  have lbody: "length ?body \<le> length rest" using E by simp
  have b3: "buf3 = (send_buffer @ int_bytes ?Nactive @ int_bytes ?cactive) @ ?body
                   @ drop (length ?body) rest"
    using E by simp
  have o3: "offset = int (length (send_buffer @ int_bytes ?Nactive @ int_bytes ?cactive)
                          + length ?body)"
    using E by simp
  have "length (drop (length ?body) rest) = 0"
    using a2 unfolding o3 b3 by simp
  then have full: "buf3 = send_buffer @ int_bytes ?Nactive @ int_bytes ?cactive @ ?body"
    using b3 by simp
  have lb3: "length buf3 = length send_buffer + 2 * sizeof_int + length rest"
    unfolding b3 using lbody by (simp add: length_int_bytes)
  have lrest: "length rest + 2 * sizeof_int = length pad"
    using lp1 lp2 unfolding rest_def by simp
  have "int (length buf3) = int (length buf0)"
    unfolding lb3 b0 using lrest by simp
  then have nlen: "n = int (length buf') - int (length send_buffer)"
    using res l0 by simp
  have cnt: "?Nactive = int (length (concat (map (\<lambda>c. active_list c ?ps) ?cells)))"
    using E a1 by simp
  have ids: "ids = concat (map (\<lambda>c. active_list c ?ps) ?cells)"
    using E by simp
  show ?thesis
    using full nlen cnt ids res by simp
qed

theorem GetExportInfo_message_layout_witness:
  "GetExportInfo example_layout first_particle_active 1 export_sph [] export_sphtree
     = Inr (18,
            int_bytes 2 @ int_bytes 2
            @ cell_bytes example_layout example_cell
            @ part_bytes example_layout example_particle
            @ cell_bytes example_layout (example_cell\<lparr>ifirst := 1, ilast := 1\<rparr>)
            @ part_bytes example_layout (example_particle\<lparr>iorig := 1\<rparr>),
            export_sphtree\<lparr>ids_sent_particles := [[], [0, 1]]\<rparr>)
 \<and> int_bytes 2 @ int_bytes 2
     @ cell_bytes example_layout example_cell
     @ part_bytes example_layout example_particle
     @ cell_bytes example_layout (example_cell\<lparr>ifirst := 1, ilast := 1\<rparr>)
     @ part_bytes example_layout (example_particle\<lparr>iorig := 1\<rparr>)
   = [] @ int_bytes (Npartexport export_sphtree ! nat 1)
        @ int_bytes (Ncellexport export_sphtree ! nat 1)
        @ cells_with_particles example_layout first_particle_active (sphdata export_sph) 0
            (take (nat (Ncellexport export_sphtree ! nat 1))
                  (cellexportlist export_sphtree ! nat 1))"
proof -
  have run: "GetExportInfo example_layout first_particle_active 1 export_sph [] export_sphtree
     = Inr (18,
            int_bytes 2 @ int_bytes 2
            @ cell_bytes example_layout example_cell
            @ part_bytes example_layout example_particle
            @ cell_bytes example_layout (example_cell\<lparr>ifirst := 1, ilast := 1\<rparr>)
            @ part_bytes example_layout (example_particle\<lparr>iorig := 1\<rparr>),
            export_sphtree\<lparr>ids_sent_particles := [[], [0, 1]]\<rparr>)"
    by (simp add: GetExportInfo_def export_sphtree_def example_sphtree_def example_tree_def
        export_sph_def example_sph_def resize_def copy_int_to_def copy_cell_to_def
        copy_part_to_def store_def int_bytes_def cell_bytes_def part_bytes_def sizeof_int_def
        example_layout_def first_particle_active_def example_cell_def example_particle_def
        upt_rec)
  from GetExportInfo_message_layout [OF run] run show ?thesis by simp
qed

text \<open>
  Claim C3, as stated, fails: for two cells with one active particle each, the
  message is count, count, cell, particle, cell, particle, and not the two cell
  records followed by the two particle records.
\<close>

theorem GetExportInfo_layout_counterexample:
  "(case GetExportInfo example_layout first_particle_active 1 export_sph [] export_sphtree of
      Inl e \<Rightarrow> False
    | Inr (n, buf, st') \<Rightarrow>
        buf \<noteq> spec_message example_layout first_particle_active (sphdata export_sph) 2 2
                 (cellexportlist export_sphtree ! 1)
      \<and> buf = int_bytes 2 @ int_bytes 2
               @ cell_bytes example_layout example_cell
               @ part_bytes example_layout example_particle
               @ cell_bytes example_layout (example_cell\<lparr>ifirst := 1, ilast := 1\<rparr>)
               @ part_bytes example_layout (example_particle\<lparr>iorig := 1\<rparr>))"
  by (simp add: GetExportInfo_def export_sphtree_def example_sphtree_def example_tree_def
        export_sph_def example_sph_def resize_def copy_int_to_def copy_cell_to_def
        copy_part_to_def store_def int_bytes_def cell_bytes_def part_bytes_def sizeof_int_def
        example_layout_def first_particle_active_def example_cell_def example_particle_def
        spec_message_def exported_particle_records_def upt_rec)

section \<open>Claim C4\<close>

lemma assign_components_nth:
  assumes "k < nat ndim" "nat ndim \<le> length xs"
  shows "assign_components ndim f xs ! k = f k"
proof -
  have "\<And>n xs. n \<le> length xs \<Longrightarrow> k < n \<Longrightarrow> fold (\<lambda>k ys. ys[k := f k]) [0..<n] xs ! k = f k"
  proof -
    fix n :: nat and xs :: "FLOAT list"
    show "n \<le> length xs \<Longrightarrow> k < n \<Longrightarrow> fold (\<lambda>k ys. ys[k := f k]) [0..<n] xs ! k = f k"
    proof (induction n)
      case 0
      then show ?case by simp
    next
      case (Suc n)
      have len: "length (fold (\<lambda>k ys. ys[k := f k]) [0..<n] xs) = length xs"
        by (induction n) simp_all
      show ?case
      proof (cases "k = n")
        case True
        then show ?thesis using Suc.prems len by simp
      next
        case False
        then have "k < n" using Suc.prems by simp
        then show ?thesis using Suc False by simp
      qed
    qed
  qed
  then show ?thesis using assms by (simp add: assign_components_def)
qed

text \<open>
  Claim C4, the code at a concrete input. With hydro forces and self-gravity both
  enabled, one particle and one dimension, a hydro pass that adds 1 to \<open>a\<close> and a
  gravity pass that adds 2 to \<open>agrav\<close>: after the force update the particle's
  \<open>a\<close> is 2, the gravitational part alone, and not 3.
\<close>

theorem force_update_pass_assigns_agrav:
  "\<exists>sph'. force_update_pass forces_methods 1 forces_params forces_sph = Inr sph'
         \<and> map part_a (sphdata sph') = [[Finite 2]]
         \<and> map agrav (sphdata sph') = [[Finite 2]]"
  by (simp add: force_update_pass_def forces_methods_def forces_params_def forces_sph_def
        forces_particle_def int_param_def zero_particle_def add_accelerations_particle_def
        assign_components_def)

section \<open>Claim C5\<close>

lemma smod_eq_0_iff_dvd:
  fixes n k :: int
  shows "n smod k = 0 \<longleftrightarrow> k dvd n"
proof -
  have "n smod k = 0 \<longleftrightarrow> \<bar>n\<bar> mod \<bar>k\<bar> = 0"
    by (auto simp: smod_int_alt_def sgn_if)
  also have "\<dots> \<longleftrightarrow> \<bar>k\<bar> dvd \<bar>n\<bar>"
    by (simp add: dvd_eq_mod_eq_0)
  finally show ?thesis by simp
qed

lemma int_rem_defined:
  assumes "k \<noteq> 0" "\<not> (n = - 2147483648 \<and> k = - 1)"
  shows "\<exists>r. int_rem n k = Inr r \<and> (r = 0 \<longleftrightarrow> k dvd n)"
  using assms by (auto simp: int_rem_def smod_eq_0_iff_dvd)

lemma AllocateMemory_eq: "AllocateMemory st = st\<lparr>allocated_buffer := True\<rparr>"
  by (cases "allocated_buffer st") (simp_all add: AllocateMemory_def)

lemma rebuild_tree_branch_eq:
  "rebuild_tree_branch M Npart Npartmax timestep sph st
       = (let sph' = DeleteDeadParticles M sph;
              Ntotmax' = max (max (st_Ntotmax st) (Ntot sph')) (Nsphmax sph');
              tree' = tree_BuildTree M Npart Npartmax (sphdata sph') timestep
                        ((tree st)\<lparr>tree_ifirst := 0, tree_ilast := Nsph sph' - 1,
                           tree_Ntot := Nsph sph',
                           tree_Ntotmaxold := tree_Ntotmax (tree st),
                           tree_Ntotmax :=
                             max (max (tree_Ntotmax (tree st)) (Nsph sph')) (Nsphmax sph')\<rparr>)
          in (sph',
              st\<lparr>tree := tree', allocated_buffer := True,
                 st_Ntot := Ntot sph', st_Ntotold := st_Ntot st,
                 st_Ntotmax := Ntotmax', st_Ntotmaxold := st_Ntotmax st,
                 cellexportlist :=
                   (if st_Ntotmax st < Ntotmax'
                    then map (\<lambda>old. new_cell_pointers M (gmax tree')) (cellexportlist st)
                    else cellexportlist st)\<rparr>))"
proof -
  define sph' where "sph' = DeleteDeadParticles M sph"
  define Ntotmax' where "Ntotmax' = max (max (st_Ntotmax st) (Ntot sph')) (Nsphmax sph')"
  define tree' where "tree' = tree_BuildTree M Npart Npartmax (sphdata sph') timestep
                        ((tree st)\<lparr>tree_ifirst := 0, tree_ilast := Nsph sph' - 1,
                           tree_Ntot := Nsph sph',
                           tree_Ntotmaxold := tree_Ntotmax (tree st),
                           tree_Ntotmax :=
                             max (max (tree_Ntotmax (tree st)) (Nsph sph')) (Nsphmax sph')\<rparr>)"
  have "rebuild_tree_branch M Npart Npartmax timestep sph st
        = (sph',
           (if st_Ntotmax st < Ntotmax'
            then (st\<lparr>st_Ntotold := st_Ntot st, st_Ntot := Ntot sph',
                   st_Ntotmaxold := st_Ntotmax st, st_Ntotmax := Ntotmax',
                   tree := tree', allocated_buffer := True\<rparr>)
                 \<lparr>cellexportlist := map (\<lambda>old. new_cell_pointers M (gmax tree')) (cellexportlist st)\<rparr>
            else st\<lparr>st_Ntotold := st_Ntot st, st_Ntot := Ntot sph',
                   st_Ntotmaxold := st_Ntotmax st, st_Ntotmax := Ntotmax',
                   tree := tree', allocated_buffer := True\<rparr>))"
    unfolding rebuild_tree_branch_def AllocateMemory_eq Let_def sph'_def [symmetric]
      Ntotmax'_def [symmetric]
    by (simp add: tree'_def)
  also have "\<dots> = (sph',
              st\<lparr>tree := tree', allocated_buffer := True,
                 st_Ntot := Ntot sph', st_Ntotold := st_Ntot st,
                 st_Ntotmax := Ntotmax', st_Ntotmaxold := st_Ntotmax st,
                 cellexportlist :=
                   (if st_Ntotmax st < Ntotmax'
                    then map (\<lambda>old. new_cell_pointers M (gmax tree')) (cellexportlist st)
                    else cellexportlist st)\<rparr>)"
    by (cases "st_Ntotmax st < Ntotmax'") simp_all
  finally show ?thesis
    unfolding Let_def sph'_def [symmetric] Ntotmax'_def [symmetric] tree'_def [symmetric] .
qed

text \<open>
  Claim C5, amended. On a call of \<open>BuildTree\<close> whose remainders are defined (the
  build cadence is not zero and the remainder is not \<open>INT_MIN % -1\<close>; the same for
  the stock cadence on the steps where the code reads it):

  \<^item> when the rebuild flag is set or \<open>n\<close> is a multiple of the build cadence, the
    dead particles are deleted, the counters of \<open>SphTree\<close> and of the tree are set
    from the particle counts, the tree's \<open>BuildTree\<close> builds the tree, the work
    buffers are allocated and, when \<open>Ntotmax\<close> has grown, every array of
    \<open>cellexportlist\<close> is allocated anew;
  \<^item> otherwise, when \<open>n\<close> is a multiple of the stock cadence, \<open>StockTree\<close> is
    applied to the tree and nothing else changes;
  \<^item> otherwise \<open>ExtrapolateCellProperties\<close> is applied to the tree and nothing else
    changes.
\<close>

theorem BuildTree_rebuild_stock_extrapolate:
  assumes "ntreebuildstep \<noteq> 0" "\<not> (n = - 2147483648 \<and> ntreebuildstep = - 1)"
    and "rebuild_tree \<or> ntreebuildstep dvd n
         \<or> (ntreestockstep \<noteq> 0 \<and> \<not> (n = - 2147483648 \<and> ntreestockstep = - 1))"
  shows "BuildTree M rebuild_tree n ntreebuildstep ntreestockstep Npart Npartmax timestep sph st
       = Inr (if rebuild_tree \<or> ntreebuildstep dvd n then
                (let sph' = DeleteDeadParticles M sph;
                     Ntotmax' = max (max (st_Ntotmax st) (Ntot sph')) (Nsphmax sph');
                     tree' = tree_BuildTree M Npart Npartmax (sphdata sph') timestep
                               ((tree st)\<lparr>tree_ifirst := 0, tree_ilast := Nsph sph' - 1,
                                  tree_Ntot := Nsph sph',
                                  tree_Ntotmaxold := tree_Ntotmax (tree st),
                                  tree_Ntotmax :=
                                    max (max (tree_Ntotmax (tree st)) (Nsph sph'))
                                        (Nsphmax sph')\<rparr>)
                 in (sph',
                     st\<lparr>tree := tree', allocated_buffer := True,
                        st_Ntot := Ntot sph', st_Ntotold := st_Ntot st,
                        st_Ntotmax := Ntotmax', st_Ntotmaxold := st_Ntotmax st,
                        cellexportlist :=
                          (if st_Ntotmax st < Ntotmax'
                           then map (\<lambda>old. new_cell_pointers M (gmax tree')) (cellexportlist st)
                           else cellexportlist st)\<rparr>))
              else if ntreestockstep dvd n then
                (sph, st\<lparr>tree := StockTree M (sphdata sph) (tree st)\<rparr>)
              else
                (sph, st\<lparr>tree := ExtrapolateCellProperties M timestep (tree st)\<rparr>))"
proof -
  from int_rem_defined [OF assms(1,2)] obtain r where
    r: "int_rem n ntreebuildstep = Inr r" "r = 0 \<longleftrightarrow> ntreebuildstep dvd n"
    by blast
  show ?thesis
  proof (cases "rebuild_tree \<or> ntreebuildstep dvd n")
    case True
    then have "r = 0 \<or> rebuild_tree" using r(2) by blast
    then have "BuildTree M rebuild_tree n ntreebuildstep ntreestockstep Npart Npartmax timestep sph st
               = Inr (rebuild_tree_branch M Npart Npartmax timestep sph st)"
      using r(1) by (simp add: BuildTree_def)
    then have "BuildTree M rebuild_tree n ntreebuildstep ntreestockstep Npart Npartmax timestep sph st
               = Inr (let sph' = DeleteDeadParticles M sph;
              Ntotmax' = max (max (st_Ntotmax st) (Ntot sph')) (Nsphmax sph');
              tree' = tree_BuildTree M Npart Npartmax (sphdata sph') timestep
                        ((tree st)\<lparr>tree_ifirst := 0, tree_ilast := Nsph sph' - 1,
                           tree_Ntot := Nsph sph',
                           tree_Ntotmaxold := tree_Ntotmax (tree st),
                           tree_Ntotmax :=
                             max (max (tree_Ntotmax (tree st)) (Nsph sph')) (Nsphmax sph')\<rparr>)
          in (sph',
              st\<lparr>tree := tree', allocated_buffer := True,
                 st_Ntot := Ntot sph', st_Ntotold := st_Ntot st,
                 st_Ntotmax := Ntotmax', st_Ntotmaxold := st_Ntotmax st,
                 cellexportlist :=
                   (if st_Ntotmax st < Ntotmax'
                    then map (\<lambda>old. new_cell_pointers M (gmax tree')) (cellexportlist st)
                    else cellexportlist st)\<rparr>))"
      unfolding rebuild_tree_branch_eq .
    then show ?thesis unfolding if_P [OF True] .
  next
    case False
    with assms(3) have "ntreestockstep \<noteq> 0" "\<not> (n = - 2147483648 \<and> ntreestockstep = - 1)"
      by blast+
    from int_rem_defined [OF this] obtain q where
      q: "int_rem n ntreestockstep = Inr q" "q = 0 \<longleftrightarrow> ntreestockstep dvd n"
      by blast
    from False r have r0: "r \<noteq> 0" "\<not> rebuild_tree" by blast+
    show ?thesis
      unfolding if_not_P [OF False]
      using r(1) r0 q by (simp add: BuildTree_def)
  qed
qed

text \<open>
  The theorem on the example inputs and methods, with the build cadence 10 and the
  stock cadence 4: a rebuild on the step 20, where \<open>Ntotmax\<close> grows from 4 to 6 and
  both arrays of \<open>cellexportlist\<close> are allocated anew; a rebuild on the step 3
  with the flag set; a stocking on the step 12; an extrapolation on the step 13.
\<close>

theorem BuildTree_rebuild_stock_extrapolate_witness:
  "BuildTree example_methods False 20 10 4 1 4 (Finite 1) (example_sph\<lparr>Nsphmax := 6\<rparr>)
     example_sphtree
   = Inr (example_sph\<lparr>Nsphmax := 6, Nghostmax := 0\<rparr>,
          example_sphtree
            \<lparr>tree := example_tree\<lparr>Ncell := 5, tree_Ntotmax := 6\<rparr>,
             allocated_buffer := True, st_Ntotmax := 6,
             cellexportlist := [[example_cell], [example_cell]]\<rparr>)
 \<and> BuildTree example_methods True 3 10 4 1 4 (Finite 1) example_sph example_sphtree
   = Inr (example_sph\<lparr>Nghostmax := 0\<rparr>,
          example_sphtree\<lparr>tree := example_tree\<lparr>Ncell := 5\<rparr>, allocated_buffer := True\<rparr>)
 \<and> BuildTree example_methods False 12 10 4 1 4 (Finite 1) example_sph example_sphtree
   = Inr (example_sph, example_sphtree\<lparr>tree := example_tree\<lparr>ltot := 7\<rparr>\<rparr>)
 \<and> BuildTree example_methods False 13 10 4 1 4 (Finite 1) example_sph example_sphtree
   = Inr (example_sph, example_sphtree\<lparr>tree := example_tree\<lparr>ltot := 9\<rparr>\<rparr>)"
  using BuildTree_rebuild_stock_extrapolate
          [where ntreebuildstep = 10 and n = 20 and rebuild_tree = False and ntreestockstep = 4
             and M = example_methods and Npart = 1 and Npartmax = 4 and timestep = "Finite 1"
             and sph = "example_sph\<lparr>Nsphmax := 6\<rparr>" and st = example_sphtree]
        BuildTree_rebuild_stock_extrapolate
          [where ntreebuildstep = 10 and n = 3 and rebuild_tree = True and ntreestockstep = 4
             and M = example_methods and Npart = 1 and Npartmax = 4 and timestep = "Finite 1"
             and sph = example_sph and st = example_sphtree]
        BuildTree_rebuild_stock_extrapolate
          [where ntreebuildstep = 10 and n = 12 and rebuild_tree = False and ntreestockstep = 4
             and M = example_methods and Npart = 1 and Npartmax = 4 and timestep = "Finite 1"
             and sph = example_sph and st = example_sphtree]
        BuildTree_rebuild_stock_extrapolate
          [where ntreebuildstep = 10 and n = 13 and rebuild_tree = False and ntreestockstep = 4
             and M = example_methods and Npart = 1 and Npartmax = 4 and timestep = "Finite 1"
             and sph = example_sph and st = example_sphtree]
  by (simp add: example_methods_def example_sph_def example_sphtree_def example_tree_def
        Let_def)

text \<open>
  Claim C5, as stated, fails. With the rebuild flag set and a build cadence of
  zero the tree is not rebuilt: the code takes the remainder \<open>n % 0\<close>, which is
  undefined, before it reads the flag. With the step counter \<open>INT_MIN\<close>, a multiple
  of the build cadence \<open>-1\<close>, the tree is not rebuilt either: \<open>INT_MIN % -1\<close> is
  undefined.
\<close>

theorem BuildTree_zero_cadence_counterexample:
  "BuildTree example_methods True 3 0 4 1 4 (Finite 1) example_sph example_sphtree
     = Inl DivisionByZero
 \<and> BuildTree example_methods False (- 2147483648) (- 1) 4 1 4 (Finite 1) example_sph
      example_sphtree
     = Inl SignedOverflow"
  by (simp add: BuildTree_def int_rem_def)

section \<open>Claim C6\<close>

text \<open>
  What the loops of \<open>GetBackExportInfo\<close> leave in the send buffer: the records of
  the particles from the index \<open>Nsph + Nghost + removed_particles\<close> on, one after
  the other.
\<close>

lemma copy_part_to_at_end:
  assumes "copy_part_to lay (pre @ rest) (int (length pre)) p = Inr buf"
  shows "sizeof_part lay \<le> length rest \<and> buf = (pre @ part_bytes lay p) @ drop (sizeof_part lay) rest"
  using assms by (auto simp: copy_part_to_def store_at_end length_part_bytes split: if_splits)

lemma length_concat_part_bytes:
  "length (concat (map (\<lambda>k. part_bytes lay (f k)) ks)) = length ks * sizeof_part lay"
  by (induction ks) (simp_all add: length_part_bytes)

lemma pack_particles_content:
  assumes "pack_particles lay ps removed n i j (pre @ rest) = Inr (j', buf')"
    and "int (length pre) = (removed + j) * int (sizeof_part lay)"
    and "0 \<le> i"
  shows "n * sizeof_part lay \<le> length rest
       \<and> buf' = pre @ concat (map (\<lambda>k. part_bytes lay (ps ! k)) [nat i..<nat i + n])
                 @ drop (n * sizeof_part lay) rest"
  using assms
proof (induction n arbitrary: i j pre rest)
  case 0
  then show ?case by simp
next
  case (Suc n)
  let ?pb = "part_bytes lay (ps ! nat i)"
  from Suc.prems(1) obtain buf1 where
    s: "copy_part_to lay (pre @ rest) ((removed + j) * int (sizeof_part lay)) (ps ! nat i) = Inr buf1"
    and r: "pack_particles lay ps removed n (i + 1) (j + 1) buf1 = Inr (j', buf')"
    by (auto split: sum.splits if_splits)
  from copy_part_to_at_end [OF s [folded Suc.prems(2)]]
  have len: "sizeof_part lay \<le> length rest"
    and b1: "buf1 = (pre @ ?pb) @ drop (sizeof_part lay) rest"
    by simp_all
  have l1: "int (length (pre @ ?pb)) = (removed + (j + 1)) * int (sizeof_part lay)"
    using Suc.prems(2) by (simp add: length_part_bytes algebra_simps)
  have i1: "0 \<le> i + 1" using Suc.prems(3) by simp
  note IH = Suc.IH [OF r [unfolded b1] l1 i1]
  have ni: "nat (i + 1) = Suc (nat i)" using Suc.prems(3) by simp
  have up: "[nat i..<nat i + Suc n] = nat i # [Suc (nat i)..<Suc (nat i) + n]"
    by (subst upt_rec) simp
  have a: "n * sizeof_part lay \<le> length rest - sizeof_part lay"
    using IH by simp
  have b: "buf' = (pre @ ?pb) @ concat (map (\<lambda>k. part_bytes lay (ps ! k))
                                     [Suc (nat i)..<Suc (nat i) + n])
                 @ drop (n * sizeof_part lay) (drop (sizeof_part lay) rest)"
    using IH unfolding ni by blast
  have d: "drop (n * sizeof_part lay) (drop (sizeof_part lay) rest)
           = drop (Suc n * sizeof_part lay) rest"
    by (simp add: add.commute)
  show ?case
  proof
    show "Suc n * sizeof_part lay \<le> length rest" using a len by simp
    show "buf' = pre @ concat (map (\<lambda>k. part_bytes lay (ps ! k)) [nat i..<nat i + Suc n])
                 @ drop (Suc n * sizeof_part lay) rest"
      unfolding up b d by simp
  qed
qed


lemma pack_procs_content:
  assumes "pack_procs lay ids Nproc counts (removed, pre @ rest, nbe, nbt, sph)
           = Inr (removed', buf', nbe', nbt', sph')"
    and "int (length pre) = removed * int (sizeof_part lay)"
    and "0 \<le> removed" "0 \<le> Nsph sph + Nghost sph"
  shows "nat (sum_list counts) * sizeof_part lay \<le> length rest
       \<and> buf' = pre @ concat (map (\<lambda>k. part_bytes lay (sphdata sph ! k))
                    [nat (Nsph sph + Nghost sph + removed)..<
                     nat (Nsph sph + Nghost sph + removed) + nat (sum_list counts)])
                 @ drop (nat (sum_list counts) * sizeof_part lay) rest"
  using assms
proof (induction counts arbitrary: Nproc removed pre rest nbe nbt sph)
  case Nil
  then show ?case by simp
next
  case (Cons c counts)
  let ?S = "Nsph sph + Nghost sph"
  let ?sz = "sizeof_part lay"
  let ?f = "\<lambda>k. part_bytes lay (sphdata sph ! k)"
  from pack_procs_Inr [OF Cons.prems(1)] have nonneg: "\<forall>x \<in> set (c # counts). 0 \<le> x"
    by simp
  then have c0: "0 \<le> c" and s0: "0 \<le> sum_list counts"
    by (simp_all add: sum_list_nonneg)
  from Cons.prems(1) obtain j buf1 where
    p: "pack_particles lay (sphdata sph) removed (nat c) (?S + removed) 0 (pre @ rest)
        = Inr (j, buf1)"
    by (auto split: sum.splits)
  from Cons.prems(1) p have jc: "j = c"
    by (auto split: if_splits)
  define sph1 where
    "sph1 = sph\<lparr>Ntot := Ntot sph - c, NImportedParticles := NImportedParticles sph - c\<rparr>"
  have e: "Nsph sph1 = Nsph sph" "Nghost sph1 = Nghost sph" "sphdata sph1 = sphdata sph"
    by (simp_all add: sph1_def)
  from Cons.prems(1) p jc obtain nbe1 nbt1 where
    r: "pack_procs lay ids (Suc Nproc) counts (removed + c, buf1, nbe1, nbt1, sph1)
        = Inr (removed', buf', nbe', nbt', sph')"
    unfolding sph1_def by (auto split: if_splits)
  have l0: "int (length pre) = (removed + 0) * int ?sz"
    using Cons.prems(2) by simp
  have i0: "0 \<le> ?S + removed" using Cons.prems(3,4) by simp
  note P = pack_particles_content [OF p l0 i0]
  let ?a = "nat (?S + removed)"
  let ?new1 = "concat (map ?f [?a..<?a + nat c])"
  let ?rest1 = "drop (nat c * ?sz) rest"
  have len1: "nat c * ?sz \<le> length rest" using P by simp
  have b1: "buf1 = (pre @ ?new1) @ ?rest1" using P by simp
  have l1: "int (length (pre @ ?new1)) = (removed + c) * int ?sz"
    using Cons.prems(2) c0 by (simp add: length_concat_part_bytes algebra_simps)
  have r0: "0 \<le> removed + c" using Cons.prems(3) c0 by simp
  have S': "0 \<le> Nsph sph1 + Nghost sph1"
    using Cons.prems(4) unfolding e .
  let ?m = "nat (sum_list counts)"
  have a2: "nat (?S + (removed + c)) = ?a + nat c"
    using i0 c0 by (simp add: nat_add_distrib)
  note IH = Cons.IH [OF r [unfolded b1] l1 r0 S', unfolded e a2]
  have len2: "?m * ?sz \<le> length ?rest1" using IH by (rule conjunct1)
  have b2: "buf' = (pre @ ?new1) @ concat (map ?f [?a + nat c..<?a + nat c + ?m])
                   @ drop (?m * ?sz) ?rest1"
    using IH by (rule conjunct2)
  have tot: "nat (sum_list (c # counts)) = nat c + ?m"
    using c0 s0 by (simp add: nat_add_distrib)
  have rng: "[?a..<?a + (nat c + ?m)] = [?a..<?a + nat c] @ [?a + nat c..<?a + nat c + ?m]"
    unfolding add.assoc [symmetric] by (rule upt_add_eq_append) simp
  have d: "drop (?m * ?sz) ?rest1 = drop ((nat c + ?m) * ?sz) rest"
    by (simp add: distrib_right add.commute)
  show ?case
  proof
    show "nat (sum_list (c # counts)) * ?sz \<le> length rest"
      unfolding tot using len1 len2 by (simp add: algebra_simps)
    show "buf' = pre @ concat (map ?f [?a..<?a + nat (sum_list (c # counts))])
                 @ drop (nat (sum_list (c # counts)) * ?sz) rest"
      unfolding tot rng b2 d by simp
  qed
qed

text \<open>
  What the loops of \<open>UnpackExported\<close> store: the particle records of the message,
  in the order of the message, from \<open>particle_index\<close> on.
\<close>

lemma take_drop_cong:
  assumes "take (a + m) xs = take (a + m) ys"
  shows "take m (drop a xs) = take m (drop a ys)" "take a xs = take a ys"
proof -
  have "take m (drop a xs) = drop a (take (a + m) xs)" by (simp add: take_drop add.commute)
  also have "\<dots> = drop a (take (a + m) ys)" using assms by simp
  also have "\<dots> = take m (drop a ys)" by (simp add: take_drop add.commute)
  finally show "take m (drop a xs) = take m (drop a ys)" .
  have "take a xs = take a (take (a + m) xs)" by (simp add: min_def)
  also have "\<dots> = take a (take (a + m) ys)" using assms by simp
  also have "\<dots> = take a ys" by (simp add: min_def)
  finally show "take a xs = take a ys" .
qed

lemma unpack_particles_content:
  assumes "unpack_particles lay buf n (off, pidx, ps, nx) = Inr (off', pidx', ps', nx')"
    and "0 \<le> pidx"
  shows "pidx' = pidx + int n
       \<and> off' = off + int n * int (sizeof_part lay)
       \<and> length ps' = length ps
       \<and> take (nat pidx) ps' = take (nat pidx) ps
       \<and> length (particles_at lay buf n off) = n
       \<and> take n (drop (nat pidx) ps') = particles_at lay buf n off"
  using assms
proof (induction n arbitrary: off pidx ps nx)
  case 0
  then show ?case by simp
next
  case (Suc n)
  from Suc.prems(1) obtain p where
    c: "copy_part_from lay buf off = Inr p"
    and inr: "pidx < int (length ps)"
    and r: "unpack_particles lay buf n
          (off + int (sizeof_part lay), pidx + 1, ps[nat pidx := p], nx[nat pidx := pidx + 1])
        = Inr (off', pidx', ps', nx')"
    by (auto split: sum.splits if_splits)
  have p1: "0 \<le> pidx + 1" using Suc.prems(2) by simp
  note IH = Suc.IH [OF r p1]
  have n1: "nat (pidx + 1) = nat pidx + 1" using Suc.prems(2) by simp
  have k: "nat pidx < length ps" using inr Suc.prems(2) by simp
  have len: "length ps' = length ps" using IH by simp
  have tk: "take (nat pidx + 1) ps' = take (nat pidx + 1) (ps[nat pidx := p])"
    using IH unfolding n1 by blast
  have hd1: "take 1 (drop (nat pidx) ps') = [p]"
    unfolding take_drop_cong(1) [OF tk] using k
    by (simp add: take_Suc_conv_app_nth drop_update_cancel Cons_nth_drop_Suc [symmetric])
  have tk0: "take (nat pidx) ps' = take (nat pidx) ps"
    unfolding take_drop_cong(2) [OF tk] by simp
  have rest: "take n (drop (nat pidx + 1) ps')
              = particles_at lay buf n (off + int (sizeof_part lay))"
    using IH unfolding n1 by blast
  have ln: "length (particles_at lay buf n (off + int (sizeof_part lay))) = n"
    using IH by blast
  have sp: "take (Suc n) (drop (nat pidx) ps')
            = take 1 (drop (nat pidx) ps') @ take n (drop (nat pidx + 1) ps')"
    using take_add [of 1 n "drop (nat pidx) ps'"] by (simp add: add.commute)
  have pa: "particles_at lay buf (Suc n) off
            = p # particles_at lay buf n (off + int (sizeof_part lay))"
    using c by simp
  have o: "off' = off + int (Suc n) * int (sizeof_part lay)"
    using IH by (simp add: algebra_simps)
  have pi: "pidx' = pidx + int (Suc n)" using IH by simp
  show ?case
    unfolding sp hd1 rest pa using o pi len tk0 ln by simp
qed

lemma unpack_cells_content:
  assumes "unpack_cells lay buf Ntot' Ncelltot' n icell (off, pidx, ps, nx, cells)
           = Inr (off', pidx', ps', nx', cells')"
    and "0 \<le> pidx"
  shows "pidx' = pidx + int (length (cell_particles_at lay buf n off))
       \<and> off' = cells_end lay buf n off
       \<and> length ps' = length ps
       \<and> take (nat pidx) ps' = take (nat pidx) ps
       \<and> take (length (cell_particles_at lay buf n off)) (drop (nat pidx) ps')
           = cell_particles_at lay buf n off"
  using assms
proof (induction n arbitrary: icell off pidx ps nx cells)
  case 0
  then show ?case by simp
next
  case (Suc n)
  from Suc.prems(1) obtain c where
    c: "copy_cell_from lay buf off = Inr c"
    by (auto split: sum.splits if_splits)
  let ?m = "nat (Nactive c)"
  let ?P = "particles_at lay buf ?m (off + int (sizeof_cell lay))"
  from Suc.prems(1) c obtain off1 pidx1 ps1 nx1 where
    u: "unpack_particles lay buf ?m (off + int (sizeof_cell lay), pidx, ps, nx)
        = Inr (off1, pidx1, ps1, nx1)"
    by (auto simp: Let_def split: sum.splits if_splits)
  from Suc.prems(1) c u obtain cells1 where
    r: "unpack_cells lay buf Ntot' Ncelltot' n (icell + 1) (off1, pidx1, ps1, nx1, cells1)
        = Inr (off', pidx', ps', nx', cells')"
    by (auto simp: Let_def split: sum.splits if_splits)
  note U = unpack_particles_content [OF u Suc.prems(2)]
  have pidx1: "pidx1 = pidx + int ?m" using U by blast
  have off1: "off1 = off + int (sizeof_cell lay) + int ?m * int (sizeof_part lay)"
    using U by blast
  have len1: "length ps1 = length ps" using U by blast
  have tk1: "take (nat pidx) ps1 = take (nat pidx) ps" using U by blast
  have lP: "length ?P = ?m" using U by blast
  have P: "take ?m (drop (nat pidx) ps1) = ?P" using U by blast
  have p1: "0 \<le> pidx1" using pidx1 Suc.prems(2) by simp
  note IH = Suc.IH [OF r p1]
  let ?L = "cell_particles_at lay buf n off1"
  have n1: "nat pidx1 = nat pidx + ?m" using pidx1 Suc.prems(2) by (simp add: nat_add_distrib)
  have pidx': "pidx' = pidx1 + int (length ?L)" using IH by blast
  have len: "length ps' = length ps1" using IH by blast
  have tk: "take (nat pidx + ?m) ps' = take (nat pidx + ?m) ps1" using IH unfolding n1 by blast
  have L: "take (length ?L) (drop (nat pidx + ?m) ps') = ?L" using IH unfolding n1 by blast
  have ca: "cell_particles_at lay buf (Suc n) off = ?P @ ?L"
    using c unfolding off1 by simp
  have sp: "take (?m + length ?L) (drop (nat pidx) ps')
            = take ?m (drop (nat pidx) ps') @ take (length ?L) (drop (nat pidx + ?m) ps')"
    using take_add [of ?m "length ?L" "drop (nat pidx) ps'"] by (simp add: add.commute)
  have t1: "take ?m (drop (nat pidx) ps') = ?P"
    unfolding take_drop_cong(1) [OF tk] by (rule P)
  have t0: "take (nat pidx) ps' = take (nat pidx) ps"
    unfolding take_drop_cong(2) [OF tk] by (rule tk1)
  have lca: "length (cell_particles_at lay buf (Suc n) off) = ?m + length ?L"
    unfolding ca using lP by simp
  have ce: "cells_end lay buf (Suc n) off = cells_end lay buf n off1"
    using c unfolding off1 by simp
  have oe: "off' = cells_end lay buf n off1" using IH by blast
  show ?case
    unfolding lca sp t1 L ce using pidx' pidx1 len len1 t0 ca oe by simp
qed


text \<open>What one peer's message, and then all of them, leave in the particle array.\<close>

lemma take_drop_append:
  assumes "take a ys = take a xs" "take m (drop a ys) = L" "length L = m"
    and "take (a + m) zs = take (a + m) ys" "take k (drop (a + m) zs) = K"
  shows "take a zs = take a xs" "take (m + k) (drop a zs) = L @ K"
proof -
  show "take a zs = take a xs"
    using take_drop_cong(2) [OF assms(4)] assms(1) by simp
  have "take (m + k) (drop a zs) = take m (drop a zs) @ take k (drop (a + m) zs)"
    using take_add [of m k "drop a zs"] by (simp add: add.commute)
  also have "take m (drop a zs) = L"
    using take_drop_cong(1) [OF assms(4)] assms(2) by simp
  finally show "take (m + k) (drop a zs) = L @ K" using assms(5) by simp
qed

lemma unpack_procs_content:
  assumes "unpack_procs lay buf Nproc nbytes (off, sph, st) = Inr (Returns (off', sph', st'))"
    and "0 \<le> Ntot sph"
    and "headers_count_particles (import_messages lay buf nbytes off)"
  shows "Ntot sph'
           = Ntot sph + int (length (concat (map snd (import_messages lay buf nbytes off))))
       \<and> length (sphdata sph') = length (sphdata sph)
       \<and> take (nat (Ntot sph)) (sphdata sph') = take (nat (Ntot sph)) (sphdata sph)
       \<and> take (length (concat (map snd (import_messages lay buf nbytes off))))
            (drop (nat (Ntot sph)) (sphdata sph'))
           = concat (map snd (import_messages lay buf nbytes off))"
  using assms
proof (induction nbytes arbitrary: Nproc off sph st)
  case Nil
  then show ?case by simp
next
  case (Cons nb nbytes)
  from Cons.prems(1) obtain off1 sph1 st1 where
    p: "unpack_proc lay buf Nproc nb (off, sph, st) = Inr (Returns (off1, sph1, st1))"
    and r: "unpack_procs lay buf (Suc Nproc) nbytes (off1, sph1, st1)
            = Inr (Returns (off', sph', st'))"
    by (auto split: sum.splits ending.splits)
  show ?case
  proof (cases "nb = 0")
    case True
    with p have e: "off1 = off" "sph1 = sph" by (simp_all add: unpack_proc_zero)
    have m: "import_messages lay buf (nb # nbytes) off = (0, []) # import_messages lay buf nbytes off"
      using True by simp
    have h: "headers_count_particles (import_messages lay buf nbytes off)"
      using Cons.prems(3) unfolding m by (simp add: headers_count_particles_def)
    from Cons.IH [OF r [unfolded e] Cons.prems(2) h] show ?thesis
      unfolding m by simp
  next
    case False
    from p False show ?thesis
    proof (rule unpack_proc_ReturnsE)
      fix np ncl pidx ps nx cells
      assume np: "copy_int_from lay buf off = Inr np"
        and ncl: "copy_int_from lay buf (off + int sizeof_int) = Inr ncl"
        and u: "unpack_cells lay buf (Ntot sph) (Ncelltot (tree st)) (nat ncl) 0
                  (off + 2 * int sizeof_int, Ntot sph, sphdata sph, inext (tree st),
                   celldata (tree st))
                = Inr (off1, pidx, ps, nx, cells)"
        and s1: "sph1 = sph\<lparr>sphdata := ps, Ntot := Ntot sph + np,
                              NImportedParticles := NImportedParticles sph + np\<rparr>"
      let ?L = "cell_particles_at lay buf (nat ncl) (off + 2 * int sizeof_int)"
      let ?rest = "import_messages lay buf nbytes off1"
      let ?K = "concat (map snd ?rest)"
      let ?a = "nat (Ntot sph)"
      note U = unpack_cells_content [OF u Cons.prems(2)]
      have o1: "off1 = cells_end lay buf (nat ncl) (off + 2 * int sizeof_int)" using U by blast
      have m: "import_messages lay buf (nb # nbytes) off = (np, ?L) # ?rest"
        using False np ncl o1 by simp
      have h0: "np = int (length ?L)" and h: "headers_count_particles ?rest"
        using Cons.prems(3) unfolding m by (simp_all add: headers_count_particles_def)
      have l1: "length ps = length (sphdata sph)" using U by blast
      have t1: "take ?a ps = take ?a (sphdata sph)" using U by blast
      have d1: "take (length ?L) (drop ?a ps) = ?L" using U by blast
      have n1: "Ntot sph1 = Ntot sph + int (length ?L)" "sphdata sph1 = ps"
        using s1 h0 by simp_all
      have p1: "0 \<le> Ntot sph1" using n1 Cons.prems(2) by simp
      have a1: "nat (Ntot sph1) = ?a + length ?L"
        using n1 Cons.prems(2) by (simp add: nat_add_distrib)
      note IH = Cons.IH [OF r p1 h, unfolded a1 n1(2)]
      have n': "Ntot sph' = Ntot sph1 + int (length ?K)" using IH by blast
      have l': "length (sphdata sph') = length ps" using IH by blast
      have t': "take (?a + length ?L) (sphdata sph') = take (?a + length ?L) ps"
        using IH by blast
      have d': "take (length ?K) (drop (?a + length ?L) (sphdata sph')) = ?K"
        using IH by blast
      note A = take_drop_append [OF t1 d1 refl t' d']
      have c: "concat (map snd (import_messages lay buf (nb # nbytes) off)) = ?L @ ?K"
        unfolding m by simp
      show ?thesis
        unfolding c using n' n1 l' l1 A by simp
    qed
  qed
qed

lemma map_nth_range:
  assumes "length (take m (drop a xs)) = m"
  shows "map (\<lambda>k. f (xs ! k)) [a..<a + m] = map f (take m (drop a xs))"
proof (rule nth_equalityI)
  show "length (map (\<lambda>k. f (xs ! k)) [a..<a + m]) = length (map f (take m (drop a xs)))"
    using assms by simp
next
  fix i
  assume "i < length (map (\<lambda>k. f (xs ! k)) [a..<a + m])"
  then have i: "i < m" by simp
  from assms have "m \<le> length xs - a" by simp
  with i have "a + i < length xs" by simp
  with i show "map (\<lambda>k. f (xs ! k)) [a..<a + m] ! i = map f (take m (drop a xs)) ! i"
    using assms by simp
qed

text \<open>The send buffer of \<open>GetBackExportInfo\<close> when it returns.\<close>

lemma GetBackExportInfo_content:
  assumes run: "GetBackExportInfo lay send_buffer nbe nbt sph st
                = Inr (send_buffer', nbe', nbt', sph', st')"
    and nonneg: "0 \<le> Nsph sph + Nghost sph"
  shows "NImportedParticles sph = sum_list (N_imported_part_per_proc st)
       \<and> send_buffer'
           = concat (map (\<lambda>k. part_bytes lay (sphdata sph ! k))
                      [nat (Nsph sph + Nghost sph)..<
                       nat (Nsph sph + Nghost sph) + nat (NImportedParticles sph)])"
proof -
  let ?sz = "sizeof_part lay"
  let ?counts = "N_imported_part_per_proc st"
  from run obtain removed where
    body: "GetBackExportInfo_body lay send_buffer nbe nbt sph st
           = Inr (removed, send_buffer', nbe', nbt', sph', st')"
    and a1: "NImportedParticles sph' = 0"
    and a3: "int (length send_buffer') = removed * int ?sz"
    by (auto simp: GetBackExportInfo_def split: sum.splits prod.splits if_splits)
  from body obtain buf0 where
    rs: "resize send_buffer (NImportedParticles sph * int ?sz) = Inr buf0"
    and pp: "pack_procs lay (ids_sent_particles st) 0 ?counts (0, [] @ buf0, nbe, nbt, sph)
             = Inr (removed, send_buffer', nbe', nbt', sph')"
    by (auto simp: GetBackExportInfo_body_def Let_def split: sum.splits prod.splits)
  note P = pack_procs_Inr [OF pp]
  have rem: "removed = sum_list ?counts" using P by simp
  have imp: "NImportedParticles sph = sum_list ?counts" using P a1 by simp
  have pos: "\<forall>c \<in> set ?counts. 0 \<le> c" using P by blast
  then have s0: "0 \<le> sum_list ?counts" by (simp add: sum_list_nonneg)
  have l0: "int (length ([]::mbyte list)) = 0 * int ?sz" by simp
  have z: "(0::int) \<le> 0" by simp
  note C = pack_procs_content [OF pp l0 z nonneg]
  let ?new = "concat (map (\<lambda>k. part_bytes lay (sphdata sph ! k))
                [nat (Nsph sph + Nghost sph)..<
                 nat (Nsph sph + Nghost sph) + nat (sum_list ?counts)])"
  have b: "send_buffer' = ?new @ drop (nat (sum_list ?counts) * ?sz) buf0"
    using C by simp
  have ln: "length ?new = nat (sum_list ?counts) * ?sz"
    by (simp add: length_concat_part_bytes)
  have "int (length send_buffer') = int (nat (sum_list ?counts) * ?sz)"
    using a3 rem s0 by simp
  then have "length send_buffer' = nat (sum_list ?counts) * ?sz"
    by (simp only: of_nat_eq_iff)
  then have "length send_buffer' = length ?new" unfolding ln .
  then have "drop (nat (sum_list ?counts) * ?sz) buf0 = []"
    unfolding b by simp
  then have "send_buffer' = ?new" using b by simp
  then show ?thesis using imp by simp
qed


text \<open>
  An import and the packing of its return: the payload is the particle records of
  the export messages, in their order.
\<close>

lemma import_then_pack:
  assumes start: "Ntot sph = Nsph sph + Nghost sph" "0 \<le> Nsph sph + Nghost sph"
    and unpack: "UnpackExported lay received_array Nbytes sph st
                 = Inr (Returns (sph_imported, st_imported))"
    and headers: "headers_count_particles (import_messages lay received_array Nbytes 0)"
    and pack: "GetBackExportInfo lay send_buffer nbe nbt sph_imported st_imported
               = Inr (send_buffer', nbe', nbt', sph', st')"
  shows "send_buffer'
         = concat (map (part_bytes lay)
                     (concat (map snd (import_messages lay received_array Nbytes 0))))"
proof -
  let ?L = "concat (map snd (import_messages lay received_array Nbytes 0))"
  let ?s0 = "unpack_start Nbytes sph st"
  from unpack have imp0: "NImportedParticles sph = 0"
    by (auto simp: UnpackExported_def split: if_splits)
  from unpack obtain off where
    u: "unpack_procs lay received_array 0 Nbytes ?s0 = Inr (Returns (off, sph_imported, st_imported))"
    by (auto simp: UnpackExported_def split: if_splits sum.splits ending.splits prod.splits)
  have s0: "?s0 = (0, sph,
      st\<lparr>tree := (tree st)\<lparr>Nimportedcell := 0, Ncelltot := Ncell (tree st)\<rparr>,
         N_imported_part_per_proc := resize_ints (N_imported_part_per_proc st) (length Nbytes)\<rparr>)"
    by (simp add: unpack_start_def)
  have len: "length (N_imported_part_per_proc
      (st\<lparr>tree := (tree st)\<lparr>Nimportedcell := 0, Ncelltot := Ncell (tree st)\<rparr>,
         N_imported_part_per_proc := resize_ints (N_imported_part_per_proc st) (length Nbytes)\<rparr>))
      = 0 + length Nbytes"
    by (simp add: resize_ints_def)
  note R = unpack_procs_Returns [OF u [unfolded s0] len]
  have nt: "0 \<le> Ntot sph" using start by simp
  note C = unpack_procs_content [OF u [unfolded s0] nt headers]
  let ?sum = "sum_list (N_imported_part_per_proc st_imported)"
  have r1: "Nsph sph_imported = Nsph sph" "Nghost sph_imported = Nghost sph"
    "Ntot sph_imported = Ntot sph + ?sum"
    using R by simp_all
  have c1: "Ntot sph_imported = Ntot sph + int (length ?L)"
    and c2: "take (length ?L) (drop (nat (Ntot sph)) (sphdata sph_imported)) = ?L"
    using C by blast+
  have sum: "?sum = int (length ?L)" using r1(3) c1 by simp
  have nn: "0 \<le> Nsph sph_imported + Nghost sph_imported" using r1 start by simp
  note G = GetBackExportInfo_content [OF pack nn]
  have imp: "NImportedParticles sph_imported = int (length ?L)" using G sum by simp
  have a: "nat (Nsph sph_imported + Nghost sph_imported) = nat (Ntot sph)"
    using r1 start by simp
  have "send_buffer' = concat (map (\<lambda>k. part_bytes lay (sphdata sph_imported ! k))
                         [nat (Ntot sph)..<nat (Ntot sph) + length ?L])"
    using G unfolding a imp by simp
  also have "map (\<lambda>k. part_bytes lay (sphdata sph_imported ! k))
               [nat (Ntot sph)..<nat (Ntot sph) + length ?L]
             = map (part_bytes lay) (take (length ?L) (drop (nat (Ntot sph)) (sphdata sph_imported)))"
    by (rule map_nth_range) (simp only: c2)
  finally show ?thesis unfolding c2 .
qed

text \<open>
  Claim C6, amended. When \<open>GetBackExportInfo\<close> returns, the send buffer is the
  complete record (all \<open>sizeof(ParticleType)\<close> bytes, so every field and not only
  the result fields) of each imported particle, in the order of the imported range
  of the particle array: the \<open>NImportedParticles\<close> entries that follow the local
  particles and the ghosts. And that order is the order of the export messages:
  when \<open>UnpackExported\<close> has returned on messages whose headers announce the
  particles that their cells bring, from a state in which the particle array ends
  with the ghosts, and \<open>GetBackExportInfo\<close> then returns, the send buffer is the
  records of the particles of the messages, message after message and in the order
  of each message.
\<close>

theorem GetBackExportInfo_sends_whole_records:
  "(GetBackExportInfo lay send_buffer nbe nbt sph st
      = Inr (send_buffer', nbe', nbt', sph', st')
    \<longrightarrow> 0 \<le> Nsph sph + Nghost sph
    \<longrightarrow> NImportedParticles sph = sum_list (N_imported_part_per_proc st)
        \<and> send_buffer'
            = concat (map (\<lambda>k. part_bytes lay (sphdata sph ! k))
                       [nat (Nsph sph + Nghost sph)..<
                        nat (Nsph sph + Nghost sph) + nat (NImportedParticles sph)]))
 \<and> (Ntot sph_local = Nsph sph_local + Nghost sph_local
    \<longrightarrow> 0 \<le> Nsph sph_local + Nghost sph_local
    \<longrightarrow> UnpackExported lay received_array Nbytes sph_local st_local = Inr (Returns (sph, st))
    \<longrightarrow> headers_count_particles (import_messages lay received_array Nbytes 0)
    \<longrightarrow> GetBackExportInfo lay send_buffer nbe nbt sph st
          = Inr (send_buffer', nbe', nbt', sph', st')
    \<longrightarrow> send_buffer'
          = concat (map (part_bytes lay)
                      (concat (map snd (import_messages lay received_array Nbytes 0)))))"
proof (rule conjI; intro impI)
  assume "GetBackExportInfo lay send_buffer nbe nbt sph st
          = Inr (send_buffer', nbe', nbt', sph', st')"
    and "0 \<le> Nsph sph + Nghost sph"
  then show "NImportedParticles sph = sum_list (N_imported_part_per_proc st)
        \<and> send_buffer'
            = concat (map (\<lambda>k. part_bytes lay (sphdata sph ! k))
                       [nat (Nsph sph + Nghost sph)..<
                        nat (Nsph sph + Nghost sph) + nat (NImportedParticles sph)])"
    by (rule GetBackExportInfo_content)
next
  assume "Ntot sph_local = Nsph sph_local + Nghost sph_local"
    and "0 \<le> Nsph sph_local + Nghost sph_local"
    and "UnpackExported lay received_array Nbytes sph_local st_local = Inr (Returns (sph, st))"
    and "headers_count_particles (import_messages lay received_array Nbytes 0)"
    and "GetBackExportInfo lay send_buffer nbe nbt sph st
         = Inr (send_buffer', nbe', nbt', sph', st')"
  then show "send_buffer'
          = concat (map (part_bytes lay)
                      (concat (map snd (import_messages lay received_array Nbytes 0))))"
    by (rule import_then_pack)
qed

text \<open>
  The theorem on the example inputs: the receiver that holds one imported particle
  sends back that particle's whole record; and the receiver that imports the
  message with two cells of one particle each sends back the records of the two
  particles, in the order of the message.
\<close>

theorem GetBackExportInfo_sends_whole_records_witness:
  "(\<exists>nbe' nbt' sph' st'.
     GetBackExportInfo example_layout [] [0, 0] [0, 0] holding_sph holding_sphtree
       = Inr (part_bytes example_layout returned_particle, nbe', nbt', sph', st')
   \<and> 0 \<le> Nsph holding_sph + Nghost holding_sph
   \<and> NImportedParticles holding_sph = sum_list (N_imported_part_per_proc holding_sphtree)
   \<and> part_bytes example_layout returned_particle
       = concat (map (\<lambda>k. part_bytes example_layout (sphdata holding_sph ! k))
                  [nat (Nsph holding_sph + Nghost holding_sph)..<
                   nat (Nsph holding_sph + Nghost holding_sph)
                   + nat (NImportedParticles holding_sph)]))
 \<and> (\<exists>sph st send_buffer' nbe' nbt' sph' st'.
     Ntot example_sph = Nsph example_sph + Nghost example_sph
   \<and> 0 \<le> Nsph example_sph + Nghost example_sph
   \<and> UnpackExported example_layout import_message [0, 18] example_sph example_sphtree
       = Inr (Returns (sph, st))
   \<and> headers_count_particles (import_messages example_layout import_message [0, 18] 0)
   \<and> import_messages example_layout import_message [0, 18] 0
       = [(0, []), (2, [example_particle, example_particle\<lparr>iorig := 1\<rparr>])]
   \<and> GetBackExportInfo example_layout [] [0, 18] [0, 0] sph st
       = Inr (send_buffer', nbe', nbt', sph', st')
   \<and> send_buffer'
       = part_bytes example_layout example_particle
         @ part_bytes example_layout (example_particle\<lparr>iorig := 1\<rparr>))"
proof -
  have "\<exists>r. GetBackExportInfo example_layout [] [0, 0] [0, 0] holding_sph holding_sphtree
             = Inr (part_bytes example_layout returned_particle, r)"
    by (simp add: import_defs holding_sph_def holding_sphtree_def returned_particle_def
        upt_rec Let_def eval_nat_numeral)
  then obtain nbe' nbt' sph' st' where
    g: "GetBackExportInfo example_layout [] [0, 0] [0, 0] holding_sph holding_sphtree
        = Inr (part_bytes example_layout returned_particle, nbe', nbt', sph', st')"
    by auto
  have h: "0 \<le> Nsph holding_sph + Nghost holding_sph"
    by (simp add: holding_sph_def example_sph_def)
  from GetBackExportInfo_sends_whole_records
         [of example_layout "[]" "[0, 0]" "[0, 0]" holding_sph holding_sphtree
             "part_bytes example_layout returned_particle" nbe' nbt' sph' st']
       g h
  have t: "NImportedParticles holding_sph = sum_list (N_imported_part_per_proc holding_sphtree)"
    "part_bytes example_layout returned_particle
       = concat (map (\<lambda>k. part_bytes example_layout (sphdata holding_sph ! k))
                  [nat (Nsph holding_sph + Nghost holding_sph)..<
                   nat (Nsph holding_sph + Nghost holding_sph)
                   + nat (NImportedParticles holding_sph)])"
    by blast+
  have A: "\<exists>nbe' nbt' sph' st'.
     GetBackExportInfo example_layout [] [0, 0] [0, 0] holding_sph holding_sphtree
       = Inr (part_bytes example_layout returned_particle, nbe', nbt', sph', st')
   \<and> 0 \<le> Nsph holding_sph + Nghost holding_sph
   \<and> NImportedParticles holding_sph = sum_list (N_imported_part_per_proc holding_sphtree)
   \<and> part_bytes example_layout returned_particle
       = concat (map (\<lambda>k. part_bytes example_layout (sphdata holding_sph ! k))
                  [nat (Nsph holding_sph + Nghost holding_sph)..<
                   nat (Nsph holding_sph + Nghost holding_sph)
                   + nat (NImportedParticles holding_sph)])"
    using g h t by blast
  have s: "Ntot example_sph = Nsph example_sph + Nghost example_sph"
    "0 \<le> Nsph example_sph + Nghost example_sph"
    by (simp_all add: example_sph_def)
  have "\<exists>sph st r.
     UnpackExported example_layout import_message [0, 18] example_sph example_sphtree
       = Inr (Returns (sph, st))
   \<and> GetBackExportInfo example_layout [] [0, 18] [0, 0] sph st = Inr r"
    by (simp add: import_defs import_message_def upt_rec Let_def eval_nat_numeral)
  then obtain sph st r where
    u: "UnpackExported example_layout import_message [0, 18] example_sph example_sphtree
         = Inr (Returns (sph, st))"
    and p: "GetBackExportInfo example_layout [] [0, 18] [0, 0] sph st = Inr r"
    by blast
  obtain send_buffer'' nbe'' nbt'' sph'' st'' where
    r: "r = (send_buffer'', nbe'', nbt'', sph'', st'')"
    by (cases r) auto
  have m: "import_messages example_layout import_message [0, 18] 0
       = [(0, []), (2, [example_particle, example_particle\<lparr>iorig := 1\<rparr>])]"
    by (simp add: import_defs import_message_def upt_rec Let_def eval_nat_numeral)
  have hc: "headers_count_particles (import_messages example_layout import_message [0, 18] 0)"
    unfolding m by (simp add: headers_count_particles_def)
  from GetBackExportInfo_sends_whole_records
         [of example_layout "[]" "[0, 18]" "[0, 0]" sph st send_buffer'' nbe'' nbt'' sph'' st''
             example_sph import_message "[0, 18]" example_sphtree]
       s u hc p [unfolded r]
  have "send_buffer''
          = concat (map (part_bytes example_layout)
                      (concat (map snd (import_messages example_layout import_message [0, 18] 0))))"
    by blast
  then have b: "send_buffer''
       = part_bytes example_layout example_particle
         @ part_bytes example_layout (example_particle\<lparr>iorig := 1\<rparr>)"
    unfolding m by simp
  have B: "\<exists>sph st send_buffer' nbe' nbt' sph' st'.
     Ntot example_sph = Nsph example_sph + Nghost example_sph
   \<and> 0 \<le> Nsph example_sph + Nghost example_sph
   \<and> UnpackExported example_layout import_message [0, 18] example_sph example_sphtree
       = Inr (Returns (sph, st))
   \<and> headers_count_particles (import_messages example_layout import_message [0, 18] 0)
   \<and> import_messages example_layout import_message [0, 18] 0
       = [(0, []), (2, [example_particle, example_particle\<lparr>iorig := 1\<rparr>])]
   \<and> GetBackExportInfo example_layout [] [0, 18] [0, 0] sph st
       = Inr (send_buffer', nbe', nbt', sph', st')
   \<and> send_buffer'
       = part_bytes example_layout example_particle
         @ part_bytes example_layout (example_particle\<lparr>iorig := 1\<rparr>)"
    using s u hc m p [unfolded r] b by blast
  from A B show ?thesis by (rule conjI)
qed

text \<open>
  Claim C6, as stated, fails. Two receivers hold an imported particle with the same
  result fields (acceleration, gravitational acceleration, potential, potential
  energy, energy derivative, velocity divergence, neighbour level) and with
  different masses: the payloads that \<open>GetBackExportInfo\<close> packs differ, so the
  payload carries more than the result fields. Each payload is the whole record of
  the particle.
\<close>

theorem GetBackExportInfo_payload_counterexample:
  "result_fields (sphdata holding_sph ! 1) = result_fields (sphdata holding_sph_other_mass ! 1)
 \<and> (case (GetBackExportInfo example_layout [] [0, 0] [0, 0] holding_sph holding_sphtree,
           GetBackExportInfo example_layout [] [0, 0] [0, 0] holding_sph_other_mass
             holding_sphtree) of
       (Inr (payload, rest), Inr (payload_other_mass, rest_other_mass)) \<Rightarrow>
          payload \<noteq> payload_other_mass
        \<and> payload = part_bytes example_layout returned_particle
        \<and> payload_other_mass
            = part_bytes example_layout (returned_particle\<lparr>part_m := Finite 1\<rparr>)
     | other \<Rightarrow> False)"
  by (simp add: import_defs holding_sph_def holding_sph_other_mass_def holding_sphtree_def
      returned_particle_def result_fields_def upt_rec Let_def eval_nat_numeral)

section \<open>Claim C7\<close>

lemma unpack_procs_append:
  "unpack_procs lay buf Nproc (pre @ rest) s =
     (case unpack_procs lay buf Nproc pre s of
        Inl e \<Rightarrow> Inl e
      | Inr (Raises msg s1) \<Rightarrow> Inr (Raises msg s1)
      | Inr (Returns s1) \<Rightarrow> unpack_procs lay buf (Nproc + length pre) rest s1)"
  by (induction pre arbitrary: Nproc s) (auto split: sum.splits ending.splits)

lemma unpack_proc_raises:
  assumes "nb \<noteq> 0"
    and "copy_int_from lay buf off = Inr np"
    and "copy_int_from lay buf (off + int sizeof_int) = Inr ncl"
    and "int32 (Ntot sph + np)"
    and "Nsphmax sph < Ntot sph + np
         \<or> (int32 (Ncelltot (tree st) + ncl) \<and> Ncellmax (tree st) < Ncelltot (tree st) + ncl)"
  shows "unpack_proc lay buf Nproc nb (off, sph, st) =
           Inr (Raises (if Nsphmax sph < Ntot sph + np then import_particles_message
                        else import_cells_message)
                  (off, sph,
                   st\<lparr>N_imported_part_per_proc := (N_imported_part_per_proc st)[Nproc := np]\<rparr>))"
  using assms by (auto simp: unpack_proc_def Let_def int_add_def)

lemma unpack_proc_capacity:
  assumes "unpack_proc lay buf Nproc nb (off, sph, st) = Inr (Returns (off', sph', st'))"
  shows "Nsphmax sph' = Nsphmax sph \<and> Ncellmax (tree st') = Ncellmax (tree st)
       \<and> (Ntot sph \<le> Nsphmax sph \<longrightarrow> Ntot sph' \<le> Nsphmax sph')
       \<and> (Ncelltot (tree st) \<le> Ncellmax (tree st) \<longrightarrow> Ncelltot (tree st') \<le> Ncellmax (tree st'))"
proof (cases "nb = 0")
  case True
  with assms have "sph' = sph"
    "st' = st\<lparr>N_imported_part_per_proc := (N_imported_part_per_proc st)[Nproc := 0]\<rparr>"
    by (simp_all add: unpack_proc_def)
  then show ?thesis by simp
next
  case False
  from assms False show ?thesis
  proof (rule unpack_proc_ReturnsE)
    fix np ncl pidx ps nx cells
    assume cap: "\<not> Nsphmax sph < Ntot sph + np"
      "\<not> Ncellmax (tree st) < Ncelltot (tree st) + ncl"
      and res: "sph' = sph\<lparr>sphdata := ps, Ntot := Ntot sph + np,
                          NImportedParticles := NImportedParticles sph + np\<rparr>"
        "st' = st\<lparr>N_imported_part_per_proc := (N_imported_part_per_proc st)[Nproc := np],
               tree := (tree st)\<lparr>celldata := cells, inext := nx,
                         Nimportedcell := Nimportedcell (tree st) + ncl,
                         Ncelltot := Ncelltot (tree st) + ncl,
                         tree_Ntot := Ntot sph + np\<rparr>\<rparr>"
    then show ?thesis by auto
  qed
qed

lemma unpack_procs_capacity:
  assumes "unpack_procs lay buf Nproc nbytes (off, sph, st) = Inr (Returns (off', sph', st'))"
    and "Ntot sph \<le> Nsphmax sph" "Ncelltot (tree st) \<le> Ncellmax (tree st)"
  shows "Ntot sph' \<le> Nsphmax sph' \<and> Ncelltot (tree st') \<le> Ncellmax (tree st')"
  using assms
proof (induction nbytes arbitrary: Nproc off sph st)
  case Nil
  then show ?case by simp
next
  case (Cons nb nbytes)
  from Cons.prems(1) obtain off1 sph1 st1 where
    p: "unpack_proc lay buf Nproc nb (off, sph, st) = Inr (Returns (off1, sph1, st1))"
    and r: "unpack_procs lay buf (Suc Nproc) nbytes (off1, sph1, st1) = Inr (Returns (off', sph', st'))"
    by (auto split: sum.splits ending.splits)
  from unpack_proc_capacity [OF p] Cons.prems(2,3)
  have "Ntot sph1 \<le> Nsphmax sph1" "Ncelltot (tree st1) \<le> Ncellmax (tree st1)"
    by simp_all
  from Cons.IH [OF r this] show ?case .
qed

lemma UnpackExported_capacity:
  assumes "UnpackExported lay buf nbytes sph st = Inr (Returns (sph1, st1))"
    and "Ntot sph \<le> Nsphmax sph" "Ncell (tree st) \<le> Ncellmax (tree st)"
  shows "Ntot sph1 \<le> Nsphmax sph1 \<and> Ncelltot (tree st1) \<le> Ncellmax (tree st1)"
proof -
  from assms(1) obtain off where
    u: "unpack_procs lay buf 0 nbytes (unpack_start nbytes sph st) = Inr (Returns (off, sph1, st1))"
    by (auto simp: UnpackExported_def split: if_splits sum.splits ending.splits prod.splits)
  have s0: "unpack_start nbytes sph st = (0, sph,
      st\<lparr>tree := (tree st)\<lparr>Nimportedcell := 0, Ncelltot := Ncell (tree st)\<rparr>,
         N_imported_part_per_proc := resize_ints (N_imported_part_per_proc st) (length nbytes)\<rparr>)"
    by (simp add: unpack_start_def)
  show ?thesis
    by (rule unpack_procs_capacity [OF u [unfolded s0]]) (use assms in simp_all)
qed

text \<open>
  Claim C7, amended. A call of \<open>SearchBoundaryGhostParticles\<close> (with a boundary
  that is not open) whose passes end with more particles than \<open>Nsphmax\<close> raises,
  and one that returns has at most \<open>Nsphmax\<close> particles. In \<open>UnpackExported\<close>,
  when the peers before have been unpacked and the next peer, with a byte count that
  is not zero, announces more particles or cells than fit, and the sums of a counter
  and an announced count that the tests compute are values of a 32-bit \<open>int\<close>,
  the call raises, in
  the state the earlier peers have left, in which only the entry of this peer in
  \<open>N_imported_part_per_proc\<close> has been written; a call that returns from a state
  within capacity ends within capacity.
\<close>

theorem capacity_exhaustion_raises:
  "(\<not> (x_boundary_lhs simbox = ''open'' \<and> x_boundary_rhs simbox = ''open''
        \<and> y_boundary_lhs simbox = ''open'' \<and> y_boundary_rhs simbox = ''open''
        \<and> z_boundary_lhs simbox = ''open'' \<and> z_boundary_rhs simbox = ''open'')
    \<and> ghost_passes G ndim (fmul ghost_range kernrange) tghost simbox tree' (ghost_start sph)
        = Some (Inr sph_ghosts)
    \<and> Nsphmax sph_ghosts < Ntot sph_ghosts
    \<longrightarrow> SearchBoundaryGhostParticles G ndim ghost_range kernrange tghost simbox tree' sph
        = Some (Inr (Raises ghost_memory_message sph_ghosts)))
 \<and> (NImportedParticles sph' = 0
    \<and> unpack_procs lay received_array 0 pre (unpack_start (pre @ nb # post) sph' st)
        = Inr (Returns (offset, sph_before, st_before))
    \<and> nb \<noteq> 0
    \<and> copy_int_from lay received_array offset = Inr N_received_particles
    \<and> copy_int_from lay received_array (offset + int sizeof_int) = Inr N_received_cells
    \<and> int32 (Ntot sph_before + N_received_particles)
    \<and> (Nsphmax sph_before < Ntot sph_before + N_received_particles
       \<or> (int32 (Ncelltot (tree st_before) + N_received_cells)
          \<and> Ncellmax (tree st_before) < Ncelltot (tree st_before) + N_received_cells))
    \<longrightarrow> UnpackExported lay received_array (pre @ nb # post) sph' st
        = Inr (Raises (if Nsphmax sph_before < Ntot sph_before + N_received_particles
                       then import_particles_message else import_cells_message)
                 (sph_before,
                  st_before\<lparr>N_imported_part_per_proc :=
                        (N_imported_part_per_proc st_before)[length pre := N_received_particles]\<rparr>)))
 \<and> (\<not> (x_boundary_lhs simbox = ''open'' \<and> x_boundary_rhs simbox = ''open''
        \<and> y_boundary_lhs simbox = ''open'' \<and> y_boundary_rhs simbox = ''open''
        \<and> z_boundary_lhs simbox = ''open'' \<and> z_boundary_rhs simbox = ''open'')
    \<and> SearchBoundaryGhostParticles G ndim ghost_range kernrange tghost simbox tree' sph
        = Some (Inr (Returns sph_returned))
    \<longrightarrow> Ntot sph_returned \<le> Nsphmax sph_returned)
 \<and> (UnpackExported lay received_array Nbytes sph' st = Inr (Returns (sph_after, st_after))
    \<and> Ntot sph' \<le> Nsphmax sph' \<and> Ncell (tree st) \<le> Ncellmax (tree st)
    \<longrightarrow> Ntot sph_after \<le> Nsphmax sph_after \<and> Ncelltot (tree st_after) \<le> Ncellmax (tree st_after))"
proof (intro conjI; rule impI)
  assume "\<not> (x_boundary_lhs simbox = ''open'' \<and> x_boundary_rhs simbox = ''open''
        \<and> y_boundary_lhs simbox = ''open'' \<and> y_boundary_rhs simbox = ''open''
        \<and> z_boundary_lhs simbox = ''open'' \<and> z_boundary_rhs simbox = ''open'')
    \<and> ghost_passes G ndim (fmul ghost_range kernrange) tghost simbox tree' (ghost_start sph)
        = Some (Inr sph_ghosts)
    \<and> Nsphmax sph_ghosts < Ntot sph_ghosts"
  then show "SearchBoundaryGhostParticles G ndim ghost_range kernrange tghost simbox tree' sph
        = Some (Inr (Raises ghost_memory_message sph_ghosts))"
    by (auto simp: SearchBoundaryGhostParticles_def Let_def)
next
  assume a: "NImportedParticles sph' = 0
    \<and> unpack_procs lay received_array 0 pre (unpack_start (pre @ nb # post) sph' st)
        = Inr (Returns (offset, sph_before, st_before))
    \<and> nb \<noteq> 0
    \<and> copy_int_from lay received_array offset = Inr N_received_particles
    \<and> copy_int_from lay received_array (offset + int sizeof_int) = Inr N_received_cells
    \<and> int32 (Ntot sph_before + N_received_particles)
    \<and> (Nsphmax sph_before < Ntot sph_before + N_received_particles
       \<or> (int32 (Ncelltot (tree st_before) + N_received_cells)
          \<and> Ncellmax (tree st_before) < Ncelltot (tree st_before) + N_received_cells))"
  then have p: "unpack_proc lay received_array (length pre) nb (offset, sph_before, st_before) =
           Inr (Raises (if Nsphmax sph_before < Ntot sph_before + N_received_particles
                        then import_particles_message else import_cells_message)
                  (offset, sph_before,
                   st_before\<lparr>N_imported_part_per_proc :=
                         (N_imported_part_per_proc st_before)[length pre := N_received_particles]\<rparr>))"
    using unpack_proc_raises by blast
  have "unpack_procs lay received_array 0 (pre @ nb # post) (unpack_start (pre @ nb # post) sph' st)
        = Inr (Raises (if Nsphmax sph_before < Ntot sph_before + N_received_particles
                        then import_particles_message else import_cells_message)
                  (offset, sph_before,
                   st_before\<lparr>N_imported_part_per_proc :=
                         (N_imported_part_per_proc st_before)[length pre := N_received_particles]\<rparr>))"
    using a p by (simp add: unpack_procs_append)
  with a show "UnpackExported lay received_array (pre @ nb # post) sph' st
        = Inr (Raises (if Nsphmax sph_before < Ntot sph_before + N_received_particles
                       then import_particles_message else import_cells_message)
                 (sph_before,
                  st_before\<lparr>N_imported_part_per_proc :=
                        (N_imported_part_per_proc st_before)[length pre := N_received_particles]\<rparr>))"
    by (simp add: UnpackExported_def)
next
  assume "\<not> (x_boundary_lhs simbox = ''open'' \<and> x_boundary_rhs simbox = ''open''
        \<and> y_boundary_lhs simbox = ''open'' \<and> y_boundary_rhs simbox = ''open''
        \<and> z_boundary_lhs simbox = ''open'' \<and> z_boundary_rhs simbox = ''open'')
    \<and> SearchBoundaryGhostParticles G ndim ghost_range kernrange tghost simbox tree' sph
        = Some (Inr (Returns sph_returned))"
  then show "Ntot sph_returned \<le> Nsphmax sph_returned"
    by (auto simp: SearchBoundaryGhostParticles_def Let_def
             split: option.splits sum.splits if_splits)
next
  assume "UnpackExported lay received_array Nbytes sph' st = Inr (Returns (sph_after, st_after))
    \<and> Ntot sph' \<le> Nsphmax sph' \<and> Ncell (tree st) \<le> Ncellmax (tree st)"
  then show "Ntot sph_after \<le> Nsphmax sph_after \<and> Ncelltot (tree st_after) \<le> Ncellmax (tree st_after)"
    using UnpackExported_capacity by blast
qed

text \<open>
  The theorem on the examples: the ghost search of three periodic dimensions ends
  with 16 particles where 8 fit, and raises; the second peer announces 5 particles
  where 3 more fit, and the import raises with the state the first peer has left.
\<close>

theorem capacity_exhaustion_raises_witness:
  "(\<exists>sph_ghosts.
      \<not> (x_boundary_lhs ghost_box = ''open'' \<and> x_boundary_rhs ghost_box = ''open''
        \<and> y_boundary_lhs ghost_box = ''open'' \<and> y_boundary_rhs ghost_box = ''open''
        \<and> z_boundary_lhs ghost_box = ''open'' \<and> z_boundary_rhs ghost_box = ''open'')
    \<and> ghost_passes ghost_example_checks 3 (fmul (Finite 2) (Finite 2)) (Finite 1) ghost_box
         ghost_tree (ghost_start (ghost_sph\<lparr>Nsphmax := 8\<rparr>)) = Some (Inr sph_ghosts)
    \<and> Ntot sph_ghosts = 16 \<and> Nsphmax sph_ghosts = 8
    \<and> Nsphmax sph_ghosts < Ntot sph_ghosts
    \<and> SearchBoundaryGhostParticles ghost_example_checks 3 (Finite 2) (Finite 2) (Finite 1)
         ghost_box ghost_tree (ghost_sph\<lparr>Nsphmax := 8\<rparr>)
        = Some (Inr (Raises ghost_memory_message sph_ghosts)))
 \<and> (\<exists>offset sph_before st_before.
      NImportedParticles example_sph = 0
    \<and> unpack_procs example_layout oversized_message 0 [0]
         (unpack_start ([0] @ 8 # []) example_sph example_sphtree)
        = Inr (Returns (offset, sph_before, st_before))
    \<and> (8 :: int) \<noteq> 0
    \<and> copy_int_from example_layout oversized_message offset = Inr 5
    \<and> copy_int_from example_layout oversized_message (offset + int sizeof_int) = Inr 1
    \<and> int32 (Ntot sph_before + 5)
    \<and> Nsphmax sph_before < Ntot sph_before + 5
    \<and> UnpackExported example_layout oversized_message ([0] @ 8 # []) example_sph example_sphtree
        = Inr (Raises import_particles_message
                 (sph_before,
                  st_before\<lparr>N_imported_part_per_proc :=
                        (N_imported_part_per_proc st_before)[length [0 :: int] := 5]\<rparr>)))"
proof -
  have n: "\<not> (x_boundary_lhs ghost_box = ''open'' \<and> x_boundary_rhs ghost_box = ''open''
        \<and> y_boundary_lhs ghost_box = ''open'' \<and> y_boundary_rhs ghost_box = ''open''
        \<and> z_boundary_lhs ghost_box = ''open'' \<and> z_boundary_rhs ghost_box = ''open'')"
    by (simp add: ghost_box_def)
  have "\<exists>sph_ghosts.
      ghost_passes ghost_example_checks 3 (fmul (Finite 2) (Finite 2)) (Finite 1) ghost_box
         ghost_tree (ghost_start (ghost_sph\<lparr>Nsphmax := 8\<rparr>)) = Some (Inr sph_ghosts)
    \<and> Ntot sph_ghosts = 16 \<and> Nsphmax sph_ghosts = 8"
    by (simp add: ghost_passes_def x_pass_def y_pass_def z_pass_def
        cell_loop.simps leaf_loop.simps direct_loop.simps
        ghost_start_def ghost_box_def ghost_tree_def ghost_cell_def
        ghost_sph_def example_sph_def ghost_example_checks_def
        cell_near_boundary_def fmin_def fmax_def fgt_def fsub_def)
  then obtain sph_ghosts where
    g: "ghost_passes ghost_example_checks 3 (fmul (Finite 2) (Finite 2)) (Finite 1) ghost_box
         ghost_tree (ghost_start (ghost_sph\<lparr>Nsphmax := 8\<rparr>)) = Some (Inr sph_ghosts)"
    and v: "Ntot sph_ghosts = 16" "Nsphmax sph_ghosts = 8"
    by blast
  from v have c: "Nsphmax sph_ghosts < Ntot sph_ghosts" by simp
  have "\<exists>offset sph_before st_before.
      unpack_procs example_layout oversized_message 0 [0]
         (unpack_start ([0] @ 8 # []) example_sph example_sphtree)
        = Inr (Returns (offset, sph_before, st_before))
    \<and> copy_int_from example_layout oversized_message offset = Inr 5
    \<and> copy_int_from example_layout oversized_message (offset + int sizeof_int) = Inr 1
    \<and> int32 (Ntot sph_before + 5)
    \<and> Nsphmax sph_before < Ntot sph_before + 5"
    by (simp add: import_defs oversized_message_def upt_rec Let_def eval_nat_numeral)
  then obtain offset sph_before st_before where
    u: "unpack_procs example_layout oversized_message 0 [0]
         (unpack_start ([0] @ 8 # []) example_sph example_sphtree)
        = Inr (Returns (offset, sph_before, st_before))"
    and h1: "copy_int_from example_layout oversized_message offset = Inr 5"
    and h2: "copy_int_from example_layout oversized_message (offset + int sizeof_int) = Inr 1"
    and i1: "int32 (Ntot sph_before + 5)"
    and o: "Nsphmax sph_before < Ntot sph_before + 5"
    by blast
  have z: "NImportedParticles example_sph = 0" "(8 :: int) \<noteq> 0"
    by (simp_all add: example_sph_def)
  note T = capacity_exhaustion_raises
    [where simbox = ghost_box and G = ghost_example_checks and ndim = 3
       and ghost_range = "Finite 2" and kernrange = "Finite 2" and tghost = "Finite 1"
       and tree' = ghost_tree and sph = "ghost_sph\<lparr>Nsphmax := 8\<rparr>"
       and sph_ghosts = sph_ghosts
       and sph' = example_sph and lay = example_layout and received_array = oversized_message
       and pre = "[0]" and nb = 8 and post = "[]" and st = example_sphtree
       and offset = offset and sph_before = sph_before and st_before = st_before
       and N_received_particles = 5 and N_received_cells = 1]
  from T n g c have A: "SearchBoundaryGhostParticles ghost_example_checks 3 (Finite 2) (Finite 2) (Finite 1)
         ghost_box ghost_tree (ghost_sph\<lparr>Nsphmax := 8\<rparr>)
        = Some (Inr (Raises ghost_memory_message sph_ghosts))"
    by blast
  from T z u h1 h2 i1 o have B: "UnpackExported example_layout oversized_message ([0] @ 8 # []) example_sph example_sphtree
        = Inr (Raises import_particles_message
                 (sph_before,
                  st_before\<lparr>N_imported_part_per_proc :=
                        (N_imported_part_per_proc st_before)[length [0 :: int] := 5]\<rparr>))"
    by simp
  from n g v c A z u h1 h2 i1 o B show ?thesis by blast
qed

text \<open>
  Claim C7, as stated, fails. A peer announces 2147483647 particles to a receiver
  that holds one particle and has room for four. The import would push the particle
  count far past \<open>Nsphmax\<close>, and \<open>UnpackExported\<close> does not raise: the sum
  \<open>sph->Ntot + N_received_particles\<close> of the capacity test is not a value of a
  32-bit \<open>int\<close> (on the usual machines it wraps around to \<open>-2147483648\<close>, the test
  is false and the call goes on to copy the payload).
\<close>

theorem UnpackExported_overflow_counterexample:
  "Nsphmax example_sph < Ntot example_sph + 2147483647
 \<and> UnpackExported example_layout (int_bytes 2147483647 @ int_bytes 0) [0, 8]
       example_sph example_sphtree
     = Inl SignedOverflow"
  by (simp add: import_defs upt_rec Let_def eval_nat_numeral)

section \<open>Claim C8\<close>

lemma leftnodes_loop_id: "leftnodes_loop mpinode leftnodes w = w"
  by (induction mpinode leftnodes w rule: leftnodes_loop.induct) simp_all

lemma accumulated_work_zero:
  "accumulated_work mpinode leftnodes rightnodes = (Finite 0, Finite 0)"
  by (simp add: accumulated_work_def leftnodes_loop_id)

lemma division_loop_returns:
  "division_loop mpinode leftnodes rightnodes r_divide r_min r_max = Some r_divide"
  by (subst division_loop.simps) (simp add: accumulated_work_zero fgt_def flt_NaN_right)

lemma FindLoadBalancingDivision_result:
  "FindLoadBalancingDivision k_divide r_old bbmin' bbmax' leftnodes rightnodes mpinode =
     (if k_divide < 0 \<or> int (length bbmax') \<le> k_divide \<or> int (length bbmin') \<le> k_divide
      then Some (Inl IndexOutOfRange) else Some (Inr r_old))"
  by (simp add: FindLoadBalancingDivision_def division_loop_returns)

text \<open>
  Claim C8. Whatever the MPI nodes carry, both work accumulators are zero where the
  work fraction is computed, in every iteration; the function returns, and the
  division it returns is the same for any two arrays of MPI nodes.
\<close>

theorem FindLoadBalancingDivision_ignores_work:
  "accumulated_work mpinode leftnodes rightnodes = (Finite 0, Finite 0)
 \<and> FindLoadBalancingDivision k_divide r_old bbmin' bbmax' leftnodes rightnodes mpinode \<noteq> None
 \<and> FindLoadBalancingDivision k_divide r_old bbmin' bbmax' leftnodes rightnodes mpinode
     = FindLoadBalancingDivision k_divide r_old bbmin' bbmax' leftnodes rightnodes mpinode'"
  by (simp add: accumulated_work_zero FindLoadBalancingDivision_result)

theorem FindLoadBalancingDivision_ignores_work_witness:
  "accumulated_work [10 :: nat, 90] [0] [1] = (Finite 0, Finite 0)
 \<and> FindLoadBalancingDivision 0 (Finite (1 / 4)) [Finite 0] [Finite 1] [0] [1] [10 :: nat, 90]
     \<noteq> None
 \<and> FindLoadBalancingDivision 0 (Finite (1 / 4)) [Finite 0] [Finite 1] [0] [1] [10 :: nat, 90]
     = FindLoadBalancingDivision 0 (Finite (1 / 4)) [Finite 0] [Finite 1] [0] [1] [90, 10]"
  by (rule FindLoadBalancingDivision_ignores_work)

section \<open>Claim C9\<close>

lemma SetParameter_unknown:
  assumes "intparams p key = None" "floatparams p key = None" "stringparams p key = None"
  shows "SetParameter ri rf key val p = (p, [warning_not_recognized key])"
  using assms by (simp add: SetParameter_def)

lemma SetParameter_int:
  assumes "intparams p key = Some old"
  shows "SetParameter ri rf key val p =
           (p\<lparr>intparams := (intparams p)(key \<mapsto> ri val old)\<rparr>, [])"
  using assms by (simp add: SetParameter_def)

lemma SetParameter_float:
  assumes "intparams p key = None" "floatparams p key = Some old"
  shows "SetParameter ri rf key val p =
           (p\<lparr>floatparams := (floatparams p)(key \<mapsto> rf val old)\<rparr>, [])"
  using assms by (simp add: SetParameter_def)

lemma SetParameter_string:
  assumes "intparams p key = None" "floatparams p key = None" "stringparams p key = Some old"
  shows "SetParameter ri rf key val p =
           (p\<lparr>stringparams := (stringparams p)(key \<mapsto> val)\<rparr>, [])"
  using assms by (simp add: SetParameter_def)

text \<open>
  Claim C9. A key that is in none of the three maps produces the warning and leaves
  the parameters as they were. A key that is in a map produces no warning, leaves
  every entry under another key of every map as it was, adds no key and removes
  none, and changes one map only: the first of the integer, float and string maps
  that holds the key, whose entry under the key becomes the value read.
\<close>

theorem SetParameter_warns_or_updates_one_entry:
  fixes p :: Parameters and key val :: string
    and ri :: "string \<Rightarrow> int \<Rightarrow> int" and rf :: "string \<Rightarrow> FLOAT \<Rightarrow> FLOAT"
  defines "known \<equiv> dom (intparams p) \<union> dom (floatparams p) \<union> dom (stringparams p)"
  defines "res \<equiv> SetParameter ri rf key val p"
  shows "(key \<notin> known \<longrightarrow> res = (p, [warning_not_recognized key]))
       \<and> (key \<in> known \<longrightarrow>
            snd res = []
          \<and> (\<forall>k. k \<noteq> key \<longrightarrow>
                 intparams (fst res) k = intparams p k
               \<and> floatparams (fst res) k = floatparams p k
               \<and> stringparams (fst res) k = stringparams p k)
          \<and> dom (intparams (fst res)) = dom (intparams p)
          \<and> dom (floatparams (fst res)) = dom (floatparams p)
          \<and> dom (stringparams (fst res)) = dom (stringparams p)
          \<and> (case intparams p key of
                Some old \<Rightarrow>
                  intparams (fst res) key = Some (ri val old)
                \<and> floatparams (fst res) = floatparams p
                \<and> stringparams (fst res) = stringparams p
              | None \<Rightarrow>
             (case floatparams p key of
                Some old \<Rightarrow>
                  floatparams (fst res) key = Some (rf val old)
                \<and> intparams (fst res) = intparams p
                \<and> stringparams (fst res) = stringparams p
              | None \<Rightarrow>
                  stringparams (fst res) key = Some val
                \<and> intparams (fst res) = intparams p
                \<and> floatparams (fst res) = floatparams p)))"
proof (rule conjI; rule impI)
  assume "key \<notin> known"
  then have "intparams p key = None" "floatparams p key = None" "stringparams p key = None"
    by (auto simp: known_def)
  then show "res = (p, [warning_not_recognized key])"
    unfolding res_def by (rule SetParameter_unknown)
next
  assume k: "key \<in> known"
  have "(\<exists>old. intparams p key = Some old)
      \<or> (intparams p key = None \<and> (\<exists>old. floatparams p key = Some old))
      \<or> (intparams p key = None \<and> floatparams p key = None
          \<and> (\<exists>old. stringparams p key = Some old))"
    using k unfolding known_def dom_def by (cases "intparams p key"; cases "floatparams p key") auto
  then consider
      (i) old where "intparams p key = Some old"
    | (f) old where "intparams p key = None" "floatparams p key = Some old"
    | (s) old where "intparams p key = None" "floatparams p key = None"
                    "stringparams p key = Some old"
    by blast
  then show "snd res = []
          \<and> (\<forall>k. k \<noteq> key \<longrightarrow>
                 intparams (fst res) k = intparams p k
               \<and> floatparams (fst res) k = floatparams p k
               \<and> stringparams (fst res) k = stringparams p k)
          \<and> dom (intparams (fst res)) = dom (intparams p)
          \<and> dom (floatparams (fst res)) = dom (floatparams p)
          \<and> dom (stringparams (fst res)) = dom (stringparams p)
          \<and> (case intparams p key of
                Some old \<Rightarrow>
                  intparams (fst res) key = Some (ri val old)
                \<and> floatparams (fst res) = floatparams p
                \<and> stringparams (fst res) = stringparams p
              | None \<Rightarrow>
             (case floatparams p key of
                Some old \<Rightarrow>
                  floatparams (fst res) key = Some (rf val old)
                \<and> intparams (fst res) = intparams p
                \<and> stringparams (fst res) = stringparams p
              | None \<Rightarrow>
                  stringparams (fst res) key = Some val
                \<and> intparams (fst res) = intparams p
                \<and> floatparams (fst res) = floatparams p))"
  proof cases
    case i
    then show ?thesis
      unfolding res_def by (auto simp: SetParameter_int)
  next
    case f
    then show ?thesis
      unfolding res_def by (auto simp: SetParameter_float)
  next
    case s
    then show ?thesis
      unfolding res_def by (auto simp: SetParameter_string)
  qed
qed

theorem SetParameter_warns_or_updates_one_entry_witness:
  "SetParameter (\<lambda>s old. 64) (\<lambda>s old. Finite 2) ''bogus'' ''1'' example_params
     = (example_params, [warning_not_recognized ''bogus''])
 \<and> snd (SetParameter (\<lambda>s old. 64) (\<lambda>s old. Finite 2) ''Npart'' ''64'' example_params) = []
 \<and> intparams (fst (SetParameter (\<lambda>s old. 64) (\<lambda>s old. Finite 2) ''Npart'' ''64'' example_params))
      ''Npart'' = Some 64
 \<and> intparams (fst (SetParameter (\<lambda>s old. 64) (\<lambda>s old. Finite 2) ''Npart'' ''64'' example_params))
      ''ndim'' = Some 3
 \<and> floatparams (fst (SetParameter (\<lambda>s old. 64) (\<lambda>s old. Finite 2) ''Npart'' ''64'' example_params))
      = floatparams example_params"
  using SetParameter_warns_or_updates_one_entry
          [where p = example_params and key = "''bogus''" and val = "''1''"
             and ri = "\<lambda>s old. 64" and rf = "\<lambda>s old. Finite 2"]
        SetParameter_warns_or_updates_one_entry
          [where p = example_params and key = "''Npart''" and val = "''64''"
             and ri = "\<lambda>s old. 64" and rf = "\<lambda>s old. Finite 2"]
  by (simp add: example_params_def)

section \<open>Claim C10\<close>

text \<open>
  Claim C10. From a state with no imported particles and \<open>Ntot = Nsph + Nghost\<close>,
  let \<open>UnpackExported\<close> return on some buffer and byte counts, and let
  \<open>GetBackExportInfo\<close> then reach its closing assertions. Then the assertions hold
  and \<open>GetBackExportInfo\<close> returns, the particle total is \<open>Nsph + Nghost\<close> again
  (with \<open>Nsph\<close>, \<open>Nghost\<close> and the total as before the import), no particle
  counts as imported, the tree's total cell count is its local cell count, and no
  cell counts as imported.
\<close>

theorem import_bookkeeping_round_trip:
  assumes start: "NImportedParticles sph = 0" "Ntot sph = Nsph sph + Nghost sph"
    and unpack: "UnpackExported lay received_array Nbytes sph st = Inr (Returns (sph1, st1))"
    and pack: "GetBackExportInfo_body lay send_buffer nbe nbt sph1 st1
               = Inr (removed, send_buffer', nbe', nbt', sph2, st2)"
  shows "GetBackExportInfo lay send_buffer nbe nbt sph1 st1
           = Inr (send_buffer', nbe', nbt', sph2, st2)
       \<and> Ntot sph2 = Nsph sph2 + Nghost sph2
       \<and> NImportedParticles sph2 = 0
       \<and> Ncelltot (tree st2) = Ncell (tree st2)
       \<and> Nimportedcell (tree st2) = 0
       \<and> Nsph sph2 = Nsph sph \<and> Nghost sph2 = Nghost sph \<and> Ntot sph2 = Ntot sph
       \<and> Ncell (tree st2) = Ncell (tree st)"
proof -
  let ?s0 = "unpack_start Nbytes sph st"
  from unpack obtain off where
    u: "unpack_procs lay received_array 0 Nbytes ?s0 = Inr (Returns (off, sph1, st1))"
    by (auto simp: UnpackExported_def split: if_splits sum.splits ending.splits prod.splits)
  have s0: "?s0 = (0, sph,
      st\<lparr>tree := (tree st)\<lparr>Nimportedcell := 0, Ncelltot := Ncell (tree st)\<rparr>,
         N_imported_part_per_proc := resize_ints (N_imported_part_per_proc st) (length Nbytes)\<rparr>)"
    by (simp add: unpack_start_def)
  have len: "length (N_imported_part_per_proc
      (st\<lparr>tree := (tree st)\<lparr>Nimportedcell := 0, Ncelltot := Ncell (tree st)\<rparr>,
         N_imported_part_per_proc := resize_ints (N_imported_part_per_proc st) (length Nbytes)\<rparr>))
      = 0 + length Nbytes"
    by (simp add: resize_ints_def)
  note U = unpack_procs_Returns [OF u [unfolded s0] len]
  let ?sum = "sum_list (N_imported_part_per_proc st1)"
  have u1: "Nsph sph1 = Nsph sph" "Nghost sph1 = Nghost sph" "Ntot sph1 = Ntot sph + ?sum"
    "NImportedParticles sph1 = ?sum" "Ncell (tree st1) = Ncell (tree st)"
    using U start by simp_all
  from pack obtain buf0 where
    rs: "resize send_buffer (NImportedParticles sph1 * int (sizeof_part lay)) = Inr buf0"
    and pp: "pack_procs lay (ids_sent_particles st1) 0 (N_imported_part_per_proc st1)
               (0, buf0, nbe, nbt, sph1) = Inr (removed, send_buffer', nbe', nbt', sph2)"
    and st2: "st2 = st1\<lparr>tree := (tree st1)\<lparr>Ncelltot := Ncell (tree st1), Nimportedcell := 0,
                 tree_Ntot := tree_Ntot (tree st1) - NImportedParticles sph1\<rparr>\<rparr>"
    by (auto simp: GetBackExportInfo_body_def Let_def split: sum.splits prod.splits)
  note P = pack_procs_Inr [OF pp]
  have p1: "removed = ?sum" "length send_buffer' = length buf0"
    "Nsph sph2 = Nsph sph1" "Nghost sph2 = Nghost sph1"
    "Ntot sph2 = Ntot sph1 - ?sum" "NImportedParticles sph2 = NImportedParticles sph1 - ?sum"
    using P by simp_all
  have l0: "int (length buf0) = NImportedParticles sph1 * int (sizeof_part lay)"
    using rs by (auto simp: resize_def split: if_splits)
  have c1: "NImportedParticles sph2 = 0" using p1 u1 by simp
  have c2: "Ntot sph2 = Nsph sph2 + Nghost sph2" using p1 u1 start by simp
  have c3: "int (length send_buffer') = removed * int (sizeof_part lay)"
    using p1 l0 u1 by simp
  have g: "GetBackExportInfo lay send_buffer nbe nbt sph1 st1
           = Inr (send_buffer', nbe', nbt', sph2, st2)"
    using pack c1 c2 c3 by (simp add: GetBackExportInfo_def)
  show ?thesis
    using g c1 c2 st2 p1 u1 start by simp
qed

theorem import_bookkeeping_round_trip_witness:
  "\<exists>sph1 st1 removed send_buffer' nbe' nbt' sph2 st2.
     NImportedParticles example_sph = 0
   \<and> Ntot example_sph = Nsph example_sph + Nghost example_sph
   \<and> UnpackExported example_layout import_message [0, 18] example_sph example_sphtree
       = Inr (Returns (sph1, st1))
   \<and> GetBackExportInfo_body example_layout [] [0, 18] [0, 0] sph1 st1
       = Inr (removed, send_buffer', nbe', nbt', sph2, st2)
   \<and> GetBackExportInfo example_layout [] [0, 18] [0, 0] sph1 st1
       = Inr (send_buffer', nbe', nbt', sph2, st2)
   \<and> Ntot sph2 = Nsph sph2 + Nghost sph2
   \<and> NImportedParticles sph2 = 0
   \<and> Ncelltot (tree st2) = Ncell (tree st2)
   \<and> Nimportedcell (tree st2) = 0"
proof -
  have "\<exists>sph1 st1 r.
     UnpackExported example_layout import_message [0, 18] example_sph example_sphtree
       = Inr (Returns (sph1, st1))
   \<and> GetBackExportInfo_body example_layout [] [0, 18] [0, 0] sph1 st1 = Inr r"
    by (simp add: import_defs import_message_def upt_rec Let_def eval_nat_numeral)
  then obtain sph1 st1 r where
    u: "UnpackExported example_layout import_message [0, 18] example_sph example_sphtree
         = Inr (Returns (sph1, st1))"
    and p: "GetBackExportInfo_body example_layout [] [0, 18] [0, 0] sph1 st1 = Inr r"
    by blast
  obtain removed send_buffer' nbe' nbt' sph2 st2 where
    r: "r = (removed, send_buffer', nbe', nbt', sph2, st2)"
    by (cases r) auto
  have s1: "NImportedParticles example_sph = 0"
    and s2: "Ntot example_sph = Nsph example_sph + Nghost example_sph"
    by (simp_all add: example_sph_def)
  from import_bookkeeping_round_trip [OF s1 s2 u p [unfolded r]] s1 s2 u p [unfolded r]
  show ?thesis by blast
qed


end
